theory Spec2Isabelle
  imports Main
begin

section \<open>Strings and characters\<close>

text \<open>
  JavaScript strings are sequences of code units. They are modelled as \<open>string\<close>, each
  \<open>char\<close> read as the code unit of the same number (U+0000 to U+00FF). On that range
  the definitions below are what \<^verbatim>\<open>String.prototype.trim\<close>, \<^verbatim>\<open>toLowerCase\<close>
  and the regular-expression classes \<^verbatim>\<open>\s\<close>, \<^verbatim>\<open>\d\<close>, \<^verbatim>\<open>\w\<close> and \<^verbatim>\<open>.\<close> do.
  \<^verbatim>\<open>toUpperCase\<close> is modelled on the ASCII letters; the code applies it to text matched
  by \<^verbatim>\<open>[a-zA-Z]+\<close> only.
\<close>

definition code :: "char \<Rightarrow> nat" where
  "code c = of_char c"

definition isDigit :: "char \<Rightarrow> bool" where
  "isDigit c = (48 \<le> code c \<and> code c \<le> 57)"

definition isUpper :: "char \<Rightarrow> bool" where
  "isUpper c = (65 \<le> code c \<and> code c \<le> 90)"

definition isLower :: "char \<Rightarrow> bool" where
  "isLower c = (97 \<le> code c \<and> code c \<le> 122)"

definition isAlpha :: "char \<Rightarrow> bool" where
  "isAlpha c = (isUpper c \<or> isLower c)"

definition isWordChar :: "char \<Rightarrow> bool" where
  "isWordChar c = (isAlpha c \<or> isDigit c \<or> code c = 95)"

definition isHexDigit :: "char \<Rightarrow> bool" where
  "isHexDigit c = (isDigit c \<or> (65 \<le> code c \<and> code c \<le> 70) \<or> (97 \<le> code c \<and> code c \<le> 102))"

definition isLineTerminator :: "char \<Rightarrow> bool" where
  "isLineTerminator c = (code c = 10 \<or> code c = 13)"

definition isSpace :: "char \<Rightarrow> bool" where
  "isSpace c = ((9 \<le> code c \<and> code c \<le> 13) \<or> code c = 32 \<or> code c = 160)"

definition upperChar :: "char \<Rightarrow> char" where
  "upperChar c = (if isLower c then char_of (code c - 32) else c)"

definition lowerChar :: "char \<Rightarrow> char" where
  "lowerChar c =
     (if isUpper c \<or> (192 \<le> code c \<and> code c \<le> 222 \<and> code c \<noteq> 215)
      then char_of (code c + 32) else c)"

definition toUpperCase :: "string \<Rightarrow> string" where
  "toUpperCase s = map upperChar s"

definition toLowerCase :: "string \<Rightarrow> string" where
  "toLowerCase s = map lowerChar s"

definition trim :: "string \<Rightarrow> string" where
  "trim s = rev (dropWhile isSpace (rev (dropWhile isSpace s)))"


section \<open>Regular expressions\<close>

text \<open>
  The regular expressions of the source are kept as data and run by one backtracking
  matcher with the priorities of the JavaScript engine: a quantifier is greedy and gives
  characters back one at a time, an alternative or an optional part is tried before it is
  skipped, and \<^verbatim>\<open>exec\<close> tries the start positions from left to right. Only the
  constructs that occur in the source are present; every quantifier of the source except
  \<^verbatim>\<open>?\<close> stands on a character class.
\<close>

datatype cclass = Digit | Space | Alpha | WordC | Hex | AnyChar

fun in_class :: "cclass \<Rightarrow> char \<Rightarrow> bool" where
  "in_class Digit c = isDigit c"
| "in_class Space c = isSpace c"
| "in_class Alpha c = isAlpha c"
| "in_class WordC c = isWordChar c"
| "in_class Hex c = isHexDigit c"
| "in_class AnyChar c = (\<not> isLineTerminator c)"

datatype regex =
    Bol
  | Eol
  | Lit string
  | Rep cclass nat "nat option"
  | Seq regex regex
  | Alt regex regex
  | Opt regex
  | Grp nat regex

text \<open>A matcher state: position in the input, rest of the input, captures so far.\<close>

type_synonym mstate = "nat \<times> string \<times> (nat \<times> string) list"

definition lit_eq :: "bool \<Rightarrow> char \<Rightarrow> char \<Rightarrow> bool" where
  "lit_eq icase p c = (if icase then upperChar p = upperChar c else p = c)"

fun lit_prefix :: "bool \<Rightarrow> string \<Rightarrow> string \<Rightarrow> bool" where
  "lit_prefix icase [] s = True"
| "lit_prefix icase (p # ps) [] = False"
| "lit_prefix icase (p # ps) (c # cs) = (lit_eq icase p c \<and> lit_prefix icase ps cs)"

fun try_down :: "(mstate \<Rightarrow> 'r option) \<Rightarrow> mstate \<Rightarrow> nat \<Rightarrow> nat \<Rightarrow> 'r option" where
  "try_down k (p, s, c) lo 0 = (if lo = 0 then k (p, s, c) else None)"
| "try_down k (p, s, c) lo (Suc m) =
     (if Suc m < lo then None
      else (case k (p + Suc m, drop (Suc m) s, c) of
              Some r \<Rightarrow> Some r
            | None \<Rightarrow> try_down k (p, s, c) lo m))"

fun rmatch :: "bool \<Rightarrow> regex \<Rightarrow> (mstate \<Rightarrow> 'r option) \<Rightarrow> mstate \<Rightarrow> 'r option" where
  "rmatch icase Bol k (p, s, c) = (if p = 0 then k (p, s, c) else None)"
| "rmatch icase Eol k (p, s, c) = (if s = [] then k (p, s, c) else None)"
| "rmatch icase (Lit l) k (p, s, c) =
     (if lit_prefix icase l s then k (p + length l, drop (length l) s, c) else None)"
| "rmatch icase (Rep cl lo hi) k (p, s, c) =
     (let n = length (takeWhile (in_class cl) s);
          m = (case hi of None \<Rightarrow> n | Some h \<Rightarrow> min h n)
      in try_down k (p, s, c) lo m)"
| "rmatch icase (Seq a b) k st = rmatch icase a (rmatch icase b k) st"
| "rmatch icase (Alt a b) k st =
     (case rmatch icase a k st of Some r \<Rightarrow> Some r | None \<Rightarrow> rmatch icase b k st)"
| "rmatch icase (Opt a) k st =
     (case rmatch icase a k st of Some r \<Rightarrow> Some r | None \<Rightarrow> k st)"
| "rmatch icase (Grp i a) k (p, s, c) =
     rmatch icase a (\<lambda>(p', s', c'). k (p', s', (i, take (p' - p) s) # c')) (p, s, c)"

text \<open>\<^verbatim>\<open>exec_from\<close> tries the start positions \<open>p, p + 1, ...\<close>; \<open>s\<close> is the input from \<open>p\<close> on.\<close>

fun exec_from :: "bool \<Rightarrow> regex \<Rightarrow> nat \<Rightarrow> string \<Rightarrow> (nat \<times> string) list option" where
  "exec_from icase re p [] = rmatch icase re (\<lambda>(p', s', c'). Some c') (p, [], [])"
| "exec_from icase re p (x # xs) =
     (case rmatch icase re (\<lambda>(p', s', c'). Some c') (p, x # xs, []) of
        Some c \<Rightarrow> Some c
      | None \<Rightarrow> exec_from icase re (Suc p) xs)"

text \<open>\<^verbatim>\<open>str.match(re)\<close> without the g flag: the captures of the leftmost match, or null.\<close>

definition str_match :: "bool \<Rightarrow> regex \<Rightarrow> string \<Rightarrow> (nat \<times> string) list option" where
  "str_match icase re s = exec_from icase re 0 s"

text \<open>\<^verbatim>\<open>match[i]\<close>: \<open>None\<close> is \<^verbatim>\<open>undefined\<close>, a group that took no part in the match.\<close>

definition grp :: "(nat \<times> string) list \<Rightarrow> nat \<Rightarrow> string option" where
  "grp m i = map_of m i"

fun seqs :: "regex list \<Rightarrow> regex" where
  "seqs [] = Lit []"
| "seqs [r] = r"
| "seqs (r # rs) = Seq r (seqs rs)"

definition plus :: "cclass \<Rightarrow> regex" where
  "plus cl = Rep cl 1 None"

definition star :: "cclass \<Rightarrow> regex" where
  "star cl = Rep cl 0 None"


section \<open>Failures\<close>

text \<open>
  A thrown value with its message. \<open>Error\<close> is \<^verbatim>\<open>new Error(message)\<close>, thrown by the
  repository's code or by a library; \<open>TypeError\<close> is what a method call on
  \<^verbatim>\<open>undefined\<close> throws; \<open>ValidationError\<close> is the rejection of a document by the
  schema, with the paths that failed; \<open>DuplicateKey\<close> is the driver's error with code
  11000. The message of the last two is the library's; it is written here as a heading
  and the names of the paths, and no property below depends on its wording.
\<close>

datatype js_error =
    Error string
  | TypeError string
  | ValidationError "string list"
  | DuplicateKey string

fun message :: "js_error \<Rightarrow> string" where
  "message (Error m) = m"
| "message (TypeError m) = m"
| "message (ValidationError ps) = ''Contact validation failed: '' @ concat ps"
| "message (DuplicateKey m) = m"

text \<open>Sequencing of steps that may throw.\<close>

definition bind_err :: "js_error + 'a \<Rightarrow> ('a \<Rightarrow> js_error + 'b) \<Rightarrow> js_error + 'b" where
  "bind_err r f = (case r of Inl err \<Rightarrow> Inl err | Inr v \<Rightarrow> f v)"

text \<open>
  The text of a group on which the source calls a method, or which it stores in its
  result: the call throws when the group took no part in the match.
\<close>

definition group_text :: "(nat \<times> string) list \<Rightarrow> nat \<Rightarrow> js_error + string" where
  "group_text m i =
     (case grp m i of
        None \<Rightarrow> Inl (TypeError ''Cannot read properties of undefined'')
      | Some t \<Rightarrow> Inr t)"


section \<open>Command parser (utlis/commandParser.js)\<close>

text \<open>
  \<^verbatim>\<open>send\s+(\d+(?:\.\d+)?)\s+([a-zA-Z]+)\s+to\s+(.+)\<close>, the send pattern between
  its anchors; app.js has the same pattern without anchors.
\<close>

definition SEND_tail :: regex where
  "SEND_tail =
     seqs [Lit ''send'', plus Space,
           Grp 1 (Seq (plus Digit) (Opt (Seq (Lit ''.'') (plus Digit)))),
           plus Space, Grp 2 (plus Alpha), plus Space, Lit ''to'', plus Space,
           Grp 3 (plus AnyChar)]"

text \<open>\<^verbatim>\<open>/^send\s+(\d+(?:\.\d+)?)\s+([a-zA-Z]+)\s+to\s+(.+)$/i\<close>\<close>

definition PATTERN_SEND :: regex where
  "PATTERN_SEND = Seq Bol (Seq SEND_tail Eol)"

text \<open>\<^verbatim>\<open>/^(?:check|show|view)\s+(?:my)?\s*balance(?:\s+of\s+([a-zA-Z]+))?$/i\<close>\<close>

definition PATTERN_CHECK_BALANCE :: regex where
  "PATTERN_CHECK_BALANCE =
     seqs [Bol, Alt (Lit ''check'') (Alt (Lit ''show'') (Lit ''view'')), plus Space,
           Opt (Lit ''my''), star Space, Lit ''balance'',
           Opt (seqs [plus Space, Lit ''of'', plus Space, Grp 1 (plus Alpha)]), Eol]"

text \<open>\<^verbatim>\<open>/^add\s+contact\s+([a-zA-Z0-9_]+)\s+(?:with\s+address\s+|as\s+)?(0x[a-fA-F0-9]{40})$/i\<close>\<close>

definition PATTERN_ADD_CONTACT :: regex where
  "PATTERN_ADD_CONTACT =
     seqs [Bol, Lit ''add'', plus Space, Lit ''contact'', plus Space, Grp 1 (plus WordC),
           plus Space,
           Opt (Alt (seqs [Lit ''with'', plus Space, Lit ''address'', plus Space])
                    (seqs [Lit ''as'', plus Space])),
           Grp 2 (Seq (Lit ''0x'') (Rep Hex 40 (Some 40))), Eol]"

text \<open>\<^verbatim>\<open>/^(?:list|show|view)\s+(?:my)?\s*contacts$/i\<close>\<close>

definition PATTERN_LIST_CONTACTS :: regex where
  "PATTERN_LIST_CONTACTS =
     seqs [Bol, Alt (Lit ''list'') (Alt (Lit ''show'') (Lit ''view'')), plus Space,
           Opt (Lit ''my''), star Space, Lit ''contacts'', Eol]"

datatype command =
    SEND string string string
  | CHECK_BALANCE string
  | ADD_CONTACT string string
  | LIST_CONTACTS
  | UNKNOWN string

text \<open>The alias test of lines 36 and 55.\<close>

definition normalizeToken :: "string \<Rightarrow> string" where
  "normalizeToken token =
     (if token = ''MYTOKEN'' \<or> token = ''MY-TOKEN'' \<or> token = ''MY_TOKEN'' then ''MTK''
      else token)"

text \<open>
  \<^verbatim>\<open>parseCommand\<close>. The argument is a string; \<open>None\<close> is the \<^verbatim>\<open>null\<close> of line 22,
  returned for the empty string, the only falsy string. The groups are read in the
  order of the source.
\<close>

definition parseCommand :: "string \<Rightarrow> js_error + command option" where
  "parseCommand commandString =
     (if commandString = [] then Inr None
      else
        let command = trim commandString in
        (case str_match True PATTERN_SEND command of
           Some m \<Rightarrow>
             bind_err (group_text m 2) (\<lambda>token.
             bind_err (group_text m 1) (\<lambda>amount.
             bind_err (group_text m 3) (\<lambda>recipient.
               Inr (Some (SEND amount (normalizeToken (toUpperCase token)) (trim recipient))))))
         | None \<Rightarrow>
        (case str_match True PATTERN_CHECK_BALANCE command of
           Some m \<Rightarrow>
             Inr (Some (CHECK_BALANCE
                     (normalizeToken
                        (case grp m 1 of
                           None \<Rightarrow> ''ALL''
                         | Some t \<Rightarrow> if t = [] then ''ALL'' else toUpperCase t))))
         | None \<Rightarrow>
        (case str_match True PATTERN_ADD_CONTACT command of
           Some m \<Rightarrow>
             bind_err (group_text m 1) (\<lambda>contactName.
             bind_err (group_text m 2) (\<lambda>contactAddress.
               Inr (Some (ADD_CONTACT (trim contactName) contactAddress))))
         | None \<Rightarrow>
        (case str_match True PATTERN_LIST_CONTACTS command of
           Some m \<Rightarrow> Inr (Some LIST_CONTACTS)
         | None \<Rightarrow> Inr (Some (UNKNOWN command)))))))"


section \<open>Blockchain service (services/blockchainService.js)\<close>

record receipt =
  r_transactionHash :: string
  r_blockNumber :: nat

text \<open>
  \<^verbatim>\<open>TOKEN_ADDRESSES\<close> and \<^verbatim>\<open>TOKEN_DECIMALS\<close> are plain objects, read with
  \<^verbatim>\<open>obj[key]\<close> at a key that the caller chooses. Such a read finds the object's own
  property of that name, and otherwise the member of \<^verbatim>\<open>Object.prototype\<close> of that
  name: a function, or for \<^verbatim>\<open>__proto__\<close> the prototype itself. A value read from
  a table is therefore \<open>Own v\<close>, a value of the table, or \<open>Inherited name\<close>, the
  inherited member of that name, which is truthy and is neither a string nor a number.
  \<^verbatim>\<open>__proto__\<close> is an accessor: it is never read from the table, and the assignment
  of a number to it leaves the object as it was.
\<close>

datatype 'a slot = Own 'a | Inherited string

definition OBJECT_PROTOTYPE :: "string list" where
  "OBJECT_PROTOTYPE =
     [''constructor'', ''__defineGetter__'', ''__defineSetter__'', ''hasOwnProperty'',
      ''__lookupGetter__'', ''__lookupSetter__'', ''isPrototypeOf'', ''propertyIsEnumerable'',
      ''toString'', ''valueOf'', ''__proto__'', ''toLocaleString'']"

definition obj_get :: "(string \<rightharpoonup> 'a) \<Rightarrow> string \<Rightarrow> 'a slot option" where
  "obj_get obj key =
     (if key = ''__proto__'' then Some (Inherited key)
      else (case obj key of
              Some v \<Rightarrow> Some (Own v)
            | None \<Rightarrow> if key \<in> set OBJECT_PROTOTYPE then Some (Inherited key) else None))"

definition obj_set :: "(string \<rightharpoonup> 'a) \<Rightarrow> string \<Rightarrow> 'a \<Rightarrow> (string \<rightharpoonup> 'a)" where
  "obj_set obj key v = (if key = ''__proto__'' then obj else obj(key \<mapsto> v))"

text \<open>
  What lies outside the repository is a parameter: the ethers helpers
  (\<^verbatim>\<open>isAddress\<close>, \<^verbatim>\<open>parseUnits\<close>, \<^verbatim>\<open>formatUnits\<close>; \<^verbatim>\<open>parseEther\<close> and
  \<^verbatim>\<open>formatEther\<close> are these at 18 decimals), the wallet, and the answers of the chain
  to each read and each submission. The helpers are given the decimals, and the
  contract the address, as the service read them from its tables; each may throw.
  \<open>token_addresses\<close> holds the own properties of the table \<^verbatim>\<open>TOKEN_ADDRESSES\<close>, a
  configuration value. A contract object is built without a chain access; a failure
  shows when a method is called.
\<close>

record env =
  isAddress :: "string \<Rightarrow> bool"
  parseUnits :: "string \<Rightarrow> nat slot \<Rightarrow> js_error + int"
  formatUnits :: "int \<Rightarrow> nat slot \<Rightarrow> js_error + string"
  wallet_address :: string
  token_addresses :: "string \<rightharpoonup> string"
  erc20_decimals :: "string slot \<Rightarrow> js_error + nat"
  erc20_balanceOf :: "string slot \<Rightarrow> string \<Rightarrow> js_error + int"
  erc20_transfer :: "string slot \<Rightarrow> string \<Rightarrow> int \<Rightarrow> js_error + nat"
  getBalance :: "string \<Rightarrow> js_error + int"
  sendTransaction :: "string \<Rightarrow> int \<Rightarrow> js_error + nat"
  tx_wait :: "nat \<Rightarrow> js_error + receipt"

text \<open>The requests made to the chain, in the order they are made.\<close>

datatype call =
    CallDecimals "string slot"
  | CallBalanceOf "string slot" string
  | CallGetBalance string
  | CallTransfer "string slot" string int
  | CallSendTransaction string int
  | CallWait nat

fun is_submission :: "call \<Rightarrow> bool" where
  "is_submission (CallTransfer _ _ _) = True"
| "is_submission (CallSendTransaction _ _) = True"
| "is_submission _ = False"

text \<open>
  The mutable state of the module: the own properties of the object
  \<^verbatim>\<open>TOKEN_DECIMALS\<close>, written by \<^verbatim>\<open>getTokenDecimals\<close>, and the requests made so
  far. Requests that the source starts together (\<^verbatim>\<open>Promise.all\<close>) are taken from
  left to right.
\<close>

record state =
  TOKEN_DECIMALS :: "string \<rightharpoonup> nat"
  calls :: "call list"

text \<open>
  The own properties of the two tables as the source writes them, lines 13 to 29. They
  are read through \<open>obj_get\<close> only, which adds the inherited members.
\<close>

definition TOKEN_ADDRESSES :: "string \<rightharpoonup> string" where
  "TOKEN_ADDRESSES =
     [''MTK'' \<mapsto> ''0x0E4Dd0bA5a6f1bc0ffFE421dbB8E252dFF0C66f6'',
      ''ETH'' \<mapsto> ''NATIVE'',
      ''USDC'' \<mapsto> ''0x1c7D4B196Cb0C7B01d743Fbc6116a902379C7238'',
      ''DAI'' \<mapsto> ''0x68194a729C2450ad26072b3D33ADaCbcef39D574'',
      ''USDT'' \<mapsto> ''0xaA8E23Fb1079EA71e0a56F48a2aA51851D8433D0'']"

definition TOKEN_DECIMALS_init :: "string \<rightharpoonup> nat" where
  "TOKEN_DECIMALS_init =
     [''MTK'' \<mapsto> 18, ''USDC'' \<mapsto> 6, ''ETH'' \<mapsto> 18, ''DAI'' \<mapsto> 18, ''USDT'' \<mapsto> 6]"

definition init_state :: state where
  "init_state = \<lparr>TOKEN_DECIMALS = TOKEN_DECIMALS_init, calls = []\<rparr>"

definition log_call :: "call \<Rightarrow> state \<Rightarrow> state" where
  "log_call c st = st\<lparr>calls := calls st @ [c]\<rparr>"

text \<open>
  \<^verbatim>\<open>TOKEN_DECIMALS[tokenSymbol]\<close> read for its truth value: an absent property and
  the number 0 are falsy, an inherited member is truthy.
\<close>

definition cached_decimals :: "state \<Rightarrow> string \<Rightarrow> nat slot option" where
  "cached_decimals st tokenSymbol =
     (case obj_get (TOKEN_DECIMALS st) tokenSymbol of
        None \<Rightarrow> None
      | Some (Own d) \<Rightarrow> if d = 0 then None else Some (Own d)
      | Some (Inherited k) \<Rightarrow> Some (Inherited k))"

text \<open>\<^verbatim>\<open>TOKEN_ADDRESSES[tokenSymbol] || null\<close>: the empty string is falsy too.\<close>

definition getTokenAddress :: "env \<Rightarrow> string \<Rightarrow> string slot option" where
  "getTokenAddress e tokenSymbol =
     (case obj_get (token_addresses e) tokenSymbol of
        None \<Rightarrow> None
      | Some (Own a) \<Rightarrow> if a = [] then None else Some (Own a)
      | Some (Inherited k) \<Rightarrow> Some (Inherited k))"

definition getTokenDecimals :: "env \<Rightarrow> state \<Rightarrow> string \<Rightarrow> (js_error + nat slot) \<times> state" where
  "getTokenDecimals e st tokenSymbol =
     (case cached_decimals st tokenSymbol of
        Some d \<Rightarrow> (Inr d, st)
      | None \<Rightarrow>
          if tokenSymbol = ''ETH'' then (Inr (Own 18), st)
          else
            (case getTokenAddress e tokenSymbol of
               None \<Rightarrow> (Inl (Error (''Unsupported token: '' @ tokenSymbol)), st)
             | Some tokenAddress \<Rightarrow>
                 let st1 = log_call (CallDecimals tokenAddress) st in
                 (case erc20_decimals e tokenAddress of
                    Inr decimals \<Rightarrow>
                      (Inr (Own decimals),
                       st1\<lparr>TOKEN_DECIMALS := obj_set (TOKEN_DECIMALS st1) tokenSymbol decimals\<rparr>)
                  | Inl err \<Rightarrow>
                      (Inr (case cached_decimals st1 tokenSymbol of
                              Some d \<Rightarrow> d
                            | None \<Rightarrow> Own 18),
                       st1))))"

record transfer_result =
  transactionHash :: string
  tx_from :: string
  tx_to :: string
  tx_amount :: string
  tx_token :: string
  blockNumber :: nat
  tx_network :: string

text \<open>The handler of lines 146 to 149 and 193 to 196: any failure of the block is rethrown wrapped.\<close>

definition failed_to_send :: "string \<Rightarrow> js_error \<Rightarrow> js_error" where
  "failed_to_send tokenSymbol err =
     Error (''Failed to send '' @ tokenSymbol @ '': '' @
            (if message err = [] then ''Transaction error'' else message err))"

definition catch_send ::
    "string \<Rightarrow> (js_error + transfer_result) \<times> state \<Rightarrow> (js_error + transfer_result) \<times> state" where
  "catch_send tokenSymbol r =
     (case fst r of
        Inl err \<Rightarrow> (Inl (failed_to_send tokenSymbol err), snd r)
      | Inr v \<Rightarrow> r)"

text \<open>The \<^verbatim>\<open>try\<close> block of \<^verbatim>\<open>sendEth\<close>, lines 165 to 192.\<close>

definition sendEth_try :: "env \<Rightarrow> state \<Rightarrow> string \<Rightarrow> string \<Rightarrow> (js_error + transfer_result) \<times> state" where
  "sendEth_try e st toAddress amount =
     (case parseUnits e amount (Own 18) of
        Inl err \<Rightarrow> (Inl err, st)
      | Inr amountInWei \<Rightarrow>
          let st1 = log_call (CallGetBalance (wallet_address e)) st in
          (case getBalance e (wallet_address e) of
             Inl err \<Rightarrow> (Inl err, st1)
           | Inr balance \<Rightarrow>
               if balance < amountInWei then (Inl (Error ''Insufficient ETH balance''), st1)
               else
                 let st2 = log_call (CallSendTransaction toAddress amountInWei) st1 in
                 (case sendTransaction e toAddress amountInWei of
                    Inl err \<Rightarrow> (Inl err, st2)
                  | Inr tx \<Rightarrow>
                      let st3 = log_call (CallWait tx) st2 in
                      (case tx_wait e tx of
                         Inl err \<Rightarrow> (Inl err, st3)
                       | Inr rc \<Rightarrow>
                           (Inr \<lparr>transactionHash = r_transactionHash rc,
                                 tx_from = wallet_address e, tx_to = toAddress,
                                 tx_amount = amount, tx_token = ''ETH'',
                                 blockNumber = r_blockNumber rc,
                                 tx_network = ''testnet''\<rparr>, st3)))))"

definition sendEth :: "env \<Rightarrow> state \<Rightarrow> string \<Rightarrow> string \<Rightarrow> (js_error + transfer_result) \<times> state" where
  "sendEth e st toAddress amount =
     (if \<not> isAddress e toAddress then (Inl (Error ''Invalid Ethereum address''), st)
      else catch_send ''ETH'' (sendEth_try e st toAddress amount))"

text \<open>The \<^verbatim>\<open>try\<close> block of \<^verbatim>\<open>sendTokens\<close>, lines 123 to 145.\<close>

definition sendTokens_try ::
    "env \<Rightarrow> state \<Rightarrow> string \<Rightarrow> string slot \<Rightarrow> string \<Rightarrow> string \<Rightarrow> int
       \<Rightarrow> (js_error + transfer_result) \<times> state" where
  "sendTokens_try e st tokenSymbol tokenAddress toAddress amount amountInTokenUnits =
     (let st1 = log_call (CallBalanceOf tokenAddress (wallet_address e)) st in
      (case erc20_balanceOf e tokenAddress (wallet_address e) of
         Inl err \<Rightarrow> (Inl err, st1)
       | Inr balance \<Rightarrow>
           if balance < amountInTokenUnits
           then (Inl (Error (''Insufficient '' @ tokenSymbol @ '' balance'')), st1)
           else
             let st2 = log_call (CallTransfer tokenAddress toAddress amountInTokenUnits) st1 in
             (case erc20_transfer e tokenAddress toAddress amountInTokenUnits of
                Inl err \<Rightarrow> (Inl err, st2)
              | Inr tx \<Rightarrow>
                  let st3 = log_call (CallWait tx) st2 in
                  (case tx_wait e tx of
                     Inl err \<Rightarrow> (Inl err, st3)
                   | Inr rc \<Rightarrow>
                       (Inr \<lparr>transactionHash = r_transactionHash rc,
                             tx_from = wallet_address e, tx_to = toAddress,
                             tx_amount = amount, tx_token = tokenSymbol,
                             blockNumber = r_blockNumber rc,
                             tx_network = ''testnet''\<rparr>, st3)))))"

definition sendTokens ::
    "env \<Rightarrow> state \<Rightarrow> string \<Rightarrow> string \<Rightarrow> string \<Rightarrow> (js_error + transfer_result) \<times> state" where
  "sendTokens e st tokenSymbol toAddress amount =
     (if \<not> isAddress e toAddress then (Inl (Error ''Invalid Ethereum address''), st)
      else if tokenSymbol = ''ETH'' then sendEth e st toAddress amount
      else
        (case getTokenAddress e tokenSymbol of
           None \<Rightarrow> (Inl (Error (''Unsupported token: '' @ tokenSymbol)), st)
         | Some tokenAddress \<Rightarrow>
             (case getTokenDecimals e st tokenSymbol of
                (Inl err, st1) \<Rightarrow> (Inl err, st1)
              | (Inr decimals, st1) \<Rightarrow>
                  (case parseUnits e amount decimals of
                     Inl err \<Rightarrow> (Inl err, st1)
                   | Inr amountInTokenUnits \<Rightarrow>
                       catch_send tokenSymbol
                         (sendTokens_try e st1 tokenSymbol tokenAddress toAddress amount
                            amountInTokenUnits)))))"

text \<open>\<open>bi_balanceRaw\<close> is the integer that the source prints with \<^verbatim>\<open>toString()\<close>.\<close>

record balance_info =
  bi_token :: string
  bi_balance :: string
  bi_balanceRaw :: "int option"
  bi_decimals :: "nat slot option"
  bi_error :: "string option"
  bi_network :: string

text \<open>The object of lines 214 to 220 and 244 to 250.\<close>

definition balance_entry :: "string \<Rightarrow> string \<Rightarrow> int \<Rightarrow> nat slot \<Rightarrow> balance_info" where
  "balance_entry tokenSymbol balance balanceRaw decimals =
     \<lparr>bi_token = tokenSymbol, bi_balance = balance, bi_balanceRaw = Some balanceRaw,
      bi_decimals = Some decimals, bi_error = None, bi_network = ''testnet''\<rparr>"

text \<open>The object of lines 253 to 258 and 272 to 276.\<close>

definition zero_balance :: "string \<Rightarrow> js_error \<Rightarrow> balance_info" where
  "zero_balance tokenSymbol err =
     \<lparr>bi_token = tokenSymbol, bi_balance = ''0'', bi_balanceRaw = None, bi_decimals = None,
      bi_error = Some (message err), bi_network = ''testnet''\<rparr>"

text \<open>
  The \<^verbatim>\<open>try\<close> block of \<^verbatim>\<open>getTokenBalance\<close>, lines 209 to 250. A failure of
  \<^verbatim>\<open>formatEther\<close> or \<^verbatim>\<open>formatUnits\<close> is thrown inside the block.
\<close>

definition getTokenBalance_try ::
    "env \<Rightarrow> state \<Rightarrow> string \<Rightarrow> string \<Rightarrow> (js_error + balance_info) \<times> state" where
  "getTokenBalance_try e st tokenSymbol targetAddress =
     (if tokenSymbol = ''ETH'' then
        let st1 = log_call (CallGetBalance targetAddress) st in
        (case getBalance e targetAddress of
           Inl err \<Rightarrow> (Inl err, st1)
         | Inr balanceWei \<Rightarrow>
             (case formatUnits e balanceWei (Own 18) of
                Inl err \<Rightarrow> (Inl err, st1)
              | Inr balanceEth \<Rightarrow> (Inr (balance_entry ''ETH'' balanceEth balanceWei (Own 18)), st1)))
      else
        (case getTokenAddress e tokenSymbol of
           None \<Rightarrow> (Inl (Error (''Unsupported token: '' @ tokenSymbol)), st)
         | Some tokenAddress \<Rightarrow>
             let st1 = log_call (CallBalanceOf tokenAddress targetAddress) st;
                 balanceRaw = (case erc20_balanceOf e tokenAddress targetAddress of
                                 Inl err \<Rightarrow> 0
                               | Inr b \<Rightarrow> b)
             in
             (case getTokenDecimals e st1 tokenSymbol of
                (Inl err, st2) \<Rightarrow> (Inl err, st2)
              | (Inr decimals, st2) \<Rightarrow>
                  (case formatUnits e balanceRaw decimals of
                     Inl err \<Rightarrow> (Inl err, st2)
                   | Inr balance \<Rightarrow>
                       (Inr (balance_entry tokenSymbol balance balanceRaw decimals), st2)))))"

text \<open>\<^verbatim>\<open>address || this.wallet.address\<close>, for the optional argument \<open>address\<close>.\<close>

definition target_address :: "env \<Rightarrow> string option \<Rightarrow> string" where
  "target_address e address =
     (case address of
        None \<Rightarrow> wallet_address e
      | Some a \<Rightarrow> if a = [] then wallet_address e else a)"

definition getTokenBalance ::
    "env \<Rightarrow> state \<Rightarrow> string \<Rightarrow> string option \<Rightarrow> (js_error + balance_info) \<times> state" where
  "getTokenBalance e st tokenSymbol address =
     (let targetAddress = target_address e address
      in
      (case getTokenBalance_try e st tokenSymbol targetAddress of
         (Inl err, st1) \<Rightarrow> (Inr (zero_balance tokenSymbol err), st1)
       | (Inr info, st1) \<Rightarrow> (Inr info, st1)))"

text \<open>The \<^verbatim>\<open>map\<close> of lines 269 to 277 followed by \<^verbatim>\<open>Promise.all\<close>.\<close>

fun getBalances_list ::
    "env \<Rightarrow> state \<Rightarrow> string list \<Rightarrow> string option \<Rightarrow> (js_error + balance_info list) \<times> state" where
  "getBalances_list e st [] address = (Inr [], st)"
| "getBalances_list e st (symbol # symbols) address =
     (let (r, st1) = getTokenBalance e st symbol address;
          entry = (case r of Inl err \<Rightarrow> zero_balance symbol err | Inr info \<Rightarrow> info)
      in
      (case getBalances_list e st1 symbols address of
         (Inl err, st2) \<Rightarrow> (Inl err, st2)
       | (Inr entries, st2) \<Rightarrow> (Inr (entry # entries), st2)))"

definition getBalances ::
    "env \<Rightarrow> state \<Rightarrow> string list option \<Rightarrow> string option
       \<Rightarrow> (js_error + balance_info list) \<times> state" where
  "getBalances e st tokenSymbols address =
     getBalances_list e st
       (case tokenSymbols of
          None \<Rightarrow> [''ETH'', ''MTK'', ''USDC'', ''DAI'', ''USDT'']
        | Some l \<Rightarrow> l)
       address"


section \<open>Contact directory (models/Contact.js)\<close>

text \<open>
  The collection is the list of its documents in insertion order; \<open>cid\<close> is \<^verbatim>\<open>_id\<close>.
  The store itself is outside the repository. What the schema of lines 5 to 22 asks of
  it is written out in \<open>save\<close>: the setters \<^verbatim>\<open>lowercase\<close> and \<^verbatim>\<open>trim\<close> on the
  name, the validators (\<^verbatim>\<open>required\<close> on both paths, the pattern on the address) run
  before the document is sent, and the unique index on the name makes the insertion
  fail with code 11000.
\<close>

record contact =
  cid :: nat
  name :: string
  address :: string

record directory =
  docs :: "contact list"
  next_id :: nat

text \<open>\<^verbatim>\<open>/^0x[a-fA-F0-9]{40}$/\<close>, without the i flag.\<close>

definition ADDRESS_PATTERN :: regex where
  "ADDRESS_PATTERN = seqs [Bol, Lit ''0x'', Rep Hex 40 (Some 40), Eol]"

definition regex_test :: "bool \<Rightarrow> regex \<Rightarrow> string \<Rightarrow> bool" where
  "regex_test icase re s = (str_match icase re s \<noteq> None)"

definition validate_contact :: "string \<Rightarrow> string \<Rightarrow> string list" where
  "validate_contact nm addr =
     (if nm = [] then [''name''] else []) @
     (if addr = [] \<or> \<not> regex_test False ADDRESS_PATTERN addr then [''address''] else [])"

definition dquote :: string where
  "dquote = [CHR 0x22]"

text \<open>\<^verbatim>\<open>contact.save()\<close>: setters, validation, insertion under the unique index.\<close>

definition save :: "directory \<Rightarrow> string \<Rightarrow> string \<Rightarrow> (js_error + contact) \<times> directory" where
  "save dir nm0 addr =
     (let nm = trim (toLowerCase nm0) in
      if validate_contact nm addr \<noteq> [] then (Inl (ValidationError (validate_contact nm addr)), dir)
      else if list_ex (\<lambda>d. name d = nm) (docs dir)
      then (Inl (DuplicateKey ''E11000 duplicate key error''), dir)
      else
        let doc = \<lparr>cid = next_id dir, name = nm, address = addr\<rparr> in
        (Inr doc, \<lparr>docs = docs dir @ [doc], next_id = Suc (next_id dir)\<rparr>))"

text \<open>\<^verbatim>\<open>ContactRepository.create\<close>; the arguments are the fields of \<^verbatim>\<open>contactData\<close>.\<close>

definition create :: "directory \<Rightarrow> string \<Rightarrow> string \<Rightarrow> (js_error + contact) \<times> directory" where
  "create dir contactName contactAddress =
     (case save dir contactName contactAddress of
        (Inl (DuplicateKey m), dir1) \<Rightarrow>
          (Inl (Error (''Contact with name '' @ dquote @ contactName @ dquote @ '' already exists'')),
           dir1)
      | r \<Rightarrow> r)"

text \<open>
  \<^verbatim>\<open>ContactRepository.findByName\<close>. \<^verbatim>\<open>replace(/[^\w\s]/g, '')\<close> keeps the word
  characters and the white space. In the first query the value is cast by the schema,
  which applies the setters of the path to it as it does on insertion; a pattern is
  passed as it is. The second query matches the stored names against
  \<^verbatim>\<open>'^' + normalizedName + '$'\<close> with the i flag; no character of \<open>normalizedName\<close>
  is special in a pattern, so the pattern is that text between the two anchors.
\<close>

definition findByName :: "directory \<Rightarrow> string \<Rightarrow> contact option" where
  "findByName dir nm =
     (let normalizedName = filter (\<lambda>c. isWordChar c \<or> isSpace c) (trim (toLowerCase nm)) in
      (case find (\<lambda>d. name d = trim (toLowerCase normalizedName)) (docs dir) of
         Some contact \<Rightarrow> Some contact
       | None \<Rightarrow>
           find (\<lambda>d. regex_test True (seqs [Bol, Lit normalizedName, Eol]) (name d)) (docs dir)))"


section \<open>Command execution (app.js)\<close>

text \<open>
  The helper \<^verbatim>\<open>parseCommand\<close> of app.js, lines 45 to 71; its pattern is the send
  pattern without the anchors: \<^verbatim>\<open>/send\s+(\d+(?:\.\d+)?)\s+([a-zA-Z]+)\s+to\s+(.+)/i\<close>,
  so that \<^verbatim>\<open>command.match(regex)\<close> finds its leftmost occurrence in the text. The
  alias test of lines 59 to 61 is written out.
\<close>

record send_request =
  sr_amount :: string
  sr_token :: string
  sr_recipient :: string

definition app_parseCommand :: "string \<Rightarrow> js_error + send_request option" where
  "app_parseCommand command =
     (case str_match True SEND_tail command of
        None \<Rightarrow> Inr None
      | Some m \<Rightarrow>
          bind_err (group_text m 2) (\<lambda>symbol.
          bind_err (group_text m 1) (\<lambda>amount.
          bind_err (group_text m 3) (\<lambda>recipient.
            let token = toUpperCase symbol in
            Inr (Some \<lparr>sr_amount = amount,
                       sr_token = (if token = ''MYTOKEN'' \<or> token = ''MY-TOKEN''
                                      \<or> token = ''MY_TOKEN''
                                   then ''MTK'' else token),
                       sr_recipient = toLowerCase (trim recipient)\<rparr>)))))"

datatype body =
    ErrorBody string "string option"
  | SuccessBody string transfer_result

record response =
  status :: nat
  json :: body

text \<open>
  The handler of \<^verbatim>\<open>POST /api/execute\<close>, lines 137 to 187, for a body whose
  \<^verbatim>\<open>command\<close> is a string. The directory is only read. Whatever is thrown inside
  the handler is answered 500 with its message.
\<close>

definition execute :: "env \<Rightarrow> state \<Rightarrow> directory \<Rightarrow> string \<Rightarrow> response \<times> state" where
  "execute e st dir command =
     (if command = [] then (\<lparr>status = 400, json = ErrorBody ''Command is required'' None\<rparr>, st)
      else
        (case app_parseCommand command of
           Inl err \<Rightarrow> (\<lparr>status = 500, json = ErrorBody (message err) None\<rparr>, st)
         | Inr None \<Rightarrow>
             (\<lparr>status = 400,
               json = ErrorBody ''Invalid command format''
                        (Some (''Try something like '' @ dquote @ ''Send 5 USDC to Alice'' @ dquote))\<rparr>,
              st)
         | Inr (Some parsedCommand) \<Rightarrow>
             (case findByName dir (sr_recipient parsedCommand) of
                None \<Rightarrow>
                  (\<lparr>status = 404,
                    json = ErrorBody
                             (''Contact '' @ dquote @ sr_recipient parsedCommand @ dquote @ '' not found'')
                             (Some (''Make sure you'' @ [CHR 0x27] @ ''ve added '' @
                                    sr_recipient parsedCommand @ '' to your contacts first''))\<rparr>,
                   st)
              | Some contact \<Rightarrow>
                  (case sendTokens e st (sr_token parsedCommand) (address contact)
                          (sr_amount parsedCommand) of
                     (Inl err, st1) \<Rightarrow>
                       (\<lparr>status = 500, json = ErrorBody (message err) None\<rparr>, st1)
                   | (Inr transaction, st1) \<Rightarrow>
                       (\<lparr>status = 200,
                         json = SuccessBody
                                  (''Successfully sent '' @ sr_amount parsedCommand @ '' '' @
                                   sr_token parsedCommand @ '' to '' @ sr_recipient parsedCommand)
                                  transaction\<rparr>,
                        st1)))))"


section \<open>Inputs named by the properties\<close>

text \<open>A decimal number: digits, or digits, a point and digits.\<close>

definition isDecimal :: "string \<Rightarrow> bool" where
  "isDecimal a =
     (let ip = takeWhile isDigit a; r = dropWhile isDigit a
      in ip \<noteq> [] \<and> (r = [] \<or> (hd r = CHR ''.'' \<and> tl r \<noteq> [] \<and> list_all isDigit (tl r))))"


text \<open>
  Three syntactic properties of an expression: group \<open>i\<close> takes part in each of its
  matches; every character it can consume is a letter or white space; each of its
  matches ends at the end of the input.
\<close>

fun captures :: "nat \<Rightarrow> regex \<Rightarrow> bool" where
  "captures i (Grp j a) = (i = j \<or> captures i a)"
| "captures i (Seq a b) = (captures i a \<or> captures i b)"
| "captures i (Alt a b) = (captures i a \<and> captures i b)"
| "captures i Bol = False"
| "captures i Eol = False"
| "captures i (Lit l) = False"
| "captures i (Rep cl lo hi) = False"
| "captures i (Opt a) = False"

fun letters_only :: "regex \<Rightarrow> bool" where
  "letters_only Bol = True"
| "letters_only Eol = True"
| "letters_only (Lit l) = list_all isAlpha l"
| "letters_only (Rep cl lo hi) = (cl = Space \<or> cl = Alpha)"
| "letters_only (Seq a b) = (letters_only a \<and> letters_only b)"
| "letters_only (Alt a b) = (letters_only a \<and> letters_only b)"
| "letters_only (Opt a) = letters_only a"
| "letters_only (Grp i a) = letters_only a"

fun to_end :: "regex \<Rightarrow> bool" where
  "to_end Eol = True"
| "to_end (Seq a b) = (to_end a \<or> to_end b)"
| "to_end (Alt a b) = (to_end a \<and> to_end b)"
| "to_end (Grp i a) = to_end a"
| "to_end Bol = False"
| "to_end (Lit l) = False"
| "to_end (Rep cl lo hi) = False"
| "to_end (Opt a) = False"

text \<open>The two answers of the handler to a text it does not execute.\<close>

definition command_required :: response where
  "command_required = \<lparr>status = 400, json = ErrorBody ''Command is required'' None\<rparr>"

definition invalid_command :: response where
  "invalid_command =
     \<lparr>status = 400,
      json = ErrorBody ''Invalid command format''
               (Some (''Try something like '' @ dquote @ ''Send 5 USDC to Alice'' @ dquote))\<rparr>"

section \<open>A chain to run the service on\<close>

text \<open>
  The helpers of ethers 5 as its documentation gives them, for use at concrete inputs.
  \<^verbatim>\<open>parseUnits(value, decimals)\<close> reads an optional sign, digits and at most one
  point, and scales by \<open>10 ^ decimals\<close>; it rejects other text and a fraction longer
  than \<open>decimals\<close> once its trailing zeros are dropped.
\<close>

definition digits_value :: "string \<Rightarrow> nat" where
  "digits_value ds = foldl (\<lambda>n c. 10 * n + (code c - 48)) 0 ds"

definition parseFixed :: "string \<Rightarrow> nat \<Rightarrow> js_error + int" where
  "parseFixed val decimals =
     (let negative = (val \<noteq> [] \<and> hd val = CHR ''-'');
          v = (if negative then tl val else val)
      in
      if v = [] \<or> \<not> list_all (\<lambda>c. isDigit c \<or> c = CHR ''.'') v
      then Inl (Error ''invalid decimal value'')
      else if v = ''.'' then Inl (Error ''missing value'')
      else
        let whole = takeWhile isDigit v; r = dropWhile isDigit v in
        if \<not> list_all isDigit (tl r) then Inl (Error ''too many decimal points'')
        else
          let fraction = rev (dropWhile (\<lambda>c. c = CHR ''0'') (rev (tl r))) in
          if decimals < length fraction
          then Inl (Error ''fractional component exceeds decimals'')
          else
            let wei = int (digits_value whole * 10 ^ decimals +
                           digits_value fraction * 10 ^ (decimals - length fraction))
            in Inr (if negative then - wei else wei))"

text \<open>The decimal digits of a number.\<close>

function show_nat :: "nat \<Rightarrow> string" where
  "show_nat n =
     (if n < 10 then [char_of (48 + n)] else show_nat (n div 10) @ [char_of (48 + n mod 10)])"
  by pat_completeness auto
termination
  by (relation "measure (\<lambda>n. n)") auto

declare show_nat.simps [simp del]

definition formatFixed :: "int \<Rightarrow> nat \<Rightarrow> string" where
  "formatFixed val decimals =
     (let n = nat \<bar>val\<bar>;
          whole = show_nat (n div 10 ^ decimals);
          digits = show_nat (n mod 10 ^ decimals);
          padded = replicate (decimals - length digits) CHR ''0'' @ digits;
          stripped = rev (dropWhile (\<lambda>c. c = CHR ''0'') (rev padded));
          fraction = (if stripped = [] then ''0'' else stripped)
      in (if val < 0 then ''-'' else []) @
         (if decimals = 0 then whole else whole @ ''.'' @ fraction))"

definition test_wallet :: string where
  "test_wallet = ''0x00000000000000000000000000000000000000aa''"

definition test_address :: string where
  "test_address = ''0x0123456789abcdef0123456789abcdef01234567''"

text \<open>
  A chain on which every read and every submission succeeds: every token has 18
  decimals, every account holds 5 units of 18 decimals of everything, a submission is
  mined in block 100. An address of 40 lower-case hex digits after \<^verbatim>\<open>0x\<close> is valid.
  The helpers reject decimals that are not a number, and a contract whose address is
  not a string fails at every call.
\<close>

definition invalid_decimals :: js_error where
  "invalid_decimals = Error ''invalid decimal size''"

definition invalid_contract :: js_error where
  "invalid_contract = Error ''invalid address or ENS name''"

definition test_env :: env where
  "test_env =
     \<lparr>isAddress = (\<lambda>a. regex_test False ADDRESS_PATTERN a \<and> toLowerCase a = a),
      parseUnits = (\<lambda>v d. case d of Own n \<Rightarrow> parseFixed v n | Inherited k \<Rightarrow> Inl invalid_decimals),
      formatUnits = (\<lambda>v d. case d of
                              Own n \<Rightarrow> Inr (formatFixed v n)
                            | Inherited k \<Rightarrow> Inl invalid_decimals),
      wallet_address = test_wallet,
      token_addresses = TOKEN_ADDRESSES,
      erc20_decimals = (\<lambda>a. case a of Own x \<Rightarrow> Inr 18 | Inherited k \<Rightarrow> Inl invalid_contract),
      erc20_balanceOf = (\<lambda>a w. case a of
                                  Own x \<Rightarrow> Inr 5000000000000000000
                                | Inherited k \<Rightarrow> Inl invalid_contract),
      erc20_transfer = (\<lambda>a t v. case a of Own x \<Rightarrow> Inr 1 | Inherited k \<Rightarrow> Inl invalid_contract),
      getBalance = (\<lambda>w. Inr 5000000000000000000),
      sendTransaction = (\<lambda>t v. Inr 1),
      tx_wait = (\<lambda>tx. Inr \<lparr>r_transactionHash = ''0xabc'', r_blockNumber = 100\<rparr>)\<rparr>"

definition network_error :: js_error where
  "network_error = Error ''could not detect network''"

text \<open>The same chain when the read of the native balance fails.\<close>

definition failing_native_env :: env where
  "failing_native_env = test_env\<lparr>getBalance := (\<lambda>w. Inl network_error)\<rparr>"

text \<open>The same chain when the balance read of every token contract fails.\<close>

definition failing_reads_env :: env where
  "failing_reads_env = test_env\<lparr>erc20_balanceOf := (\<lambda>a w. Inl network_error)\<rparr>"

definition empty_directory :: directory where
  "empty_directory = \<lparr>docs = [], next_id = 0\<rparr>"




text \<open>Two stored contacts.\<close>

definition alice_doc :: contact where
  "alice_doc = \<lparr>cid = 0, name = ''alice'', address = test_address\<rparr>"

definition bob_doc :: contact where
  "bob_doc = \<lparr>cid = 0, name = ''bob-smith'', address = test_address\<rparr>"


text \<open>What a transfer of 5 USDC to the test address returns and requests on the test chain.\<close>

definition usdc_transfer :: transfer_result where
  "usdc_transfer =
     \<lparr>transactionHash = ''0xabc'', tx_from = test_wallet, tx_to = test_address,
      tx_amount = ''5'', tx_token = ''USDC'', blockNumber = 100, tx_network = ''testnet''\<rparr>"

definition usdc_calls :: "call list" where
  "usdc_calls =
     [CallBalanceOf (Own ''0x1c7D4B196Cb0C7B01d743Fbc6116a902379C7238'') test_wallet,
      CallTransfer (Own ''0x1c7D4B196Cb0C7B01d743Fbc6116a902379C7238'') test_address 5000000,
      CallWait 1]"


section \<open>Strings: trimming and classes\<close>


lemma dropWhile_all_append:
  "list_all P ws \<Longrightarrow> dropWhile P (ws @ xs) = dropWhile P xs"
  by (induction ws) auto

lemma dropWhile_hd_stop: "xs \<noteq> [] \<Longrightarrow> \<not> P (hd xs) \<Longrightarrow> dropWhile P xs = xs"
  by (cases xs) auto

lemma takeWhile_all_stop:
  "list_all P xs \<Longrightarrow> rest = [] \<or> \<not> P (hd rest) \<Longrightarrow> takeWhile P (xs @ rest) = xs"
  by (induction xs) (cases rest; auto)+

lemma trim_wrap:
  assumes "list_all isSpace w0" "list_all isSpace w5" "body \<noteq> []"
    "\<not> isSpace (hd body)" "\<not> isSpace (last body)"
  shows "trim (w0 @ body @ w5) = body"
proof -
  have a: "dropWhile isSpace (w0 @ body @ w5) = body @ w5"
    using assms by (simp add: dropWhile_all_append dropWhile_hd_stop)
  have b: "dropWhile isSpace (rev w5 @ rev body) = rev body"
    using assms by (simp add: dropWhile_all_append dropWhile_hd_stop hd_rev list_all_iff)
  show ?thesis by (simp add: trim_def a b)
qed

lemma try_down_top:
  "lo \<le> m \<Longrightarrow> k (p + m, drop m s, c) = Some r \<Longrightarrow> try_down k (p, s, c) lo m = Some r"
  by (cases m) auto

lemma rmatch_Rep_greedy:
  assumes "list_all (in_class cl) xs" "lo \<le> length xs"
    "rest = [] \<or> \<not> in_class cl (hd rest)"
    "k (p + length xs, rest, c) = Some r"
  shows "rmatch icase (Rep cl lo None) k (p, xs @ rest, c) = Some r"
  using assms by (simp add: takeWhile_all_stop try_down_top)

lemma lit_prefix_append:
  "list_all2 (lit_eq icase) l l' \<Longrightarrow> lit_prefix icase l (l' @ rest)"
  by (induction l l' rule: list_all2_induct) auto

lemma rmatch_Lit:
  assumes "list_all2 (lit_eq icase) l l'"
  shows "rmatch icase (Lit l) k (p, l' @ rest, c) = k (p + length l, rest, c)"
  using assms lit_prefix_append[OF assms] by (simp add: list_all2_lengthD)

lemma space_not_digit: "isSpace c \<Longrightarrow> \<not> isDigit c"
  by (auto simp: isSpace_def isDigit_def)

lemma space_not_alpha: "isSpace c \<Longrightarrow> \<not> isAlpha c"
  by (auto simp: isSpace_def isAlpha_def isUpper_def isLower_def)

lemma dot_not_digit: "\<not> isDigit CHR ''.''"
  by (simp add: isDigit_def code_def)

lemma upper_send: "map upperChar ''send'' = ''SEND''"
  by code_simp

lemma upper_to: "map upperChar ''to'' = ''TO''"
  by code_simp

lemma lit_eq_upper:
  "map upperChar kw = map upperChar l \<Longrightarrow> list_all2 (lit_eq True) l kw"
  by (induction l arbitrary: kw) (auto simp: lit_eq_def)

lemma dot_lit_space: "isSpace c \<Longrightarrow> \<not> lit_eq True CHR ''.'' c"
  by (auto simp: lit_eq_def upperChar_def isSpace_def isLower_def code_def split: if_splits)

lemma in_class_eqs [simp]:
  "in_class Space = isSpace" "in_class Digit = isDigit" "in_class Alpha = isAlpha"
  "in_class AnyChar = (\<lambda>c. \<not> isLineTerminator c)"
  by (rule ext, simp)+

lemma rmatch_plus:
  assumes "xs \<noteq> []" "list_all (in_class cl) xs" "rest = [] \<or> \<not> in_class cl (hd rest)"
    "k (p + length xs, rest, c) = Some r"
  shows "rmatch icase (plus cl) k (p, xs @ rest, c) = Some r"
  unfolding plus_def using assms by (intro rmatch_Rep_greedy) (auto simp: Suc_le_eq)

lemma rmatch_plus_end:
  assumes "xs \<noteq> []" "list_all (in_class cl) xs" "k (p + length xs, [], c) = Some r"
  shows "rmatch icase (plus cl) k (p, xs, c) = Some r"
  using rmatch_plus[of xs cl "[]" k p c r icase] assms by simp

lemma rmatch_GrpI:
  "rmatch icase a (\<lambda>(p', s', c'). k (p', s', (i, take (p' - p) s) # c')) (p, s, c) = Some r
   \<Longrightarrow> rmatch icase (Grp i a) k (p, s, c) = Some r"
  by simp

lemma rmatch_OptI:
  "rmatch icase a k st = Some r \<Longrightarrow> rmatch icase (Opt a) k st = Some r"
  by simp

lemma rmatch_Opt_skip:
  "rmatch icase a k st = None \<Longrightarrow> rmatch icase (Opt a) k st = k st"
  by simp

lemmas rmatch_Seq = rmatch.simps(5)

lemma exec_from_hit:
  "rmatch icase re (\<lambda>(p', s', c'). Some c') (p, s, []) = Some r \<Longrightarrow> exec_from icase re p s = Some r"
  by (cases s) auto

lemma amount_group:
  assumes "isDecimal amount" "rest \<noteq> []" "isSpace (hd rest)"
    "k (p + length amount, rest, (1, amount) # c) = Some r"
  shows "rmatch True (Grp 1 (Seq (plus Digit) (Opt (Seq (Lit ''.'') (plus Digit))))) k
           (p, amount @ rest, c) = Some r"
proof -
  define ip where "ip = takeWhile isDigit amount"
  define fr where "fr = dropWhile isDigit amount"
  have am: "amount = ip @ fr" by (simp add: ip_def fr_def)
  have ipd: "list_all (in_class Digit) ip" and ipn: "ip \<noteq> []"
    using assms(1) by (auto simp: ip_def isDecimal_def Let_def list_all_iff dest: set_takeWhileD)
  let ?k' = "\<lambda>(p', s', c'). k (p', s', (1, take (p' - p) (amount @ rest)) # c')"
  let ?F = "Seq (Lit ''.'') (plus Digit)"
  have nd: "\<not> in_class Digit (hd rest)" using assms(3) by (simp add: space_not_digit)
  have "rmatch True (Seq (plus Digit) (Opt ?F)) ?k' (p, amount @ rest, c) = Some r"
  proof (cases "fr = []")
    case True
    have "\<not> lit_prefix True ''.'' rest"
      using assms(2,3) by (cases rest) (auto simp: dot_lit_space)
    then have "rmatch True ?F ?k' (p + length ip, rest, c) = None"
      by simp
    then have "rmatch True (Opt ?F) ?k' (p + length ip, rest, c) = ?k' (p + length ip, rest, c)"
      by (rule rmatch_Opt_skip)
    also have "\<dots> = Some r" using assms(4) True am by simp
    finally have "rmatch True (plus Digit) (rmatch True (Opt ?F) ?k') (p, ip @ rest, c) = Some r"
      using ipd ipn nd by (intro rmatch_plus) simp_all
    then show ?thesis using True am by (simp only: rmatch_Seq append_Nil2)
  next
    case False
    then obtain fp where fr: "fr = CHR ''.'' # fp" and fpn: "fp \<noteq> []" and fpd: "list_all isDigit fp"
      using assms(1) by (cases fr) (auto simp: isDecimal_def Let_def fr_def[symmetric])
    have kk: "?k' (p + length ip + 1 + length fp, rest, c) = Some r"
      using assms(4) am fr by (simp add: ac_simps)
    have l1: "rmatch True (plus Digit) ?k' (p + length ip + 1, fp @ rest, c) = Some r"
      using fpd fpn nd kk by (intro rmatch_plus) (simp_all add: list_all_iff)
    have "rmatch True (Lit ''.'') (rmatch True (plus Digit) ?k') (p + length ip, ''.'' @ fp @ rest, c)
            = rmatch True (plus Digit) ?k' (p + length ip + length ''.'', fp @ rest, c)"
      by (rule rmatch_Lit) (simp add: lit_eq_def)
    then have "rmatch True ?F ?k' (p + length ip, CHR ''.'' # fp @ rest, c) = Some r"
      using l1 by (simp only: rmatch_Seq) simp
    then have "rmatch True (Opt ?F) ?k' (p + length ip, CHR ''.'' # fp @ rest, c) = Some r"
      by (rule rmatch_OptI)
    then have "rmatch True (plus Digit) (rmatch True (Opt ?F) ?k')
                 (p, ip @ (CHR ''.'' # fp @ rest), c) = Some r"
      using ipd ipn by (intro rmatch_plus) (simp_all add: dot_not_digit)
    then show ?thesis using am fr by (simp only: rmatch_Seq append_assoc append_Cons)
  qed
  then show ?thesis by (rule rmatch_GrpI)
qed

lemma send_match:
  assumes kw: "toUpperCase kw = ''SEND''" and kt: "toUpperCase kt = ''TO''"
    and w1: "w1 \<noteq> []" "list_all isSpace w1" and w2: "w2 \<noteq> []" "list_all isSpace w2"
    and w3: "w3 \<noteq> []" "list_all isSpace w3" and w4: "w4 \<noteq> []" "list_all isSpace w4"
    and am: "isDecimal amount"
    and tk: "token \<noteq> []" "list_all isAlpha token"
    and rc: "rcp \<noteq> []" "\<not> isSpace (hd rcp)" "list_all (\<lambda>c. \<not> isLineTerminator c) rcp"
  shows "str_match True PATTERN_SEND (kw @ w1 @ amount @ w2 @ token @ w3 @ kt @ w4 @ rcp)
           = Some [(3, rcp), (2, token), (1, amount)]"
proof -
  let ?K10 = "rmatch True Eol (\<lambda>(p', s', c'). Some c') :: mstate \<Rightarrow> (nat \<times> string) list option"
  let ?K9 = "rmatch True (Grp 3 (plus AnyChar)) ?K10"
  let ?K8 = "rmatch True (plus Space) ?K9"
  let ?K7 = "rmatch True (Lit ''to'') ?K8"
  let ?K6 = "rmatch True (plus Space) ?K7"
  let ?K5 = "rmatch True (Grp 2 (plus Alpha)) ?K6"
  let ?K4 = "rmatch True (plus Space) ?K5"
  let ?K3 = "rmatch True (Grp 1 (Seq (plus Digit) (Opt (Seq (Lit ''.'') (plus Digit))))) ?K4"
  let ?K2 = "rmatch True (plus Space) ?K3"
  let ?K1 = "rmatch True (Lit ''send'') ?K2"
  have h4: "hd (w4 @ rcp) = hd w4" "isSpace (hd w4)" using w4 by (auto simp: list_all_iff)
  have h3: "isSpace (hd w3)" using w3 by (auto simp: list_all_iff)
  have h2: "isSpace (hd w2)" using w2 by (auto simp: list_all_iff)
  have e9: "?K9 (p, rcp, c) = Some ((3, rcp) # c)" for p c
    by (rule rmatch_GrpI, rule rmatch_plus_end) (use rc in \<open>simp_all add: list_all_iff\<close>)
  have e8: "?K8 (p, w4 @ rcp, c) = Some ((3, rcp) # c)" for p c
    by (rule rmatch_plus) (use w4 rc e9 in \<open>simp_all del: rmatch.simps\<close>)
  have "?K7 (p, kt @ w4 @ rcp, c) = ?K8 (p + length ''to'', w4 @ rcp, c)" for p c
    by (rule rmatch_Lit, rule lit_eq_upper) (use kt in \<open>simp only: toUpperCase_def upper_to\<close>)
  then have e7: "?K7 (p, kt @ w4 @ rcp, c) = Some ((3, rcp) # c)" for p c
    using e8 by simp
  have hk: "kt \<noteq> []" "\<not> isSpace (hd kt)" "kw \<noteq> []"
    using kt kw by (auto simp: toUpperCase_def upperChar_def isSpace_def isLower_def code_def
        split: if_splits)
  have e6: "?K6 (p, w3 @ kt @ w4 @ rcp, c) = Some ((3, rcp) # c)" for p c
    by (rule rmatch_plus) (use w3 hk e7 in \<open>simp_all del: rmatch.simps\<close>)
  have e5: "?K5 (p, token @ w3 @ kt @ w4 @ rcp, c) = Some ((3, rcp) # (2, token) # c)" for p c
    by (rule rmatch_GrpI, rule rmatch_plus)
      (use tk w3 h3 e6 in \<open>simp_all del: rmatch.simps add: space_not_alpha\<close>)
  have e4: "?K4 (p, w2 @ token @ w3 @ kt @ w4 @ rcp, c) = Some ((3, rcp) # (2, token) # c)" for p c
    by (rule rmatch_plus)
      (use w2 tk e5 in \<open>auto simp del: rmatch.simps simp add: list_all_iff dest: space_not_alpha\<close>)
  have e3: "?K3 (p, amount @ w2 @ token @ w3 @ kt @ w4 @ rcp, c)
              = Some ((3, rcp) # (2, token) # (1, amount) # c)" for p c
    by (rule amount_group) (use am w2 h2 e4 in \<open>simp_all del: rmatch.simps\<close>)
  have ha: "amount \<noteq> []" "\<not> isSpace (hd amount)"
    using am by (auto simp: isDecimal_def Let_def takeWhile_eq_Nil_iff dest: space_not_digit)
  have e2: "?K2 (p, w1 @ amount @ w2 @ token @ w3 @ kt @ w4 @ rcp, c)
              = Some ((3, rcp) # (2, token) # (1, amount) # c)" for p c
    by (rule rmatch_plus) (use w1 ha e3 in \<open>simp_all del: rmatch.simps\<close>)
  have "?K1 (p, kw @ w1 @ amount @ w2 @ token @ w3 @ kt @ w4 @ rcp, c)
          = ?K2 (p + length ''send'', w1 @ amount @ w2 @ token @ w3 @ kt @ w4 @ rcp, c)" for p c
    by (rule rmatch_Lit, rule lit_eq_upper) (use kw in \<open>simp only: toUpperCase_def upper_send\<close>)
  then have e1: "?K1 (p, kw @ w1 @ amount @ w2 @ token @ w3 @ kt @ w4 @ rcp, c)
          = Some ((3, rcp) # (2, token) # (1, amount) # c)" for p c
    using e2 by simp
  have "rmatch True PATTERN_SEND (\<lambda>(p', s', c'). Some c')
          (0, kw @ w1 @ amount @ w2 @ token @ w3 @ kt @ w4 @ rcp, [])
        = Some [(3, rcp), (2, token), (1, amount)]"
    unfolding PATTERN_SEND_def SEND_tail_def seqs.simps rmatch_Seq
    by (simp only: rmatch.simps(1) e1) simp
  then show ?thesis unfolding str_match_def by (rule exec_from_hit)
qed


lemma rev_split_dropWhile:
  "rev (dropWhile P (rev d)) @ rev (takeWhile P (rev d)) = d"
proof -
  have "rev (takeWhile P (rev d) @ dropWhile P (rev d)) = d"
    by (simp only: takeWhile_dropWhile_id rev_rev_ident)
  then show ?thesis by (simp only: rev_append)
qed

lemma trim_decomp:
  "\<exists>a b. s = a @ trim s @ b \<and> list_all isSpace a \<and> list_all isSpace b"
proof -
  define d where "d = dropWhile isSpace s"
  have 1: "s = takeWhile isSpace s @ d" by (simp add: d_def)
  have 2: "d = trim s @ rev (takeWhile isSpace (rev d))"
    using rev_split_dropWhile[of isSpace d] by (simp add: trim_def d_def)
  have 3: "list_all isSpace (takeWhile isSpace s)"
    by (auto simp: list_all_iff dest: set_takeWhileD)
  have 4: "list_all isSpace (rev (takeWhile isSpace (rev d)))"
    by (auto simp: list_all_iff dest: set_takeWhileD)
  from 1 2 have "s = takeWhile isSpace s @ trim s @ rev (takeWhile isSpace (rev d))" by simp
  with 3 4 show ?thesis by blast
qed

lemma trim_ends:
  assumes "trim s \<noteq> []"
  shows "\<not> isSpace (hd (trim s))" and "\<not> isSpace (last (trim s))"
proof -
  define d where "d = dropWhile isSpace s"
  define e where "e = dropWhile isSpace (rev d)"
  have t: "trim s = rev e" by (simp add: trim_def d_def e_def)
  have e: "e \<noteq> []" using assms t by simp
  then have "\<not> isSpace (hd e)" unfolding e_def by (rule hd_dropWhile)
  then show "\<not> isSpace (last (trim s))" using e t by (simp add: last_rev)
  have d: "d \<noteq> []"
  proof
    assume "d = []"
    then have "e = []" by (simp add: e_def)
    with e show False by simp
  qed
  then have nd: "\<not> isSpace (hd d)" unfolding d_def by (rule hd_dropWhile)
  have "d = trim s @ rev (takeWhile isSpace (rev d))"
    using rev_split_dropWhile[of isSpace d] by (simp add: t e_def)
  then have "hd d = hd (trim s)" using assms by (metis hd_append2)
  with nd show "\<not> isSpace (hd (trim s))" by simp
qed


lemma try_down_cases:
  "try_down k (p, s, c) lo m = Some r \<Longrightarrow>
     \<exists>i. lo \<le> i \<and> i \<le> m \<and> k (p + i, drop i s, c) = Some r"
proof (induction m)
  case 0
  then show ?case by (auto split: if_splits)
next
  case (Suc m)
  show ?case
  proof (cases "k (p + Suc m, drop (Suc m) s, c)")
    case None
    with Suc.prems have "try_down k (p, s, c) lo m = Some r" "\<not> Suc m < lo"
      by (auto split: if_splits)
    with Suc.IH obtain i where "lo \<le> i" "i \<le> m" "k (p + i, drop i s, c) = Some r" by blast
    then show ?thesis by (intro exI[of _ i]) simp
  next
    case (Some a)
    with Suc.prems have "a = r" "\<not> Suc m < lo" by (auto split: if_splits)
    with Some show ?thesis by (intro exI[of _ "Suc m"]) simp
  qed
qed

text \<open>A match reaches its continuation with every group of \<open>captures\<close> set.\<close>

lemma rmatch_captures:
  "rmatch icase re k (p, s, c) = Some r \<Longrightarrow>
     \<exists>p' s' c'. k (p', s', c') = Some r \<and> fst ` set c \<subseteq> fst ` set c'
              \<and> (\<forall>i. captures i re \<longrightarrow> i \<in> fst ` set c')"
proof (induction re arbitrary: k p s c)
  case Bol
  then have "k (p, s, c) = Some r" by (auto split: if_splits)
  then show ?case by (intro exI[of _ p] exI[of _ s] exI[of _ c]) simp
next
  case Eol
  then have "k (p, s, c) = Some r" by (auto split: if_splits)
  then show ?case by (intro exI[of _ p] exI[of _ s] exI[of _ c]) simp
next
  case (Lit l)
  then have "k (p + length l, drop (length l) s, c) = Some r" by (auto split: if_splits)
  then show ?case by (intro exI[of _ "p + length l"] exI[of _ "drop (length l) s"] exI[of _ c]) simp
next
  case (Rep cl lo hi)
  let ?n = "length (takeWhile (in_class cl) s)"
  let ?m = "case hi of None \<Rightarrow> ?n | Some h \<Rightarrow> min h ?n"
  from Rep.prems have "try_down k (p, s, c) lo ?m = Some r" by (simp add: Let_def)
  from try_down_cases[OF this] obtain i where "k (p + i, drop i s, c) = Some r" by blast
  then show ?case by (intro exI[of _ "p + i"] exI[of _ "drop i s"] exI[of _ c]) simp
next
  case (Seq a b)
  from Seq.prems have "rmatch icase a (rmatch icase b k) (p, s, c) = Some r" by simp
  from Seq.IH(1)[OF this] obtain p1 s1 c1 where 1: "rmatch icase b k (p1, s1, c1) = Some r"
    "fst ` set c \<subseteq> fst ` set c1" "\<forall>i. captures i a \<longrightarrow> i \<in> fst ` set c1" by blast
  from Seq.IH(2)[OF 1(1)] obtain p2 s2 c2 where 2: "k (p2, s2, c2) = Some r"
    "fst ` set c1 \<subseteq> fst ` set c2" "\<forall>i. captures i b \<longrightarrow> i \<in> fst ` set c2" by blast
  have "fst ` set c \<subseteq> fst ` set c2" using 1(2) 2(2) by blast
  moreover have "\<forall>i. captures i (Seq a b) \<longrightarrow> i \<in> fst ` set c2" using 1(3) 2(2,3) by auto
  ultimately show ?case using 2(1) by blast
next
  case (Alt a b)
  show ?case
  proof (cases "rmatch icase a k (p, s, c)")
    case None
    with Alt.prems have "rmatch icase b k (p, s, c) = Some r" by simp
    from Alt.IH(2)[OF this] obtain p' s' c' where "k (p', s', c') = Some r"
      "fst ` set c \<subseteq> fst ` set c'" "\<forall>i. captures i b \<longrightarrow> i \<in> fst ` set c'" by blast
    then show ?thesis by (intro exI[of _ p'] exI[of _ s'] exI[of _ c']) simp
  next
    case (Some x)
    with Alt.prems have "rmatch icase a k (p, s, c) = Some r" by simp
    from Alt.IH(1)[OF this] obtain p' s' c' where "k (p', s', c') = Some r"
      "fst ` set c \<subseteq> fst ` set c'" "\<forall>i. captures i a \<longrightarrow> i \<in> fst ` set c'" by blast
    then show ?thesis by (intro exI[of _ p'] exI[of _ s'] exI[of _ c']) simp
  qed
next
  case (Opt a)
  show ?case
  proof (cases "rmatch icase a k (p, s, c)")
    case None
    with Opt.prems have "k (p, s, c) = Some r" by simp
    then show ?thesis by (intro exI[of _ p] exI[of _ s] exI[of _ c]) simp
  next
    case (Some x)
    with Opt.prems have "rmatch icase a k (p, s, c) = Some r" by simp
    from Opt.IH[OF this] obtain p' s' c' where "k (p', s', c') = Some r"
      "fst ` set c \<subseteq> fst ` set c'" by blast
    then show ?thesis by (intro exI[of _ p'] exI[of _ s'] exI[of _ c']) simp
  qed
next
  case (Grp j a)
  let ?k = "\<lambda>(p', s', c'). k (p', s', (j, take (p' - p) s) # c')"
  from Grp.prems have "rmatch icase a ?k (p, s, c) = Some r" by simp
  from Grp.IH[OF this] obtain p' s' c' where g: "?k (p', s', c') = Some r"
    "fst ` set c \<subseteq> fst ` set c'" "\<forall>i. captures i a \<longrightarrow> i \<in> fst ` set c'" by blast
  let ?c = "(j, take (p' - p) s) # c'"
  have "k (p', s', ?c) = Some r" using g(1) by simp
  moreover have "fst ` set c \<subseteq> fst ` set ?c" using g(2) by auto
  moreover have "\<forall>i. captures i (Grp j a) \<longrightarrow> i \<in> fst ` set ?c" using g(3) by auto
  ultimately show ?case by blast
qed

lemma exec_from_captures:
  "exec_from icase re p s = Some m \<Longrightarrow> captures i re \<Longrightarrow> i \<in> fst ` set m"
proof (induction s arbitrary: p)
  case Nil
  then have "rmatch icase re (\<lambda>(p', s', c'). Some c') (p, [], []) = Some m" by simp
  from rmatch_captures[OF this] Nil.prems(2) show ?case by auto
next
  case (Cons x xs)
  show ?case
  proof (cases "rmatch icase re (\<lambda>(p', s', c'). Some c') (p, x # xs, [])")
    case None
    with Cons.prems have "exec_from icase re (Suc p) xs = Some m" by simp
    from Cons.IH[OF this Cons.prems(2)] show ?thesis .
  next
    case (Some c)
    with Cons.prems have "rmatch icase re (\<lambda>(p', s', c'). Some c') (p, x # xs, []) = Some m"
      by simp
    from rmatch_captures[OF this] Cons.prems(2) show ?thesis by auto
  qed
qed

lemma group_text_defined:
  assumes "str_match icase re s = Some m" "captures i re"
  shows "\<exists>t. group_text m i = Inr t"
proof -
  have "i \<in> fst ` set m" using assms by (auto simp: str_match_def dest: exec_from_captures)
  then have "map_of m i \<noteq> None" by (simp add: map_of_eq_None_iff)
  then show ?thesis by (auto simp: group_text_def grp_def)
qed

lemma SEND_captures:
  "captures 1 PATTERN_SEND" "captures 2 PATTERN_SEND" "captures 3 PATTERN_SEND"
  "captures 1 SEND_tail" "captures 2 SEND_tail" "captures 3 SEND_tail"
  by (simp_all add: PATTERN_SEND_def SEND_tail_def)

lemma ADD_CONTACT_captures:
  "captures 1 PATTERN_ADD_CONTACT" "captures 2 PATTERN_ADD_CONTACT"
  by (simp_all add: PATTERN_ADD_CONTACT_def)

lemma parseCommand_returns: "\<exists>r. parseCommand commandString = Inr r"
proof -
  have "\<exists>r. bind_err (group_text m 2) (\<lambda>token.
             bind_err (group_text m 1) (\<lambda>amount.
             bind_err (group_text m 3) (\<lambda>recipient.
               Inr (Some (SEND amount (normalizeToken (toUpperCase token)) (trim recipient)))))) = Inr r"
    if "str_match True PATTERN_SEND s = Some m" for s m
    using group_text_defined[OF that SEND_captures(1)] group_text_defined[OF that SEND_captures(2)]
      group_text_defined[OF that SEND_captures(3)]
    by (auto simp: bind_err_def)
  moreover have "\<exists>r. bind_err (group_text m 1) (\<lambda>contactName.
             bind_err (group_text m 2) (\<lambda>contactAddress.
               Inr (Some (ADD_CONTACT (trim contactName) contactAddress)))) = Inr r"
    if "str_match True PATTERN_ADD_CONTACT s = Some m" for s m
    using group_text_defined[OF that ADD_CONTACT_captures(1)]
      group_text_defined[OF that ADD_CONTACT_captures(2)]
    by (auto simp: bind_err_def)
  ultimately show ?thesis
    by (simp add: parseCommand_def Let_def split: option.splits)
qed

lemma parseCommand_nonempty:
  "commandString \<noteq> [] \<Longrightarrow> \<exists>c. parseCommand commandString = Inr (Some c)"
  using parseCommand_returns[of commandString]
  by (auto simp: parseCommand_def Let_def bind_err_def split: option.splits sum.splits)


section \<open>Properties of the command parser\<close>


lemma trim_trim: "trim (trim s) = trim s"
proof (cases "trim s = []")
  case True
  have "trim [] = []" by (simp add: trim_def)
  with True show ?thesis by simp
next
  case False
  then show ?thesis using trim_wrap[of "[]" "[]" "trim s"] trim_ends[of s] by simp
qed

text \<open>
  Claim C3. A command text made of the word send in any letter case, a decimal number, an
  alphabetic token, the word to and a recipient that is not blank and holds no line
  terminator once trimmed, the parts separated by white space and the whole possibly
  surrounded by white space, is parsed to a \<open>SEND\<close> intent: its amount is the number
  as written, its recipient is the recipient trimmed, and its token is \<^verbatim>\<open>MTK\<close> when
  the token in upper case is \<^verbatim>\<open>MYTOKEN\<close>, \<^verbatim>\<open>MY-TOKEN\<close> or \<^verbatim>\<open>MY_TOKEN\<close>, and the
  token in upper case otherwise.
\<close>

theorem parse_send_shape:
  assumes kw: "toUpperCase kw = ''SEND''" and kt: "toUpperCase kt = ''TO''"
    and w0: "list_all isSpace w0"
    and w1: "w1 \<noteq> []" "list_all isSpace w1" and w2: "w2 \<noteq> []" "list_all isSpace w2"
    and w3: "w3 \<noteq> []" "list_all isSpace w3" and w4: "w4 \<noteq> []" "list_all isSpace w4"
    and am: "isDecimal amount"
    and tk: "token \<noteq> []" "list_all isAlpha token"
    and rc: "trim rcp \<noteq> []" "list_all (\<lambda>c. \<not> isLineTerminator c) (trim rcp)"
  shows "parseCommand (w0 @ kw @ w1 @ amount @ w2 @ token @ w3 @ kt @ w4 @ rcp)
           = Inr (Some (SEND amount
                          (if toUpperCase token = ''MYTOKEN'' \<or> toUpperCase token = ''MY-TOKEN''
                              \<or> toUpperCase token = ''MY_TOKEN''
                           then ''MTK'' else toUpperCase token)
                          (trim rcp)))"
proof -
  obtain a b where ab: "rcp = a @ trim rcp @ b" "list_all isSpace a" "list_all isSpace b"
    using trim_decomp by blast
  let ?r = "trim rcp"
  let ?body = "kw @ w1 @ amount @ w2 @ token @ w3 @ kt @ (w4 @ a) @ ?r"
  have kwn: "kw \<noteq> []" "\<not> isSpace (hd kw)"
    using kw by (auto simp: toUpperCase_def upperChar_def isSpace_def isLower_def code_def
        split: if_splits)
  have re: "\<not> isSpace (hd ?r)" "\<not> isSpace (last ?r)"
    using trim_ends[OF rc(1)] by simp_all
  have m: "str_match True PATTERN_SEND ?body = Some [(3, ?r), (2, token), (1, amount)]"
    by (rule send_match) (use assms ab re in simp_all)
  have "w0 @ kw @ w1 @ amount @ w2 @ token @ w3 @ kt @ w4 @ rcp = w0 @ ?body @ b"
    using ab(1) by (metis append_assoc)
  moreover have "trim (w0 @ ?body @ b) = ?body"
    by (rule trim_wrap) (use w0 ab kwn re rc in \<open>simp_all add: hd_append\<close>)
  ultimately have t: "trim (w0 @ kw @ w1 @ amount @ w2 @ token @ w3 @ kt @ w4 @ rcp) = ?body"
    by simp
  have ne: "w0 @ kw @ w1 @ amount @ w2 @ token @ w3 @ kt @ w4 @ rcp \<noteq> []"
    using kwn by simp
  have "parseCommand (w0 @ kw @ w1 @ amount @ w2 @ token @ w3 @ kt @ w4 @ rcp)
           = Inr (Some (SEND amount (normalizeToken (toUpperCase token)) (trim rcp)))"
    unfolding parseCommand_def Let_def t using ne m
    by (simp add: grp_def group_text_def bind_err_def trim_trim del: append_assoc)
  then show ?thesis by (simp add: normalizeToken_def)
qed

theorem parse_send_shape_witness:
  "parseCommand ''  Send 5.25 mytoken   to  Bob Smith  '' =
     Inr (Some (SEND ''5.25'' ''MTK'' ''Bob Smith''))
   \<and> parseCommand ''send 5 usdc to Alice'' = Inr (Some (SEND ''5'' ''USDC'' ''Alice''))"
proof -
  have h: "toUpperCase ''Send'' = ''SEND''" "toUpperCase ''to'' = ''TO''"
    "list_all isSpace ''  ''" "'' '' \<noteq> []" "list_all isSpace '' ''"
    "''   '' \<noteq> []" "list_all isSpace ''   ''"  "''  '' \<noteq> []"
    "isDecimal ''5.25''" "''mytoken'' \<noteq> []" "list_all isAlpha ''mytoken''"
    "trim ''Bob Smith  '' \<noteq> []" "list_all (\<lambda>c. \<not> isLineTerminator c) (trim ''Bob Smith  '')"
    by code_simp+
  have c: "toUpperCase ''mytoken'' = ''MYTOKEN''" "trim ''Bob Smith  '' = ''Bob Smith''"
    by code_simp+
  have a: "parseCommand ''  Send 5.25 mytoken   to  Bob Smith  '' =
     Inr (Some (SEND ''5.25'' ''MTK'' ''Bob Smith''))"
    using parse_send_shape[of "''Send''" "''to''" "''  ''" "'' ''" "'' ''" "''   ''" "''  ''"
        "''5.25''" "''mytoken''" "''Bob Smith  ''"] h c
    by simp
  have h': "toUpperCase ''send'' = ''SEND''" "list_all isSpace []"
    "isDecimal ''5''" "''usdc'' \<noteq> []" "list_all isAlpha ''usdc''"
    "trim ''Alice'' \<noteq> []" "list_all (\<lambda>c. \<not> isLineTerminator c) (trim ''Alice'')"
    by code_simp+
  have c': "toUpperCase ''usdc'' = ''USDC''" "trim ''Alice'' = ''Alice''"
    by code_simp+
  have b: "parseCommand ''send 5 usdc to Alice'' = Inr (Some (SEND ''5'' ''USDC'' ''Alice''))"
    using parse_send_shape[of "''send''" "''to''" "[]" "'' ''" "'' ''" "'' ''" "'' ''"
        "''5''" "''usdc''" "''Alice''"] h h' c'
    by simp
  show ?thesis using a b by (intro conjI)
qed

text \<open>
  Claim C2, amended. \<open>parseCommand\<close> never throws: whenever a pattern has matched, the
  groups it reads took part in the match. For every non-empty text it returns a
  command; when the trimmed text matches none of the four patterns, the command is
  \<open>UNKNOWN\<close> with the trimmed text. For the empty text it returns \<^verbatim>\<open>null\<close>.
\<close>

theorem parse_total:
  "(\<exists>r. parseCommand commandString = Inr r)
   \<and> (commandString \<noteq> [] \<longrightarrow>
        (\<exists>c. parseCommand commandString = Inr (Some c))
        \<and> (str_match True PATTERN_SEND (trim commandString) = None
           \<and> str_match True PATTERN_CHECK_BALANCE (trim commandString) = None
           \<and> str_match True PATTERN_ADD_CONTACT (trim commandString) = None
           \<and> str_match True PATTERN_LIST_CONTACTS (trim commandString) = None
           \<longrightarrow> parseCommand commandString = Inr (Some (UNKNOWN (trim commandString)))))
   \<and> (commandString = [] \<longrightarrow> parseCommand commandString = Inr None)"
proof (intro conjI impI)
  show "\<exists>r. parseCommand commandString = Inr r" by (rule parseCommand_returns)
next
  assume "commandString \<noteq> []"
  then show "\<exists>c. parseCommand commandString = Inr (Some c)" by (rule parseCommand_nonempty)
next
  assume "commandString \<noteq> []"
    and "str_match True PATTERN_SEND (trim commandString) = None
           \<and> str_match True PATTERN_CHECK_BALANCE (trim commandString) = None
           \<and> str_match True PATTERN_ADD_CONTACT (trim commandString) = None
           \<and> str_match True PATTERN_LIST_CONTACTS (trim commandString) = None"
  then show "parseCommand commandString = Inr (Some (UNKNOWN (trim commandString)))"
    by (simp add: parseCommand_def Let_def)
next
  assume "commandString = []"
  then show "parseCommand commandString = Inr None" by (simp add: parseCommand_def)
qed

theorem parse_total_witness:
  "parseCommand ''  hello '' = Inr (Some (UNKNOWN ''hello'')) \<and> parseCommand [] = Inr None"
proof -
  have n: "''  hello '' \<noteq> []" by simp
  have t: "trim ''  hello '' = ''hello''" by code_simp
  have m: "str_match True PATTERN_SEND ''hello'' = None"
    "str_match True PATTERN_CHECK_BALANCE ''hello'' = None"
    "str_match True PATTERN_ADD_CONTACT ''hello'' = None"
    "str_match True PATTERN_LIST_CONTACTS ''hello'' = None"
    by code_simp+
  have a: "parseCommand ''  hello '' = Inr (Some (UNKNOWN ''hello''))"
    using parse_total[of "''  hello ''", THEN conjunct2, THEN conjunct1] n t m by simp
  have b: "parseCommand [] = Inr None"
    using parse_total[of "[]", THEN conjunct2, THEN conjunct2] by simp
  show ?thesis using a b by (intro conjI)
qed

text \<open>
  Claim C2 as stated fails at the empty text: it matches none of the four patterns, and
  the result is \<^verbatim>\<open>null\<close>, not an \<open>UNKNOWN\<close> command.
\<close>

theorem parse_empty_counterexample:
  "str_match True PATTERN_SEND (trim []) = None
   \<and> str_match True PATTERN_CHECK_BALANCE (trim []) = None
   \<and> str_match True PATTERN_ADD_CONTACT (trim []) = None
   \<and> str_match True PATTERN_LIST_CONTACTS (trim []) = None
   \<and> parseCommand [] = Inr None
   \<and> parseCommand [] \<noteq> Inr (Some (UNKNOWN (trim [])))"
proof -
  have t: "trim [] = []" by (simp add: trim_def)
  have m: "str_match True PATTERN_SEND [] = None"
    "str_match True PATTERN_CHECK_BALANCE [] = None"
    "str_match True PATTERN_ADD_CONTACT [] = None"
    "str_match True PATTERN_LIST_CONTACTS [] = None"
    by code_simp+
  show ?thesis using t m by (simp add: parseCommand_def)
qed



section \<open>Properties of the transfer\<close>


lemma calls_log_call: "calls (log_call c st) = calls st @ [c]"
  by (simp add: log_call_def)

lemma decimals_log_call: "TOKEN_DECIMALS (log_call c st) = TOKEN_DECIMALS st"
  by (simp add: log_call_def)

lemma cached_log_call: "cached_decimals (log_call c st) s = cached_decimals st s"
  by (simp add: cached_decimals_def log_call_def)

lemma getTokenDecimals_submissions:
  "filter is_submission (calls (snd (getTokenDecimals e st s))) = filter is_submission (calls st)"
  by (simp add: getTokenDecimals_def Let_def calls_log_call split: option.splits sum.splits)

lemma getTokenDecimals_supported:
  "getTokenAddress e s = Some a \<Longrightarrow> \<exists>d. fst (getTokenDecimals e st s) = Inr d"
  by (simp add: getTokenDecimals_def Let_def split: option.splits sum.splits)

lemma sendEth_insufficient:
  assumes "isAddress e toAddress" "parseUnits e amount (Own 18) = Inr units"
    "getBalance e (wallet_address e) = Inr bal" "bal < units"
  shows "sendEth e st toAddress amount =
           (Inl (Error ''Failed to send ETH: Insufficient ETH balance''),
            log_call (CallGetBalance (wallet_address e)) st)"
  using assms by (simp add: sendEth_def sendEth_try_def catch_send_def failed_to_send_def Let_def)

lemma sendTokens_try_insufficient:
  assumes "erc20_balanceOf e tokenAddress (wallet_address e) = Inr bal" "bal < units"
  shows "catch_send tokenSymbol (sendTokens_try e st tokenSymbol tokenAddress toAddress amount units) =
           (Inl (Error (''Failed to send '' @ tokenSymbol @ '': Insufficient '' @ tokenSymbol @ '' balance'')),
            log_call (CallBalanceOf tokenAddress (wallet_address e)) st)"
  using assms by (simp add: sendTokens_try_def catch_send_def failed_to_send_def Let_def)

lemma test_isAddress: "isAddress test_env test_address"
  by code_simp

lemma test_MTK_address: "getTokenAddress test_env ''MTK'' = Some (Own ''0x0E4Dd0bA5a6f1bc0ffFE421dbB8E252dFF0C66f6'')"
  by (simp add: getTokenAddress_def obj_get_def test_env_def TOKEN_ADDRESSES_def)

lemma test_MTK_decimals: "getTokenDecimals test_env init_state ''MTK'' = (Inr (Own 18), init_state)"
  by (simp add: getTokenDecimals_def cached_decimals_def obj_get_def init_state_def
      TOKEN_DECIMALS_init_def)

lemma digit_codes:
  "code CHR ''0'' = 48" "code CHR ''7'' = 55" "code CHR ''a'' = 97" "code CHR ''.'' = 46"
  by (simp_all add: code_def)

lemma test_parse_0: "parseUnits test_env ''0'' (Own 18) = Inr 0"
  by (simp add: test_env_def parseFixed_def digits_value_def isDigit_def digit_codes Let_def)

lemma test_parse_7: "parseUnits test_env ''7'' (Own 18) = Inr 7000000000000000000"
  by (simp add: test_env_def parseFixed_def digits_value_def isDigit_def digit_codes Let_def)

lemma test_parse_abc: "parseUnits test_env ''abc'' (Own 18) = Inl (Error ''invalid decimal value'')"
  by (simp add: test_env_def parseFixed_def digits_value_def isDigit_def digit_codes Let_def)


lemma test_reads: "erc20_balanceOf test_env (Own a) w = Inr 5000000000000000000"
  "getBalance test_env w = Inr 5000000000000000000"
  "wallet_address test_env = test_wallet"
  by (simp_all add: test_env_def)

lemma test_calls_init: "calls init_state = []"
  by (simp add: init_state_def)

lemma test_isAddress_bob: "\<not> isAddress test_env ''bob''"
  by code_simp

text \<open>
  Claim C1. When the destination is a valid address, the amount is read as \<open>units\<close> of
  the smallest unit at the token's resolved decimals, the balance read of the signing
  account answers \<open>bal\<close> and \<open>bal < units\<close>, then \<open>sendTokens\<close> fails with the
  insufficient-balance error of the token, as rethrown by the handler of the block
  (\<^verbatim>\<open>Failed to send T: Insufficient T balance\<close>), and neither the contract's
  \<^verbatim>\<open>transfer\<close> nor the wallet's \<^verbatim>\<open>sendTransaction\<close> is called.
\<close>

theorem transfer_insufficient_balance:
  assumes "isAddress e toAddress"
    and "tokenSymbol = ''ETH'' \<longrightarrow>
           parseUnits e amount (Own 18) = Inr units \<and> getBalance e (wallet_address e) = Inr bal"
    and "tokenSymbol \<noteq> ''ETH'' \<longrightarrow>
           getTokenAddress e tokenSymbol = Some tokenAddress
           \<and> fst (getTokenDecimals e st tokenSymbol) = Inr decimals
           \<and> parseUnits e amount decimals = Inr units
           \<and> erc20_balanceOf e tokenAddress (wallet_address e) = Inr bal"
    and "bal < units"
  shows "fst (sendTokens e st tokenSymbol toAddress amount) =
           Inl (Error (''Failed to send '' @ tokenSymbol @ '': Insufficient '' @ tokenSymbol @ '' balance''))
       \<and> filter is_submission (calls (snd (sendTokens e st tokenSymbol toAddress amount))) =
           filter is_submission (calls st)"
proof (cases "tokenSymbol = ''ETH''")
  case True
  then show ?thesis
    using assms sendEth_insufficient[of e toAddress amount units bal st]
    by (simp add: sendTokens_def calls_log_call)
next
  case False
  obtain r st1 where g: "getTokenDecimals e st tokenSymbol = (r, st1)"
    by (cases "getTokenDecimals e st tokenSymbol")
  have r: "r = Inr decimals" using assms(3) False g by simp
  have s1: "filter is_submission (calls st1) = filter is_submission (calls st)"
    using getTokenDecimals_submissions[of e st tokenSymbol] g by simp
  have "sendTokens e st tokenSymbol toAddress amount =
          catch_send tokenSymbol
            (sendTokens_try e st1 tokenSymbol tokenAddress toAddress amount units)"
    using assms False g r by (simp add: sendTokens_def)
  then show ?thesis
    using assms False s1 sendTokens_try_insufficient[of e tokenAddress bal units tokenSymbol st1]
    by (simp add: calls_log_call)
qed

theorem transfer_insufficient_balance_witness:
  "fst (sendTokens test_env init_state ''MTK'' test_address ''7'') =
     Inl (Error ''Failed to send MTK: Insufficient MTK balance'')
   \<and> filter is_submission (calls (snd (sendTokens test_env init_state ''MTK'' test_address ''7''))) = []
   \<and> fst (sendTokens test_env init_state ''ETH'' test_address ''7'') =
     Inl (Error ''Failed to send ETH: Insufficient ETH balance'')
   \<and> filter is_submission (calls (snd (sendTokens test_env init_state ''ETH'' test_address ''7''))) = []"
  using
    transfer_insufficient_balance[where e = test_env and toAddress = test_address
      and tokenSymbol = "''MTK''" and amount = "''7''" and units = 7000000000000000000
      and bal = 5000000000000000000 and st = init_state and decimals = "Own 18"
      and tokenAddress = "Own ''0x0E4Dd0bA5a6f1bc0ffFE421dbB8E252dFF0C66f6''"]
    transfer_insufficient_balance[where e = test_env and toAddress = test_address
      and tokenSymbol = "''ETH''" and amount = "''7''" and units = 7000000000000000000
      and bal = 5000000000000000000 and st = init_state and decimals = "Own 18"
      and tokenAddress = "Own ''NATIVE''"]
    test_isAddress test_parse_7 test_MTK_address test_MTK_decimals test_reads test_calls_init
  by simp


text \<open>
  Claim C5, amended. \<open>sendTokens\<close> fails with \<^verbatim>\<open>Invalid Ethereum address\<close>, before any
  chain access, whenever the destination is not a valid address. With a valid
  destination, an amount that \<^verbatim>\<open>parseUnits\<close> rejects at the token's resolved decimals
  makes it fail with that rejection (rethrown as \<^verbatim>\<open>Failed to send ETH: ...\<close> on the
  native path) before any balance read and any submission; on the contract path this
  needs the token to be a supported one. Nothing is said of amounts that are read
  but are not positive.
\<close>

theorem transfer_validation:
  "(\<not> isAddress e toAddress \<longrightarrow>
      sendTokens e st tokenSymbol toAddress amount = (Inl (Error ''Invalid Ethereum address''), st))
   \<and> (isAddress e toAddress \<and> tokenSymbol = ''ETH'' \<and> parseUnits e amount (Own 18) = Inl err \<longrightarrow>
      sendTokens e st tokenSymbol toAddress amount = (Inl (failed_to_send ''ETH'' err), st))
   \<and> (isAddress e toAddress \<and> tokenSymbol \<noteq> ''ETH''
        \<and> getTokenAddress e tokenSymbol = Some tokenAddress
        \<and> getTokenDecimals e st tokenSymbol = (Inr decimals, st1)
        \<and> parseUnits e amount decimals = Inl err \<longrightarrow>
      sendTokens e st tokenSymbol toAddress amount = (Inl err, st1)
      \<and> filter is_submission (calls st1) = filter is_submission (calls st))"
proof (intro conjI impI)
  assume "\<not> isAddress e toAddress"
  then show "sendTokens e st tokenSymbol toAddress amount = (Inl (Error ''Invalid Ethereum address''), st)"
    by (simp add: sendTokens_def)
next
  assume "isAddress e toAddress \<and> tokenSymbol = ''ETH'' \<and> parseUnits e amount (Own 18) = Inl err"
  then show "sendTokens e st tokenSymbol toAddress amount = (Inl (failed_to_send ''ETH'' err), st)"
    by (simp add: sendTokens_def sendEth_def sendEth_try_def catch_send_def)
next
  assume a: "isAddress e toAddress \<and> tokenSymbol \<noteq> ''ETH''
        \<and> getTokenAddress e tokenSymbol = Some tokenAddress
        \<and> getTokenDecimals e st tokenSymbol = (Inr decimals, st1)
        \<and> parseUnits e amount decimals = Inl err"
  then show "sendTokens e st tokenSymbol toAddress amount = (Inl err, st1)"
    by (simp add: sendTokens_def)
  show "filter is_submission (calls st1) = filter is_submission (calls st)"
    using a getTokenDecimals_submissions[of e st tokenSymbol] by simp
qed

theorem transfer_validation_witness:
  "sendTokens test_env init_state ''MTK'' ''bob'' ''7'' =
     (Inl (Error ''Invalid Ethereum address''), init_state)
   \<and> sendTokens test_env init_state ''ETH'' test_address ''abc'' =
     (Inl (Error ''Failed to send ETH: invalid decimal value''), init_state)
   \<and> sendTokens test_env init_state ''MTK'' test_address ''abc'' =
     (Inl (Error ''invalid decimal value''), init_state)"
proof -
  have a: "sendTokens test_env init_state ''MTK'' ''bob'' ''7'' =
     (Inl (Error ''Invalid Ethereum address''), init_state)"
    using transfer_validation[where e = test_env and toAddress = "''bob''"
        and tokenSymbol = "''MTK''" and amount = "''7''" and st = init_state, THEN conjunct1] test_isAddress_bob
    by (rule mp)
  have "sendTokens test_env init_state ''ETH'' test_address ''abc'' =
     (Inl (failed_to_send ''ETH'' (Error ''invalid decimal value'')), init_state)"
    using transfer_validation[where e = test_env and toAddress = test_address
        and tokenSymbol = "''ETH''" and amount = "''abc''" and st = init_state
        and err = "Error ''invalid decimal value''", THEN conjunct2, THEN conjunct1]
      test_isAddress test_parse_abc by blast
  then have b: "sendTokens test_env init_state ''ETH'' test_address ''abc'' =
     (Inl (Error ''Failed to send ETH: invalid decimal value''), init_state)"
    by (simp add: failed_to_send_def)
  have ne: "''MTK'' \<noteq> ''ETH''" by simp
  have c: "sendTokens test_env init_state ''MTK'' test_address ''abc'' =
     (Inl (Error ''invalid decimal value''), init_state)"
    using transfer_validation[where e = test_env and toAddress = test_address
        and tokenSymbol = "''MTK''" and amount = "''abc''" and st = init_state
        and err = "Error ''invalid decimal value''"
        and tokenAddress = "Own ''0x0E4Dd0bA5a6f1bc0ffFE421dbB8E252dFF0C66f6''" and decimals = "Own 18"
        and ?st1.0 = init_state, THEN conjunct2, THEN conjunct2]
      test_isAddress test_MTK_address test_MTK_decimals test_parse_abc ne by blast
  show ?thesis using a b c by (intro conjI)
qed

text \<open>
  Claim C5 as stated fails at the amount \<^verbatim>\<open>0\<close>, which is not positive: with a valid
  destination and a supported token it is read as 0 units, the balance test passes and
  the transfer is submitted and confirmed.
\<close>

theorem transfer_zero_amount_counterexample:
  "isAddress test_env test_address
   \<and> parseUnits test_env ''0'' (Own 18) = Inr 0
   \<and> fst (sendTokens test_env init_state ''MTK'' test_address ''0'') =
       Inr \<lparr>transactionHash = ''0xabc'', tx_from = test_wallet, tx_to = test_address,
            tx_amount = ''0'', tx_token = ''MTK'', blockNumber = 100, tx_network = ''testnet''\<rparr>
   \<and> calls (snd (sendTokens test_env init_state ''MTK'' test_address ''0'')) =
       [CallBalanceOf (Own ''0x0E4Dd0bA5a6f1bc0ffFE421dbB8E252dFF0C66f6'') test_wallet,
        CallTransfer (Own ''0x0E4Dd0bA5a6f1bc0ffFE421dbB8E252dFF0C66f6'') test_address 0,
        CallWait 1]"
proof -
  have x: "erc20_transfer test_env (Own a) t v = Inr 1"
    "tx_wait test_env tx = Inr \<lparr>r_transactionHash = ''0xabc'', r_blockNumber = 100\<rparr>" for a t v tx
    by (simp_all add: test_env_def)
  have "sendTokens test_env init_state ''MTK'' test_address ''0'' =
          catch_send ''MTK'' (sendTokens_try test_env init_state ''MTK''
             (Own ''0x0E4Dd0bA5a6f1bc0ffFE421dbB8E252dFF0C66f6'') test_address ''0'' 0)"
    using test_isAddress test_parse_0 test_MTK_address test_MTK_decimals by (simp add: sendTokens_def)
  then show ?thesis
    using test_isAddress test_parse_0 test_reads test_calls_init x
    by (simp add: sendTokens_try_def catch_send_def Let_def calls_log_call)
qed


section \<open>Properties of the token registry\<close>


lemma getTokenDecimals_cached:
  "cached_decimals st s = Some d \<Longrightarrow> getTokenDecimals e st s = (Inr d, st)"
  by (simp add: getTokenDecimals_def)










section \<open>Properties of the balance queries\<close>


lemma getTokenDecimals_supported_pair:
  "getTokenAddress e s = Some a \<Longrightarrow> getTokenDecimals e st s = (r, st') \<Longrightarrow> \<exists>d. r = Inr d"
  using getTokenDecimals_supported[of e s a st] by simp

lemma obj_get_set_other: "k \<noteq> s \<Longrightarrow> obj_get (obj_set m s v) k = obj_get m k"
  by (simp add: obj_get_def obj_set_def)

text \<open>A truthy read of the decimals table is never overwritten.\<close>

lemma getTokenDecimals_keeps:
  assumes "cached_decimals st k = Some d"
  shows "cached_decimals (snd (getTokenDecimals e st s)) k = Some d"
proof (cases "k = s")
  case True
  then show ?thesis using assms by (simp add: getTokenDecimals_def)
next
  case False
  have "cached_decimals (st'\<lparr>TOKEN_DECIMALS := obj_set (TOKEN_DECIMALS st') s v\<rparr>) k =
          cached_decimals st' k" for st' v
    using False by (simp add: cached_decimals_def obj_get_set_other)
  then show ?thesis using assms
    by (simp add: getTokenDecimals_def Let_def cached_log_call split: option.splits sum.splits)
qed

lemma getTokenBalance_state:
  "snd (getTokenBalance e st s addr) =
     (if s = ''ETH'' then log_call (CallGetBalance (target_address e addr)) st
      else (case getTokenAddress e s of
              None \<Rightarrow> st
            | Some ta \<Rightarrow>
                snd (getTokenDecimals e (log_call (CallBalanceOf ta (target_address e addr)) st) s)))"
  by (simp add: getTokenBalance_def getTokenBalance_try_def Let_def
      split: prod.splits sum.splits option.splits)

lemma getTokenBalance_keeps:
  assumes "cached_decimals st k = Some d"
  shows "cached_decimals (snd (getTokenBalance e st s addr)) k = Some d"
  using assms
  by (simp add: getTokenBalance_state cached_log_call getTokenDecimals_keeps split: option.splits)

lemma getTokenBalance_ETH:
  "fst (getTokenBalance e st ''ETH'' addr) =
     Inr (case getBalance e (target_address e addr) of
            Inl err \<Rightarrow> zero_balance ''ETH'' err
          | Inr wei \<Rightarrow>
              (case formatUnits e wei (Own 18) of
                 Inl err \<Rightarrow> zero_balance ''ETH'' err
               | Inr text \<Rightarrow> balance_entry ''ETH'' text wei (Own 18)))"
  by (simp add: getTokenBalance_def getTokenBalance_try_def Let_def split: sum.splits)

lemma getTokenBalance_unsupported:
  "s \<noteq> ''ETH'' \<Longrightarrow> getTokenAddress e s = None \<Longrightarrow>
     fst (getTokenBalance e st s addr) = Inr (zero_balance s (Error (''Unsupported token: '' @ s)))"
  by (simp add: getTokenBalance_def getTokenBalance_try_def Let_def)

lemma getTokenBalance_supported:
  assumes "s \<noteq> ''ETH''" "getTokenAddress e s = Some ta"
  shows "\<exists>d. fst (getTokenDecimals e (log_call (CallBalanceOf ta (target_address e addr)) st) s) = Inr d
            \<and> fst (getTokenBalance e st s addr) =
                Inr (case formatUnits e (case erc20_balanceOf e ta (target_address e addr) of
                                           Inl err \<Rightarrow> 0 | Inr v \<Rightarrow> v) d of
                       Inl err \<Rightarrow> zero_balance s err
                     | Inr text \<Rightarrow>
                         balance_entry s text (case erc20_balanceOf e ta (target_address e addr) of
                                                 Inl err \<Rightarrow> 0 | Inr v \<Rightarrow> v) d)"
proof -
  let ?st1 = "log_call (CallBalanceOf ta (target_address e addr)) st"
  obtain r st2 where g: "getTokenDecimals e ?st1 s = (r, st2)"
    by (cases "getTokenDecimals e ?st1 s")
  then obtain d where d: "r = Inr d" using getTokenDecimals_supported_pair[OF assms(2) g] by blast
  show ?thesis
    using assms g d
    by (intro exI[of _ d])
      (simp add: getTokenBalance_def getTokenBalance_try_def Let_def split: sum.splits)
qed

lemma getTokenBalance_returns: "\<exists>b. fst (getTokenBalance e st s addr) = Inr b"
  by (simp add: getTokenBalance_def Let_def split: prod.splits sum.splits)

lemma getTokenBalance_token:
  assumes "fst (getTokenBalance e st s addr) = Inr b"
  shows "bi_token b = s"
  using assms
  by (auto simp: getTokenBalance_def getTokenBalance_try_def Let_def zero_balance_def
      balance_entry_def split: prod.splits sum.splits option.splits if_splits)

lemma getBalances_list_entries:
  "\<exists>l. fst (getBalances_list e st syms addr) = Inr l
       \<and> list_all2 (\<lambda>s b. \<exists>st'. (\<forall>k d. cached_decimals st k = Some d \<longrightarrow>
                                         cached_decimals st' k = Some d)
                              \<and> fst (getTokenBalance e st' s addr) = Inr b) syms l"
proof (induction syms arbitrary: st)
  case Nil
  then show ?case by simp
next
  case (Cons s ss)
  obtain r st1 where g: "getTokenBalance e st s addr = (r, st1)"
    by (cases "getTokenBalance e st s addr")
  obtain b where b: "r = Inr b" using getTokenBalance_returns[of e st s addr] g by auto
  have keep: "cached_decimals st1 k = Some d" if "cached_decimals st k = Some d" for k d
    using getTokenBalance_keeps[OF that, of e s addr] g by simp
  obtain l where l: "fst (getBalances_list e st1 ss addr) = Inr l"
    "list_all2 (\<lambda>s b. \<exists>st'. (\<forall>k d. cached_decimals st1 k = Some d \<longrightarrow>
                                     cached_decimals st' k = Some d)
                          \<and> fst (getTokenBalance e st' s addr) = Inr b) ss l"
    using Cons.IH[of st1] by blast
  have l': "list_all2 (\<lambda>s b. \<exists>st'. (\<forall>k d. cached_decimals st k = Some d \<longrightarrow>
                                     cached_decimals st' k = Some d)
                          \<and> fst (getTokenBalance e st' s addr) = Inr b) ss l"
    using l(2) by (rule list_all2_mono) (use keep in blast)
  obtain st2 where l2: "getBalances_list e st1 ss addr = (Inr l, st2)"
    using l(1) by (cases "getBalances_list e st1 ss addr") simp
  have "fst (getBalances_list e st (s # ss) addr) = Inr (b # l)"
    using g b l2 by simp
  moreover have "\<exists>st'. (\<forall>k d. cached_decimals st k = Some d \<longrightarrow> cached_decimals st' k = Some d)
                      \<and> fst (getTokenBalance e st' s addr) = Inr b"
    using g b by (intro exI[of _ st]) simp
  ultimately show ?case using l' by auto
qed


text \<open>
  Claim C8, amended. \<open>getTokenBalance\<close> returns an entry for every symbol, tagged with
  that symbol, whatever the chain answers and whatever the helpers throw. For ETH the
  entry is the zero balance \<^verbatim>\<open>'0'\<close> with the message of the failure when the read of
  the native balance fails or the balance cannot be formatted, and the balance read
  otherwise. For a symbol whose read of the address table is falsy it is the zero
  balance with \<^verbatim>\<open>Unsupported token\<close>. For every other symbol the raw balance is what
  the contract answers, and 0 when the balance read of the contract fails; the entry
  is that raw balance formatted at the resolved decimals, without an error, and the
  zero balance with the message of the failure when the formatting fails.
  \<open>getBalances\<close> returns one entry for each requested symbol, whatever fails.
\<close>

theorem balance_never_throws:
  "(\<exists>b. fst (getTokenBalance e st s addr) = Inr b \<and> bi_token b = s
        \<and> (s = ''ETH'' \<longrightarrow>
             (\<forall>err. getBalance e (target_address e addr) = Inl err \<longrightarrow> b = zero_balance s err)
             \<and> (\<forall>wei. getBalance e (target_address e addr) = Inr wei \<longrightarrow>
                   b = (case formatUnits e wei (Own 18) of
                          Inl err \<Rightarrow> zero_balance s err
                        | Inr text \<Rightarrow> balance_entry s text wei (Own 18))))
        \<and> (s \<noteq> ''ETH'' \<and> getTokenAddress e s = None \<longrightarrow>
             b = zero_balance s (Error (''Unsupported token: '' @ s)))
        \<and> (s \<noteq> ''ETH'' \<longrightarrow>
             (\<forall>ta. getTokenAddress e s = Some ta \<longrightarrow>
                (\<exists>d. fst (getTokenDecimals e
                             (log_call (CallBalanceOf ta (target_address e addr)) st) s) = Inr d
                     \<and> b = (case formatUnits e
                                   (case erc20_balanceOf e ta (target_address e addr) of
                                      Inl err \<Rightarrow> 0 | Inr v \<Rightarrow> v) d of
                              Inl err \<Rightarrow> zero_balance s err
                            | Inr text \<Rightarrow>
                                balance_entry s text
                                  (case erc20_balanceOf e ta (target_address e addr) of
                                     Inl err \<Rightarrow> 0 | Inr v \<Rightarrow> v) d)))))
   \<and> (\<exists>l. fst (getBalances e st tokenSymbols addr) = Inr l
          \<and> length l = length (case tokenSymbols of
                                None \<Rightarrow> [''ETH'', ''MTK'', ''USDC'', ''DAI'', ''USDT'']
                              | Some x \<Rightarrow> x))"
proof
  obtain b where b: "fst (getTokenBalance e st s addr) = Inr b"
    using getTokenBalance_returns by blast
  have "bi_token b = s" using b by (rule getTokenBalance_token)
  moreover have "s = ''ETH'' \<longrightarrow>
             (\<forall>err. getBalance e (target_address e addr) = Inl err \<longrightarrow> b = zero_balance s err)
             \<and> (\<forall>wei. getBalance e (target_address e addr) = Inr wei \<longrightarrow>
                   b = (case formatUnits e wei (Own 18) of
                          Inl err \<Rightarrow> zero_balance s err
                        | Inr text \<Rightarrow> balance_entry s text wei (Own 18)))"
    using b getTokenBalance_ETH[of e st addr] by auto
  moreover have "s \<noteq> ''ETH'' \<and> getTokenAddress e s = None \<longrightarrow>
      b = zero_balance s (Error (''Unsupported token: '' @ s))"
    using b getTokenBalance_unsupported[of s e st addr] by auto
  moreover have "s \<noteq> ''ETH'' \<longrightarrow>
             (\<forall>ta. getTokenAddress e s = Some ta \<longrightarrow>
                (\<exists>d. fst (getTokenDecimals e
                             (log_call (CallBalanceOf ta (target_address e addr)) st) s) = Inr d
                     \<and> b = (case formatUnits e
                                   (case erc20_balanceOf e ta (target_address e addr) of
                                      Inl err \<Rightarrow> 0 | Inr v \<Rightarrow> v) d of
                              Inl err \<Rightarrow> zero_balance s err
                            | Inr text \<Rightarrow>
                                balance_entry s text
                                  (case erc20_balanceOf e ta (target_address e addr) of
                                     Inl err \<Rightarrow> 0 | Inr v \<Rightarrow> v) d)))"
  proof (intro impI allI)
    fix ta
    assume 1: "s \<noteq> ''ETH''" and 2: "getTokenAddress e s = Some ta"
    from getTokenBalance_supported[OF 1 2, of addr st] b
    show "\<exists>d. fst (getTokenDecimals e
                             (log_call (CallBalanceOf ta (target_address e addr)) st) s) = Inr d
                     \<and> b = (case formatUnits e
                                   (case erc20_balanceOf e ta (target_address e addr) of
                                      Inl err \<Rightarrow> 0 | Inr v \<Rightarrow> v) d of
                              Inl err \<Rightarrow> zero_balance s err
                            | Inr text \<Rightarrow>
                                balance_entry s text
                                  (case erc20_balanceOf e ta (target_address e addr) of
                                     Inl err \<Rightarrow> 0 | Inr v \<Rightarrow> v) d)"
      by auto
  qed
  ultimately show "\<exists>b. fst (getTokenBalance e st s addr) = Inr b \<and> bi_token b = s
        \<and> (s = ''ETH'' \<longrightarrow>
             (\<forall>err. getBalance e (target_address e addr) = Inl err \<longrightarrow> b = zero_balance s err)
             \<and> (\<forall>wei. getBalance e (target_address e addr) = Inr wei \<longrightarrow>
                   b = (case formatUnits e wei (Own 18) of
                          Inl err \<Rightarrow> zero_balance s err
                        | Inr text \<Rightarrow> balance_entry s text wei (Own 18))))
        \<and> (s \<noteq> ''ETH'' \<and> getTokenAddress e s = None \<longrightarrow>
             b = zero_balance s (Error (''Unsupported token: '' @ s)))
        \<and> (s \<noteq> ''ETH'' \<longrightarrow>
             (\<forall>ta. getTokenAddress e s = Some ta \<longrightarrow>
                (\<exists>d. fst (getTokenDecimals e
                             (log_call (CallBalanceOf ta (target_address e addr)) st) s) = Inr d
                     \<and> b = (case formatUnits e
                                   (case erc20_balanceOf e ta (target_address e addr) of
                                      Inl err \<Rightarrow> 0 | Inr v \<Rightarrow> v) d of
                              Inl err \<Rightarrow> zero_balance s err
                            | Inr text \<Rightarrow>
                                balance_entry s text
                                  (case erc20_balanceOf e ta (target_address e addr) of
                                     Inl err \<Rightarrow> 0 | Inr v \<Rightarrow> v) d))))"
    using b by blast
next
  let ?syms = "case tokenSymbols of
                 None \<Rightarrow> [''ETH'', ''MTK'', ''USDC'', ''DAI'', ''USDT'']
               | Some x \<Rightarrow> x"
  obtain l where "fst (getBalances_list e st ?syms addr) = Inr l"
    "list_all2 (\<lambda>s b. \<exists>st'. (\<forall>k d. cached_decimals st k = Some d \<longrightarrow>
                                     cached_decimals st' k = Some d)
                          \<and> fst (getTokenBalance e st' s addr) = Inr b) ?syms l"
    using getBalances_list_entries by blast
  then show "\<exists>l. fst (getBalances e st tokenSymbols addr) = Inr l \<and> length l = length ?syms"
    by (auto simp: getBalances_def dest: list_all2_lengthD)
qed

text \<open>
  Claim C10, amended. \<open>getBalances\<close> returns one entry for each requested symbol (for
  each of the five default symbols when no list is given), in the order of the request,
  each tagged with its symbol. The entry of ETH is the zero balance with the message of
  the failure when the read of the native balance fails or the balance cannot be
  formatted; the entry of a symbol whose read of the address table is falsy is the
  zero balance with \<^verbatim>\<open>Unsupported token\<close>. The entry of every other symbol has the raw
  balance that the contract answers, and 0 when the balance read of the contract
  fails; it carries no error when that raw balance is formatted at the decimals
  resolved for the symbol, and it is the zero balance with the message of the failure
  when the formatting fails. The decimals are resolved in a state in which every
  truthy read of the decimals table is as it was at the call.
\<close>

theorem balances_in_order:
  assumes "syms = (case tokenSymbols of
                     None \<Rightarrow> [''ETH'', ''MTK'', ''USDC'', ''DAI'', ''USDT'']
                   | Some x \<Rightarrow> x)"
    and "tgt = target_address e addr"
  shows "\<exists>l. fst (getBalances e st tokenSymbols addr) = Inr l
           \<and> map bi_token l = syms
           \<and> (\<forall>i<length syms.
                 (syms ! i = ''ETH'' \<longrightarrow>
                    (\<forall>err. getBalance e tgt = Inl err \<longrightarrow> l ! i = zero_balance ''ETH'' err)
                    \<and> (\<forall>wei. getBalance e tgt = Inr wei \<longrightarrow>
                          l ! i = (case formatUnits e wei (Own 18) of
                                     Inl err \<Rightarrow> zero_balance ''ETH'' err
                                   | Inr text \<Rightarrow> balance_entry ''ETH'' text wei (Own 18))))
                 \<and> (syms ! i \<noteq> ''ETH'' \<and> getTokenAddress e (syms ! i) = None \<longrightarrow>
                      l ! i = zero_balance (syms ! i) (Error (''Unsupported token: '' @ syms ! i)))
                 \<and> (syms ! i \<noteq> ''ETH'' \<longrightarrow>
                      (\<forall>ta. getTokenAddress e (syms ! i) = Some ta \<longrightarrow>
                         (\<exists>st' d. (\<forall>k x. cached_decimals st k = Some x \<longrightarrow>
                                          cached_decimals st' k = Some x)
                                \<and> fst (getTokenDecimals e st' (syms ! i)) = Inr d
                                \<and> l ! i =
                                    (case formatUnits e
                                            (case erc20_balanceOf e ta tgt of
                                               Inl err \<Rightarrow> 0 | Inr v \<Rightarrow> v) d of
                                       Inl err \<Rightarrow> zero_balance (syms ! i) err
                                     | Inr text \<Rightarrow>
                                         balance_entry (syms ! i) text
                                           (case erc20_balanceOf e ta tgt of
                                              Inl err \<Rightarrow> 0 | Inr v \<Rightarrow> v) d)))))"
proof -
  obtain l where l: "fst (getBalances_list e st syms addr) = Inr l"
    and la: "list_all2 (\<lambda>s b. \<exists>st'. (\<forall>k d. cached_decimals st k = Some d \<longrightarrow>
                                             cached_decimals st' k = Some d)
                                  \<and> fst (getTokenBalance e st' s addr) = Inr b) syms l"
    using getBalances_list_entries by blast
  have g: "fst (getBalances e st tokenSymbols addr) = Inr l"
    using l assms(1) by (simp add: getBalances_def)
  have len: "length l = length syms" using la by (simp add: list_all2_lengthD)
  have ent: "\<exists>st'. (\<forall>k d. cached_decimals st k = Some d \<longrightarrow> cached_decimals st' k = Some d)
                  \<and> fst (getTokenBalance e st' (syms ! i) addr) = Inr (l ! i)"
    if "i < length syms" for i
    using la that by (simp add: list_all2_conv_all_nth)
  have tok: "map bi_token l = syms"
  proof (rule nth_equalityI)
    show "length (map bi_token l) = length syms" using len by simp
    fix i assume "i < length (map bi_token l)"
    then have i: "i < length syms" using len by simp
    then obtain st' where "fst (getTokenBalance e st' (syms ! i) addr) = Inr (l ! i)"
      using ent by blast
    then have "bi_token (l ! i) = syms ! i" by (rule getTokenBalance_token)
    then show "map bi_token l ! i = syms ! i" using i len by simp
  qed
  have props: "(syms ! i = ''ETH'' \<longrightarrow>
                    (\<forall>err. getBalance e tgt = Inl err \<longrightarrow> l ! i = zero_balance ''ETH'' err)
                    \<and> (\<forall>wei. getBalance e tgt = Inr wei \<longrightarrow>
                          l ! i = (case formatUnits e wei (Own 18) of
                                     Inl err \<Rightarrow> zero_balance ''ETH'' err
                                   | Inr text \<Rightarrow> balance_entry ''ETH'' text wei (Own 18))))
                 \<and> (syms ! i \<noteq> ''ETH'' \<and> getTokenAddress e (syms ! i) = None \<longrightarrow>
                      l ! i = zero_balance (syms ! i) (Error (''Unsupported token: '' @ syms ! i)))
                 \<and> (syms ! i \<noteq> ''ETH'' \<longrightarrow>
                      (\<forall>ta. getTokenAddress e (syms ! i) = Some ta \<longrightarrow>
                         (\<exists>st' d. (\<forall>k x. cached_decimals st k = Some x \<longrightarrow>
                                          cached_decimals st' k = Some x)
                                \<and> fst (getTokenDecimals e st' (syms ! i)) = Inr d
                                \<and> l ! i =
                                    (case formatUnits e
                                            (case erc20_balanceOf e ta tgt of
                                               Inl err \<Rightarrow> 0 | Inr v \<Rightarrow> v) d of
                                       Inl err \<Rightarrow> zero_balance (syms ! i) err
                                     | Inr text \<Rightarrow>
                                         balance_entry (syms ! i) text
                                           (case erc20_balanceOf e ta tgt of
                                              Inl err \<Rightarrow> 0 | Inr v \<Rightarrow> v) d))))"
    if i: "i < length syms" for i
  proof -
    obtain st' where k: "\<And>k d. cached_decimals st k = Some d \<Longrightarrow> cached_decimals st' k = Some d"
      and b: "fst (getTokenBalance e st' (syms ! i) addr) = Inr (l ! i)"
      using ent[OF i] by blast
    show ?thesis
      unfolding assms(2)
    proof (intro conjI impI allI)
      fix err assume "syms ! i = ''ETH''" "getBalance e (target_address e addr) = Inl err"
      then show "l ! i = zero_balance ''ETH'' err"
        using b getTokenBalance_ETH[of e st' addr] by simp
    next
      fix wei assume "syms ! i = ''ETH''" "getBalance e (target_address e addr) = Inr wei"
      then show "l ! i = (case formatUnits e wei (Own 18) of
                            Inl err \<Rightarrow> zero_balance ''ETH'' err
                          | Inr text \<Rightarrow> balance_entry ''ETH'' text wei (Own 18))"
        using b getTokenBalance_ETH[of e st' addr] by simp
    next
      assume "syms ! i \<noteq> ''ETH'' \<and> getTokenAddress e (syms ! i) = None"
      then show "l ! i = zero_balance (syms ! i) (Error (''Unsupported token: '' @ syms ! i))"
        using b getTokenBalance_unsupported[of "syms ! i" e st' addr] by simp
    next
      fix ta assume 1: "syms ! i \<noteq> ''ETH''" and 2: "getTokenAddress e (syms ! i) = Some ta"
      let ?st1 = "log_call (CallBalanceOf ta (target_address e addr)) st'"
      from getTokenBalance_supported[OF 1 2, of addr st'] b
      obtain d where d: "fst (getTokenDecimals e ?st1 (syms ! i)) = Inr d"
        "l ! i = (case formatUnits e (case erc20_balanceOf e ta (target_address e addr) of
                                         Inl err \<Rightarrow> 0 | Inr v \<Rightarrow> v) d of
                    Inl err \<Rightarrow> zero_balance (syms ! i) err
                  | Inr text \<Rightarrow>
                      balance_entry (syms ! i) text
                        (case erc20_balanceOf e ta (target_address e addr) of
                           Inl err \<Rightarrow> 0 | Inr v \<Rightarrow> v) d)"
        by auto
      have "\<forall>k x. cached_decimals st k = Some x \<longrightarrow> cached_decimals ?st1 k = Some x"
        using k by (simp add: cached_log_call)
      then show "\<exists>st' d. (\<forall>k x. cached_decimals st k = Some x \<longrightarrow>
                                          cached_decimals st' k = Some x)
                                \<and> fst (getTokenDecimals e st' (syms ! i)) = Inr d
                                \<and> l ! i =
                                    (case formatUnits e
                                            (case erc20_balanceOf e ta (target_address e addr) of
                                               Inl err \<Rightarrow> 0 | Inr v \<Rightarrow> v) d of
                                       Inl err \<Rightarrow> zero_balance (syms ! i) err
                                     | Inr text \<Rightarrow>
                                         balance_entry (syms ! i) text
                                           (case erc20_balanceOf e ta (target_address e addr) of
                                              Inl err \<Rightarrow> 0 | Inr v \<Rightarrow> v) d)"
        using d by blast
    qed
  qed
  show ?thesis using g tok props by blast
qed


lemma dropWhile_replicate_same: "dropWhile (\<lambda>c. c = x) (replicate n x) = []"
  by (induction n) auto

lemma show_nat_small: "n < 10 \<Longrightarrow> show_nat n = [char_of (48 + n)]"
  by (simp add: show_nat.simps)

lemma digit_chars: "char_of (48::nat) = CHR ''0''" "char_of (53::nat) = CHR ''5''"
  by code_simp+

lemma formatFixed_zero: "0 < d \<Longrightarrow> formatFixed 0 d = ''0.0''"
  by (simp add: formatFixed_def Let_def show_nat_small dropWhile_replicate_same digit_chars)

lemma formatFixed_five: "formatFixed 5000000000000000000 18 = ''5.0''"
  by (simp add: formatFixed_def Let_def show_nat_small dropWhile_replicate_same digit_chars)

lemma failing_reads_facts:
  "erc20_balanceOf failing_reads_env a w = Inl network_error"
  "getBalance failing_reads_env w = Inr 5000000000000000000"
  "wallet_address failing_reads_env = test_wallet"
  "formatUnits failing_reads_env v (Own n) = Inr (formatFixed v n)"
  "getTokenAddress failing_reads_env ''MTK'' = Some (Own ''0x0E4Dd0bA5a6f1bc0ffFE421dbB8E252dFF0C66f6'')"
  "target_address failing_reads_env None = test_wallet"
  by (simp_all add: failing_reads_env_def test_env_def getTokenAddress_def obj_get_def
      TOKEN_ADDRESSES_def target_address_def)

lemma cached_MTK:
  "TOKEN_DECIMALS st = TOKEN_DECIMALS_init \<Longrightarrow> cached_decimals st ''MTK'' = Some (Own 18)"
  by (simp add: cached_decimals_def obj_get_def TOKEN_DECIMALS_init_def)

lemma failing_reads_MTK:
  "getTokenBalance failing_reads_env init_state ''MTK'' None =
     (Inr \<lparr>bi_token = ''MTK'', bi_balance = ''0.0'', bi_balanceRaw = Some 0,
           bi_decimals = Some (Own 18), bi_error = None, bi_network = ''testnet''\<rparr>,
      log_call (CallBalanceOf (Own ''0x0E4Dd0bA5a6f1bc0ffFE421dbB8E252dFF0C66f6'') test_wallet)
        init_state)"
proof -
  let ?st1 = "log_call (CallBalanceOf (Own ''0x0E4Dd0bA5a6f1bc0ffFE421dbB8E252dFF0C66f6'') test_wallet)
                init_state"
  have "cached_decimals ?st1 ''MTK'' = Some (Own 18)"
    by (rule cached_MTK) (simp add: log_call_def init_state_def)
  then have d: "getTokenDecimals failing_reads_env ?st1 ''MTK'' = (Inr (Own 18), ?st1)"
    by (rule getTokenDecimals_cached)
  show ?thesis
    using d failing_reads_facts
    by (simp add: getTokenBalance_def getTokenBalance_try_def Let_def formatFixed_zero
        balance_entry_def)
qed

text \<open>
  Claim C8 as stated fails when the balance read of a token contract fails: the entry
  reports a zero balance and no error.
\<close>

theorem balance_read_failure_counterexample:
  "erc20_balanceOf failing_reads_env (Own ''0x0E4Dd0bA5a6f1bc0ffFE421dbB8E252dFF0C66f6'') test_wallet =
     Inl network_error
   \<and> fst (getTokenBalance failing_reads_env init_state ''MTK'' None) =
     Inr \<lparr>bi_token = ''MTK'', bi_balance = ''0.0'', bi_balanceRaw = Some 0,
          bi_decimals = Some (Own 18), bi_error = None, bi_network = ''testnet''\<rparr>"
  using failing_reads_MTK failing_reads_facts(1) by simp

lemma failing_native_facts:
  "getBalance failing_native_env w = Inl network_error"
  "getTokenAddress failing_native_env ''FOO'' = None"
  "target_address failing_native_env None = test_wallet"
  "getTokenAddress failing_native_env ''constructor'' = Some (Inherited ''constructor'')"
  "formatUnits failing_native_env v (Inherited k) = Inl invalid_decimals"
  "erc20_balanceOf failing_native_env (Inherited k) w = Inl invalid_contract"
  by (simp_all add: failing_native_env_def test_env_def getTokenAddress_def obj_get_def
      OBJECT_PROTOTYPE_def TOKEN_ADDRESSES_def target_address_def)

lemma cached_constructor:
  "cached_decimals init_state ''constructor'' = Some (Inherited ''constructor'')"
  by (simp add: cached_decimals_def obj_get_def OBJECT_PROTOTYPE_def init_state_def
      TOKEN_DECIMALS_init_def)

theorem balance_never_throws_witness:
  "fst (getTokenBalance failing_native_env init_state ''ETH'' None) =
     Inr (zero_balance ''ETH'' network_error)
   \<and> fst (getTokenBalance failing_native_env init_state ''FOO'' None) =
     Inr (zero_balance ''FOO'' (Error ''Unsupported token: FOO''))
   \<and> fst (getTokenBalance failing_native_env init_state ''constructor'' None) =
     Inr (zero_balance ''constructor'' invalid_decimals)
   \<and> (\<exists>l. fst (getBalances failing_native_env init_state None None) = Inr l \<and> length l = 5)"
proof -
  have ne: "''FOO'' \<noteq> ''ETH''" "''constructor'' \<noteq> ''ETH''" by simp_all
  have a: "fst (getTokenBalance failing_native_env init_state ''ETH'' None) =
     Inr (zero_balance ''ETH'' network_error)"
    using balance_never_throws[where e = failing_native_env and st = init_state
        and s = "''ETH''" and addr = None, THEN conjunct1] failing_native_facts(1)
    by auto
  have b: "fst (getTokenBalance failing_native_env init_state ''FOO'' None) =
     Inr (zero_balance ''FOO'' (Error ''Unsupported token: FOO''))"
    using balance_never_throws[where e = failing_native_env and st = init_state
        and s = "''FOO''" and addr = None, THEN conjunct1] failing_native_facts(2) ne
    by auto
  let ?st1 = "log_call (CallBalanceOf (Inherited ''constructor'') test_wallet) init_state"
  have "cached_decimals ?st1 ''constructor'' = Some (Inherited ''constructor'')"
    by (simp add: cached_log_call cached_constructor)
  then have d: "getTokenDecimals failing_native_env ?st1 ''constructor'' =
                  (Inr (Inherited ''constructor''), ?st1)"
    by (rule getTokenDecimals_cached)
  obtain x where x: "fst (getTokenBalance failing_native_env init_state ''constructor'' None) = Inr x"
    and xs: "''constructor'' \<noteq> ''ETH'' \<longrightarrow>
             (\<forall>ta. getTokenAddress failing_native_env ''constructor'' = Some ta \<longrightarrow>
                (\<exists>d. fst (getTokenDecimals failing_native_env
                             (log_call (CallBalanceOf ta (target_address failing_native_env None))
                                init_state) ''constructor'') = Inr d
                     \<and> x = (case formatUnits failing_native_env
                                   (case erc20_balanceOf failing_native_env ta
                                           (target_address failing_native_env None) of
                                      Inl err \<Rightarrow> 0 | Inr v \<Rightarrow> v) d of
                              Inl err \<Rightarrow> zero_balance ''constructor'' err
                            | Inr text \<Rightarrow>
                                balance_entry ''constructor'' text
                                  (case erc20_balanceOf failing_native_env ta
                                          (target_address failing_native_env None) of
                                     Inl err \<Rightarrow> 0 | Inr v \<Rightarrow> v) d)))"
    using balance_never_throws[where e = failing_native_env and st = init_state
        and s = "''constructor''" and addr = None, THEN conjunct1] by blast
  have "x = zero_balance ''constructor'' invalid_decimals"
    using xs[rule_format, OF ne(2) failing_native_facts(4)] d failing_native_facts(3,5)
    by auto
  with x have k: "fst (getTokenBalance failing_native_env init_state ''constructor'' None) =
     Inr (zero_balance ''constructor'' invalid_decimals)" by simp
  have c: "\<exists>l. fst (getBalances failing_native_env init_state None None) = Inr l \<and> length l = 5"
    using balance_never_throws[where e = failing_native_env and st = init_state
        and tokenSymbols = None and addr = None, THEN conjunct2]
    by (simp add: eval_nat_numeral)
  show ?thesis using a b k c by (intro conjI)
qed

theorem balances_in_order_witness:
  "\<exists>l. fst (getBalances failing_native_env init_state (Some [''ETH'', ''FOO'', ''constructor'']) None)
         = Inr l
       \<and> l = [zero_balance ''ETH'' network_error,
              zero_balance ''FOO'' (Error ''Unsupported token: FOO''),
              zero_balance ''constructor'' invalid_decimals]"
proof -
  let ?syms = "[''ETH'', ''FOO'', ''constructor'']"
  let ?e = failing_native_env
  obtain l where l: "fst (getBalances ?e init_state (Some ?syms) None) = Inr l"
    and t: "map bi_token l = ?syms"
    and p: "\<forall>i<length ?syms.
                 (?syms ! i = ''ETH'' \<longrightarrow>
                    (\<forall>err. getBalance ?e test_wallet = Inl err \<longrightarrow> l ! i = zero_balance ''ETH'' err)
                    \<and> (\<forall>wei. getBalance ?e test_wallet = Inr wei \<longrightarrow>
                          l ! i = (case formatUnits ?e wei (Own 18) of
                                     Inl err \<Rightarrow> zero_balance ''ETH'' err
                                   | Inr text \<Rightarrow> balance_entry ''ETH'' text wei (Own 18))))
                 \<and> (?syms ! i \<noteq> ''ETH'' \<and> getTokenAddress ?e (?syms ! i) = None \<longrightarrow>
                      l ! i = zero_balance (?syms ! i) (Error (''Unsupported token: '' @ ?syms ! i)))
                 \<and> (?syms ! i \<noteq> ''ETH'' \<longrightarrow>
                      (\<forall>ta. getTokenAddress ?e (?syms ! i) = Some ta \<longrightarrow>
                         (\<exists>st' d. (\<forall>k x. cached_decimals init_state k = Some x \<longrightarrow>
                                          cached_decimals st' k = Some x)
                                \<and> fst (getTokenDecimals ?e st' (?syms ! i)) = Inr d
                                \<and> l ! i =
                                    (case formatUnits ?e
                                            (case erc20_balanceOf ?e ta test_wallet of
                                               Inl err \<Rightarrow> 0 | Inr v \<Rightarrow> v) d of
                                       Inl err \<Rightarrow> zero_balance (?syms ! i) err
                                     | Inr text \<Rightarrow>
                                         balance_entry (?syms ! i) text
                                           (case erc20_balanceOf ?e ta test_wallet of
                                              Inl err \<Rightarrow> 0 | Inr v \<Rightarrow> v) d))))"
    using balances_in_order[where e = ?e and st = init_state
        and tokenSymbols = "Some ?syms" and addr = None
        and syms = ?syms and tgt = test_wallet]
      failing_native_facts(3)
    by auto
  have len: "length l = 3" using arg_cong[OF t, of length] by simp
  have l0: "l ! 0 = zero_balance ''ETH'' network_error"
    using p[rule_format, of 0] failing_native_facts(1) by simp
  have l1: "l ! 1 = zero_balance ''FOO'' (Error ''Unsupported token: FOO'')"
    using p[rule_format, of 1] failing_native_facts(2) by simp
  have "\<exists>st' d. (\<forall>k x. cached_decimals init_state k = Some x \<longrightarrow> cached_decimals st' k = Some x)
              \<and> fst (getTokenDecimals ?e st' ''constructor'') = Inr d
              \<and> l ! 2 = (case formatUnits ?e
                               (case erc20_balanceOf ?e (Inherited ''constructor'') test_wallet of
                                  Inl err \<Rightarrow> 0 | Inr v \<Rightarrow> v) d of
                          Inl err \<Rightarrow> zero_balance (?syms ! 2) err
                        | Inr text \<Rightarrow>
                            balance_entry (?syms ! 2) text
                              (case erc20_balanceOf ?e (Inherited ''constructor'') test_wallet of
                                 Inl err \<Rightarrow> 0 | Inr v \<Rightarrow> v) d)"
    using p[rule_format, of 2] failing_native_facts(4) by simp
  then obtain st' d where k: "cached_decimals st' ''constructor'' = Some (Inherited ''constructor'')"
    and d: "fst (getTokenDecimals ?e st' ''constructor'') = Inr d"
    and e2: "l ! 2 = (case formatUnits ?e
                               (case erc20_balanceOf ?e (Inherited ''constructor'') test_wallet of
                                  Inl err \<Rightarrow> 0 | Inr v \<Rightarrow> v) d of
                          Inl err \<Rightarrow> zero_balance (?syms ! 2) err
                        | Inr text \<Rightarrow>
                            balance_entry (?syms ! 2) text
                              (case erc20_balanceOf ?e (Inherited ''constructor'') test_wallet of
                                 Inl err \<Rightarrow> 0 | Inr v \<Rightarrow> v) d)"
    using cached_constructor by blast
  have "d = Inherited ''constructor''"
    using d getTokenDecimals_cached[OF k, of ?e] by simp
  then have l2: "l ! 2 = zero_balance ''constructor'' invalid_decimals"
    using e2 failing_native_facts(5) by simp
  have "l = [l ! 0, l ! 1, l ! 2]"
    using len by (intro nth_equalityI) (auto simp: less_Suc_eq numeral_3_eq_3 numeral_2_eq_2)
  then show ?thesis using l l0 l1 l2 by simp
qed

text \<open>
  Claim C10 as stated fails on the request for ETH and MTK when the balance read of the
  MTK contract fails: the entry of MTK is a zero balance that carries no error message.
\<close>

theorem balances_read_failure_counterexample:
  "erc20_balanceOf failing_reads_env (Own ''0x0E4Dd0bA5a6f1bc0ffFE421dbB8E252dFF0C66f6'') test_wallet =
     Inl network_error
   \<and> fst (getBalances failing_reads_env init_state (Some [''ETH'', ''MTK'']) None) =
     Inr [\<lparr>bi_token = ''ETH'', bi_balance = ''5.0'', bi_balanceRaw = Some 5000000000000000000,
           bi_decimals = Some (Own 18), bi_error = None, bi_network = ''testnet''\<rparr>,
          \<lparr>bi_token = ''MTK'', bi_balance = ''0.0'', bi_balanceRaw = Some 0,
           bi_decimals = Some (Own 18), bi_error = None, bi_network = ''testnet''\<rparr>]"
proof -
  let ?st1 = "log_call (CallGetBalance test_wallet) init_state"
  let ?st2 = "log_call (CallBalanceOf (Own ''0x0E4Dd0bA5a6f1bc0ffFE421dbB8E252dFF0C66f6'') test_wallet) ?st1"
  have e: "getTokenBalance failing_reads_env init_state ''ETH'' None =
     (Inr \<lparr>bi_token = ''ETH'', bi_balance = ''5.0'', bi_balanceRaw = Some 5000000000000000000,
           bi_decimals = Some (Own 18), bi_error = None, bi_network = ''testnet''\<rparr>, ?st1)"
    using failing_reads_facts
    by (simp add: getTokenBalance_def getTokenBalance_try_def Let_def formatFixed_five
        balance_entry_def)
  have "cached_decimals ?st2 ''MTK'' = Some (Own 18)"
    by (rule cached_MTK) (simp add: log_call_def init_state_def)
  then have d: "getTokenDecimals failing_reads_env ?st2 ''MTK'' = (Inr (Own 18), ?st2)"
    by (rule getTokenDecimals_cached)
  have m: "getTokenBalance failing_reads_env ?st1 ''MTK'' None =
     (Inr \<lparr>bi_token = ''MTK'', bi_balance = ''0.0'', bi_balanceRaw = Some 0,
           bi_decimals = Some (Own 18), bi_error = None, bi_network = ''testnet''\<rparr>, ?st2)"
    using d failing_reads_facts
    by (simp add: getTokenBalance_def getTokenBalance_try_def Let_def formatFixed_zero
        balance_entry_def)
  show ?thesis
    using e m failing_reads_facts(1) by (simp add: getBalances_def)
qed


section \<open>Properties of the contact directory\<close>


lemma code_char_of: "n < 256 \<Longrightarrow> code (char_of n) = n"
  by (simp add: code_def)

lemma code_less: "code c < 256"
  by (simp add: code_def)

lemma lowerChar_idem: "lowerChar (lowerChar c) = lowerChar c"
  by (auto simp: lowerChar_def isUpper_def code_char_of)

lemma isSpace_lowerChar: "isSpace (lowerChar c) = isSpace c"
  by (auto simp: lowerChar_def isUpper_def isSpace_def code_char_of)

lemma toLowerCase_idem: "toLowerCase (toLowerCase s) = toLowerCase s"
  by (simp add: toLowerCase_def lowerChar_idem)

lemma dropWhile_space_lower:
  "dropWhile isSpace (map lowerChar s) = map lowerChar (dropWhile isSpace s)"
  by (induction s) (auto simp: isSpace_lowerChar)

lemma trim_toLowerCase: "trim (toLowerCase s) = toLowerCase (trim s)"
  by (simp add: trim_def toLowerCase_def dropWhile_space_lower rev_map)

lemma stored_name_fixed:
  "toLowerCase (trim (toLowerCase s)) = trim (toLowerCase s)"
  "trim (trim (toLowerCase s)) = trim (toLowerCase s)"
  by (simp_all add: trim_toLowerCase toLowerCase_idem trim_trim)

lemma address_pattern_nonempty: "regex_test False ADDRESS_PATTERN addr \<Longrightarrow> addr \<noteq> []"
proof
  assume "regex_test False ADDRESS_PATTERN addr" "addr = []"
  moreover have "\<not> regex_test False ADDRESS_PATTERN []" by code_simp
  ultimately show False by simp
qed

lemma create_Inr:
  assumes "create dir nm addr = (Inr doc, dir1)"
  shows "doc = \<lparr>cid = next_id dir, name = trim (toLowerCase nm), address = addr\<rparr>"
    and "dir1 = \<lparr>docs = docs dir @ [doc], next_id = Suc (next_id dir)\<rparr>"
    and "\<not> list_ex (\<lambda>d. name d = trim (toLowerCase nm)) (docs dir)"
    and "trim (toLowerCase nm) \<noteq> []"
    and "regex_test False ADDRESS_PATTERN addr"
  using assms
  by (auto simp: create_def save_def Let_def validate_contact_def
      split: if_splits prod.splits sum.splits js_error.splits)

lemma find_append:
  "find P (xs @ ys) = (case find P xs of None \<Rightarrow> find P ys | Some x \<Rightarrow> Some x)"
  by (induction xs) auto

lemma find_absent: "\<not> list_ex P xs \<Longrightarrow> find P xs = None"
  by (simp add: find_None_iff list_ex_iff)

text \<open>
  Claim C9, amended. After a contact has been inserted, the insertion of a contact whose
  name is the same once lower-cased and trimmed always fails and leaves the directory as
  it was; the directory holds exactly one record under that name, the first contact as
  it was stored. The failure is the duplicate-name error
  \<^verbatim>\<open>Contact with name "..." already exists\<close> when the address of the second contact
  has the address format, and the rejection of the address by the validation of the
  schema otherwise.
\<close>

theorem duplicate_insert_rejected:
  assumes "create dir name1 addr1 = (Inr doc1, dir1)"
    and "trim (toLowerCase name2) = trim (toLowerCase name1)"
  shows "create dir1 name2 addr2 =
           (Inl (if regex_test False ADDRESS_PATTERN addr2
                 then Error (''Contact with name '' @ dquote @ name2 @ dquote @ '' already exists'')
                 else ValidationError [''address'']), dir1)
       \<and> filter (\<lambda>d. name d = trim (toLowerCase name1)) (docs dir1) = [doc1]
       \<and> doc1 = \<lparr>cid = next_id dir, name = trim (toLowerCase name1), address = addr1\<rparr>"
proof -
  note c = create_Inr[OF assms(1)]
  have ex: "list_ex (\<lambda>d. name d = trim (toLowerCase name2)) (docs dir1)"
    using c(1,2) assms(2) by (simp add: list_ex_iff)
  have v: "validate_contact (trim (toLowerCase name2)) addr2 =
             (if regex_test False ADDRESS_PATTERN addr2 then [] else [''address''])"
    using c(4) assms(2) address_pattern_nonempty[of addr2] by (auto simp: validate_contact_def)
  have 1: "create dir1 name2 addr2 =
           (Inl (if regex_test False ADDRESS_PATTERN addr2
                 then Error (''Contact with name '' @ dquote @ name2 @ dquote @ '' already exists'')
                 else ValidationError [''address'']), dir1)"
    using ex v by (simp add: create_def save_def Let_def)
  have "filter (\<lambda>d. name d = trim (toLowerCase name1)) (docs dir) = []"
    using c(3) by (simp add: list_ex_iff filter_empty_conv)
  then have 2: "filter (\<lambda>d. name d = trim (toLowerCase name1)) (docs dir1) = [doc1]"
    using c(1,2) by simp
  show ?thesis using 1 2 c(1) by simp
qed

text \<open>
  Claim C6, amended. For every contact that is inserted and whose stored name (the name
  lower-cased and trimmed) is made of word characters and white space only,
  \<open>findByName\<close> applied to the stored name returns that contact, and so does
  \<open>findByName\<close> applied to any text that differs from the stored name in letter case
  only.
\<close>

theorem directory_round_trip:
  assumes "create dir nm addr = (Inr doc, dir1)"
    and "list_all (\<lambda>c. isWordChar c \<or> isSpace c) (name doc)"
  shows "findByName dir1 (name doc) = Some doc
       \<and> (\<forall>v. toLowerCase v = name doc \<longrightarrow> findByName dir1 v = Some doc)"
proof -
  note c = create_Inr[OF assms(1)]
  have n: "name doc = trim (toLowerCase nm)" using c(1) by simp
  have f: "filter (\<lambda>c. isWordChar c \<or> isSpace c) (name doc) = name doc"
    using assms(2) by (simp add: list_all_iff)
  have look: "findByName dir1 v = Some doc" if "toLowerCase v = name doc" for v
  proof -
    have "filter (\<lambda>c. isWordChar c \<or> isSpace c) (trim (toLowerCase v)) = name doc"
      using that f n by (simp add: stored_name_fixed)
    moreover have "trim (toLowerCase (name doc)) = name doc"
      using n by (simp add: stored_name_fixed)
    moreover have "find (\<lambda>d. name d = name doc) (docs dir1) = Some doc"
      using c(2,3) n by (simp add: find_append find_absent)
    ultimately show ?thesis by (simp add: findByName_def Let_def)
  qed
  moreover have "toLowerCase (name doc) = name doc" using n by (simp add: stored_name_fixed)
  ultimately show ?thesis by blast
qed

lemma create_alice:
  "create empty_directory ''  Alice '' test_address = (Inr alice_doc, \<lparr>docs = [alice_doc], next_id = 1\<rparr>)"
  by code_simp

lemma create_bob:
  "create empty_directory ''Bob-Smith'' test_address = (Inr bob_doc, \<lparr>docs = [bob_doc], next_id = 1\<rparr>)"
  by code_simp

theorem directory_round_trip_witness:
  "create empty_directory ''  Alice '' test_address = (Inr alice_doc, \<lparr>docs = [alice_doc], next_id = 1\<rparr>)
   \<and> findByName \<lparr>docs = [alice_doc], next_id = 1\<rparr> ''alice'' = Some alice_doc
   \<and> findByName \<lparr>docs = [alice_doc], next_id = 1\<rparr> ''ALICE'' = Some alice_doc"
proof -
  have w: "list_all (\<lambda>c. isWordChar c \<or> isSpace c) (name alice_doc)" by code_simp
  have n: "name alice_doc = ''alice''" by (simp add: alice_doc_def)
  have u: "toLowerCase ''ALICE'' = ''alice''" by code_simp
  show ?thesis
    using directory_round_trip[OF create_alice w] n u create_alice by simp
qed

text \<open>
  Claim C6 as stated fails for a name with a punctuation character: the contact is
  stored under \<^verbatim>\<open>bob-smith\<close>, the lookup strips the hyphen from what it is given and
  finds nothing, for the stored name and for a variant in another letter case.
\<close>

theorem directory_punctuation_counterexample:
  "create empty_directory ''Bob-Smith'' test_address = (Inr bob_doc, \<lparr>docs = [bob_doc], next_id = 1\<rparr>)
   \<and> name bob_doc = ''bob-smith''
   \<and> findByName \<lparr>docs = [bob_doc], next_id = 1\<rparr> ''bob-smith'' = None
   \<and> findByName \<lparr>docs = [bob_doc], next_id = 1\<rparr> ''Bob-Smith'' = None"
  by code_simp

theorem duplicate_insert_rejected_witness:
  "create empty_directory ''  Alice '' test_address = (Inr alice_doc, \<lparr>docs = [alice_doc], next_id = 1\<rparr>)
   \<and> create \<lparr>docs = [alice_doc], next_id = 1\<rparr> ''ALICE'' test_wallet =
       (Inl (Error (''Contact with name '' @ dquote @ ''ALICE'' @ dquote @ '' already exists'')),
        \<lparr>docs = [alice_doc], next_id = 1\<rparr>)
   \<and> create \<lparr>docs = [alice_doc], next_id = 1\<rparr> ''ALICE'' ''0x12'' =
       (Inl (ValidationError [''address'']), \<lparr>docs = [alice_doc], next_id = 1\<rparr>)
   \<and> filter (\<lambda>d. name d = ''alice'') [alice_doc] = [alice_doc]"
proof -
  have n: "trim (toLowerCase ''ALICE'') = trim (toLowerCase ''  Alice '')" by code_simp
  have n': "trim (toLowerCase ''  Alice '') = ''alice''" by code_simp
  have a: "regex_test False ADDRESS_PATTERN test_wallet" by code_simp
  have b: "\<not> regex_test False ADDRESS_PATTERN ''0x12''" by code_simp
  show ?thesis
    using duplicate_insert_rejected[OF create_alice n, of test_wallet]
      duplicate_insert_rejected[OF create_alice n, of "''0x12''"] create_alice n' a b
    by simp
qed

text \<open>
  Claim C9 as stated fails when the address of the second contact does not have the
  address format: the names are the same once lower-cased and trimmed, and the second
  insertion fails with the rejection of the address, not with the duplicate-name error.
\<close>

theorem duplicate_insert_invalid_address_counterexample:
  "create empty_directory ''  Alice '' test_address = (Inr alice_doc, \<lparr>docs = [alice_doc], next_id = 1\<rparr>)
   \<and> trim (toLowerCase ''ALICE'') = trim (toLowerCase ''  Alice '')
   \<and> create \<lparr>docs = [alice_doc], next_id = 1\<rparr> ''ALICE'' ''0x12'' =
       (Inl (ValidationError [''address'']), \<lparr>docs = [alice_doc], next_id = 1\<rparr>)
   \<and> create \<lparr>docs = [alice_doc], next_id = 1\<rparr> ''ALICE'' ''0x12'' \<noteq>
       (Inl (Error (''Contact with name '' @ dquote @ ''ALICE'' @ dquote @ '' already exists'')),
        \<lparr>docs = [alice_doc], next_id = 1\<rparr>)"
  by code_simp


section \<open>Properties of the command execution\<close>


lemma try_down_None:
  "(\<And>i. k (p + i, drop i s, c) = None) \<Longrightarrow> try_down k (p, s, c) lo m = None"
proof (induction m)
  case 0
  then show ?case using "0"[of 0] by simp
next
  case (Suc m)
  have "k (p + Suc m, drop (Suc m) s, c) = None" by (rule Suc.prems)
  moreover have "try_down k (p, s, c) lo m = None" by (rule Suc.IH) (rule Suc.prems)
  ultimately show ?case by simp
qed

lemma rmatch_Rep_None:
  "(\<And>i. k (p + i, drop i s, c) = None) \<Longrightarrow> rmatch icase (Rep cl lo hi) k (p, s, c) = None"
  by (simp add: try_down_None Let_def)

lemma rmatch_Lit_None:
  "(\<And>p'. k (p', drop (length l) s, c) = None) \<Longrightarrow> rmatch icase (Lit l) k (p, s, c) = None"
  by simp

lemma no_digit_group_None:
  assumes "list_all (\<lambda>x. \<not> isDigit x) s"
  shows "rmatch icase (Grp i (Seq (plus Digit) x)) k (p, s, c) = None"
proof -
  have "takeWhile isDigit s = []" using assms by (cases s) auto
  then show ?thesis by (simp add: plus_def)
qed

lemma no_digit_drop:
  "list_all (\<lambda>x. \<not> isDigit x) s \<Longrightarrow> list_all (\<lambda>x. \<not> isDigit x) (drop n s)"
  by (auto simp: list_all_iff dest: in_set_dropD)

lemma SEND_tail_no_digit:
  assumes "list_all (\<lambda>x. \<not> isDigit x) s"
  shows "rmatch True SEND_tail k (p, s, c) = None"
  unfolding SEND_tail_def seqs.simps rmatch_Seq plus_def
  by (intro rmatch_Lit_None rmatch_Rep_None no_digit_group_None[unfolded plus_def]
      no_digit_drop assms)

lemma exec_SEND_tail_no_digit:
  "list_all (\<lambda>x. \<not> isDigit x) s \<Longrightarrow> exec_from True SEND_tail p s = None"
  by (induction s arbitrary: p) (simp_all add: SEND_tail_no_digit del: rmatch.simps)

lemma app_parse_no_digit:
  "list_all (\<lambda>x. \<not> isDigit x) command \<Longrightarrow> app_parseCommand command = Inr None"
  by (simp add: app_parseCommand_def str_match_def exec_SEND_tail_no_digit)


lemma upperChar_letter: "isAlpha p \<Longrightarrow> upperChar p = upperChar c \<Longrightarrow> isAlpha c"
  by (auto simp: upperChar_def isAlpha_def isUpper_def isLower_def code_char_of split: if_splits)

lemma alpha_not_digit: "isAlpha c \<Longrightarrow> \<not> isDigit c"
  by (auto simp: isAlpha_def isUpper_def isLower_def isDigit_def)

lemma lit_prefix_letters:
  "lit_prefix True l s \<Longrightarrow> list_all isAlpha l \<Longrightarrow>
     length l \<le> length s \<and> list_all (\<lambda>x. \<not> isDigit x) (take (length l) s)"
proof (induction l arbitrary: s)
  case Nil
  then show ?case by simp
next
  case (Cons p ps)
  then obtain c cs where s: "s = c # cs" by (cases s) auto
  with Cons.prems have "lit_eq True p c" "lit_prefix True ps cs" "isAlpha p" "list_all isAlpha ps"
    by auto
  moreover from this have "\<not> isDigit c"
    by (auto simp: lit_eq_def dest: upperChar_letter alpha_not_digit)
  ultimately show ?case using Cons.IH[of cs] s by simp
qed

lemma take_takeWhile_class:
  assumes "i \<le> length (takeWhile P s)"
  shows "list_all P (take i s)"
proof -
  have "take i s = take i (takeWhile P s)"
    using assms
    by (metis append_eq_conv_conj takeWhile_dropWhile_id min.absorb2 take_take min.commute)
  then show ?thesis
    by (auto simp: list_all_iff dest: in_set_takeD set_takeWhileD)
qed

lemma rmatch_letters_only:
  "letters_only re \<Longrightarrow> rmatch True re k (p, s, c) = Some r \<Longrightarrow>
     \<exists>n c'. n \<le> length s \<and> k (p + n, drop n s, c') = Some r
            \<and> list_all (\<lambda>x. \<not> isDigit x) (take n s) \<and> (to_end re \<longrightarrow> drop n s = [])"
proof (induction re arbitrary: k p s c)
  case Bol
  then have "k (p + 0, drop 0 s, c) = Some r" by (auto split: if_splits)
  then show ?case by (intro exI[of _ 0] exI[of _ c]) simp
next
  case Eol
  then have "k (p + 0, drop 0 s, c) = Some r" "s = []" by (auto split: if_splits)
  then show ?case by (intro exI[of _ 0] exI[of _ c]) simp
next
  case (Lit l)
  then have pre: "lit_prefix True l s" and k: "k (p + length l, drop (length l) s, c) = Some r"
    by (auto split: if_splits)
  from lit_prefix_letters[OF pre] Lit.prems(1) k show ?case
    by (intro exI[of _ "length l"] exI[of _ c]) simp
next
  case (Rep cl lo hi)
  let ?n = "length (takeWhile (in_class cl) s)"
  let ?m = "case hi of None \<Rightarrow> ?n | Some h \<Rightarrow> min h ?n"
  from Rep.prems(2) have "try_down k (p, s, c) lo ?m = Some r" by (simp add: Let_def)
  from try_down_cases[OF this] obtain i where i: "i \<le> ?m" "k (p + i, drop i s, c) = Some r"
    by blast
  have m: "?m \<le> ?n" by (cases hi) auto
  have "list_all (in_class cl) (take i s)"
    by (rule take_takeWhile_class) (use i m in simp)
  moreover have "in_class cl x \<Longrightarrow> \<not> isDigit x" for x
    using Rep.prems(1) by (auto dest: space_not_digit alpha_not_digit)
  ultimately have "list_all (\<lambda>x. \<not> isDigit x) (take i s)" by (auto simp: list_all_iff)
  moreover have "i \<le> length s" using i(1) m length_takeWhile_le[of "in_class cl" s] by simp
  ultimately show ?case using i(2) by (intro exI[of _ i] exI[of _ c]) simp
next
  case (Seq a b)
  from Seq.prems have "rmatch True a (rmatch True b k) (p, s, c) = Some r" "letters_only a"
    "letters_only b" by simp_all
  from Seq.IH(1)[OF this(2) this(1)] obtain n1 c1 where 1: "n1 \<le> length s"
    "rmatch True b k (p + n1, drop n1 s, c1) = Some r"
    "list_all (\<lambda>x. \<not> isDigit x) (take n1 s)" "to_end a \<longrightarrow> drop n1 s = []" by blast
  from Seq.IH(2)[OF \<open>letters_only b\<close> 1(2)] obtain n2 c2 where 2: "n2 \<le> length (drop n1 s)"
    "k (p + n1 + n2, drop n2 (drop n1 s), c2) = Some r"
    "list_all (\<lambda>x. \<not> isDigit x) (take n2 (drop n1 s))" "to_end b \<longrightarrow> drop n2 (drop n1 s) = []"
    by blast
  have t: "take (n1 + n2) s = take n1 s @ take n2 (drop n1 s)" by (simp add: take_add)
  have "n1 + n2 \<le> length s" using 1(1) 2(1) by simp
  moreover have "k (p + (n1 + n2), drop (n1 + n2) s, c2) = Some r"
    using 2(2) by (simp add: add.assoc add.commute[of n1 n2])
  moreover have "list_all (\<lambda>x. \<not> isDigit x) (take (n1 + n2) s)"
    using 1(3) 2(3) t by simp
  moreover have "to_end (Seq a b) \<longrightarrow> drop (n1 + n2) s = []"
    using 1(4) 2(4) 1(1) 2(1) by (auto simp: add.commute[of n1 n2])
  ultimately show ?case by blast
next
  case (Alt a b)
  show ?case
  proof (cases "rmatch True a k (p, s, c)")
    case None
    with Alt.prems have "rmatch True b k (p, s, c) = Some r" "letters_only b" by simp_all
    from Alt.IH(2)[OF this(2) this(1)] show ?thesis by auto
  next
    case (Some x)
    with Alt.prems have "rmatch True a k (p, s, c) = Some r" "letters_only a" by simp_all
    from Alt.IH(1)[OF this(2) this(1)] show ?thesis by auto
  qed
next
  case (Opt a)
  show ?case
  proof (cases "rmatch True a k (p, s, c)")
    case None
    with Opt.prems have "k (p + 0, drop 0 s, c) = Some r" by simp
    then show ?thesis by (intro exI[of _ 0] exI[of _ c]) simp
  next
    case (Some x)
    with Opt.prems have "rmatch True a k (p, s, c) = Some r" "letters_only a" by simp_all
    from Opt.IH[OF this(2) this(1)] show ?thesis by auto
  qed
next
  case (Grp i a)
  let ?k = "\<lambda>(p', s', c'). k (p', s', (i, take (p' - p) s) # c')"
  from Grp.prems have "rmatch True a ?k (p, s, c) = Some r" "letters_only a" by simp_all
  from Grp.IH[OF this(2) this(1)] obtain n c' where "n \<le> length s"
    "?k (p + n, drop n s, c') = Some r" "list_all (\<lambda>x. \<not> isDigit x) (take n s)"
    "to_end a \<longrightarrow> drop n s = []" by blast
  then show ?case by (intro exI[of _ n] exI[of _ "(i, take (p + n - p) s) # c'"]) simp
qed

lemma exec_from_Bol_later: "0 < p \<Longrightarrow> exec_from icase (Seq Bol re) p s = None"
  by (induction s arbitrary: p) auto

lemma str_match_Bol:
  "str_match icase (Seq Bol re) s = rmatch icase re (\<lambda>(p', s', c'). Some c') (0, s, [])"
  by (cases s) (auto simp: str_match_def exec_from_Bol_later split: option.splits)

lemma anchored_letters_no_digit:
  assumes "letters_only re" "to_end re" "str_match True (Seq Bol re) s = Some m"
  shows "list_all (\<lambda>x. \<not> isDigit x) s"
proof -
  from assms(3) have "rmatch True re (\<lambda>(p', s', c'). Some c') (0, s, []) = Some m"
    by (simp add: str_match_Bol)
  from rmatch_letters_only[OF assms(1) this] assms(2)
  obtain n where "n \<le> length s" "list_all (\<lambda>x. \<not> isDigit x) (take n s)" "drop n s = []"
    by blast
  then show ?thesis by simp
qed

lemma CHECK_BALANCE_no_digit:
  "str_match True PATTERN_CHECK_BALANCE s = Some m \<Longrightarrow> list_all (\<lambda>x. \<not> isDigit x) s"
  unfolding PATTERN_CHECK_BALANCE_def seqs.simps
  by (rule anchored_letters_no_digit[rotated 2]) (simp_all add: plus_def star_def, code_simp+)

lemma LIST_CONTACTS_no_digit:
  "str_match True PATTERN_LIST_CONTACTS s = Some m \<Longrightarrow> list_all (\<lambda>x. \<not> isDigit x) s"
  unfolding PATTERN_LIST_CONTACTS_def seqs.simps
  by (rule anchored_letters_no_digit[rotated 2]) (simp_all add: plus_def star_def, code_simp+)


lemma space_no_digit_list: "list_all isSpace a \<Longrightarrow> list_all (\<lambda>x. \<not> isDigit x) a"
  by (auto simp: list_all_iff dest: space_not_digit)

lemma untrimmed_no_digit:
  assumes "list_all (\<lambda>x. \<not> isDigit x) (trim s)"
  shows "list_all (\<lambda>x. \<not> isDigit x) s"
proof -
  obtain a b where s: "s = a @ trim s @ b" and ab: "list_all isSpace a" "list_all isSpace b"
    using trim_decomp by blast
  have "list_all (\<lambda>x. \<not> isDigit x) (a @ trim s @ b)"
    using assms ab by (simp add: space_no_digit_list)
  then show ?thesis by (subst s)
qed

lemma balance_or_list_no_digit:
  assumes "parseCommand command = Inr (Some (CHECK_BALANCE t))
         \<or> parseCommand command = Inr (Some LIST_CONTACTS)"
  shows "command \<noteq> [] \<and> list_all (\<lambda>x. \<not> isDigit x) command"
proof -
  have ne: "command \<noteq> []" using assms by (auto simp: parseCommand_def)
  have "(\<exists>m. str_match True PATTERN_CHECK_BALANCE (trim command) = Some m)
      \<or> (\<exists>m. str_match True PATTERN_LIST_CONTACTS (trim command) = Some m)"
    using assms ne
    by (auto simp: parseCommand_def Let_def bind_err_def split: option.splits sum.splits)
  then have "list_all (\<lambda>x. \<not> isDigit x) (trim command)"
    using CHECK_BALANCE_no_digit LIST_CONTACTS_no_digit by blast
  then show ?thesis using ne untrimmed_no_digit by blast
qed

lemma try_down_None_upto:
  "(\<And>i. i \<le> m \<Longrightarrow> k (p + i, drop i s, c) = None) \<Longrightarrow> try_down k (p, s, c) lo m = None"
proof (induction m)
  case 0
  then show ?case using "0"[of 0] by simp
next
  case (Suc m)
  have "k (p + Suc m, drop (Suc m) s, c) = None" by (rule Suc.prems) simp
  moreover have "try_down k (p, s, c) lo m = None" by (rule Suc.IH) (rule Suc.prems, simp)
  ultimately show ?case by simp
qed

lemma digit_group_hd_None:
  assumes "s = [] \<or> \<not> isDigit (hd s)"
  shows "rmatch icase (Grp i (Seq (plus Digit) x)) k (p, s, c) = None"
proof -
  have "takeWhile isDigit s = []" using assms by (cases s) auto
  then show ?thesis by (simp add: plus_def)
qed

lemma spaces_then_digit_None:
  assumes "t \<noteq> []" "list_all (\<lambda>x. \<not> isDigit x) t" "\<not> isSpace (last t)"
  shows "rmatch icase (plus Space) (rmatch icase (Grp i (Seq (plus Digit) x)) k) (p, t @ u, c) = None"
proof -
  have ex: "last t \<in> set t" using assms(1) by simp
  have tw: "takeWhile isSpace (t @ u) = takeWhile isSpace t"
    using ex assms(3) by (rule takeWhile_append1)
  have "length (takeWhile isSpace t) + length (dropWhile isSpace t) = length t"
    by (metis length_append takeWhile_dropWhile_id)
  moreover have "dropWhile isSpace t \<noteq> []"
    using ex assms(3) by (auto simp: dropWhile_eq_Nil_conv)
  ultimately have n: "length (takeWhile isSpace t) < length t"
    by (cases "dropWhile isSpace t") auto
  have "rmatch icase (Grp i (Seq (plus Digit) x)) k (p + j, drop j (t @ u), c) = None"
    if "j \<le> length (takeWhile isSpace t)" for j
  proof (rule digit_group_hd_None)
    have j: "j < length t" using that n by simp
    then have "hd (drop j (t @ u)) = t ! j" by (simp add: hd_append hd_drop_conv_nth)
    moreover have "\<not> isDigit (t ! j)" using assms(2) j by (simp add: list_all_length)
    ultimately show "drop j (t @ u) = [] \<or> \<not> isDigit (hd (drop j (t @ u)))" by simp
  qed
  then show ?thesis
    unfolding plus_def by (simp add: tw try_down_None_upto del: rmatch.simps(8))
qed

lemma send_word:
  assumes "toUpperCase kw = ''SEND''"
  shows "length kw = 4" "list_all (\<lambda>x. \<not> isDigit x) kw" "\<not> isSpace (last kw)" "kw \<noteq> []"
proof -
  show l: "length kw = 4" using arg_cong[OF assms, of length] by (simp add: toUpperCase_def)
  then obtain a b c d where kw: "kw = [a, b, c, d]"
    by (auto simp: length_Suc_conv eval_nat_numeral)
  then have u: "upperChar a = CHR ''S''" "upperChar b = CHR ''E''" "upperChar c = CHR ''N''"
    "upperChar d = CHR ''D''"
    using assms by (simp_all add: toUpperCase_def)
  show "list_all (\<lambda>x. \<not> isDigit x) kw"
    using u kw
    by (auto simp: upperChar_def isDigit_def isLower_def code_def split: if_splits)
  show "\<not> isSpace (last kw)"
    using u kw
    by (auto simp: upperChar_def isSpace_def isLower_def code_def split: if_splits)
  show "kw \<noteq> []" using kw by simp
qed

lemma rmatch_Lit_then_None:
  "k (p + length l, drop (length l) s, c) = None \<Longrightarrow> rmatch icase (Lit l) k (p, s, c) = None"
  by simp

lemma SEND_tail_prefix_None:
  assumes pre: "list_all (\<lambda>x. \<not> isDigit x) pre" and kw: "toUpperCase kw = ''SEND''"
    and i: "i < length pre"
  shows "rmatch True SEND_tail k (p, drop i (pre @ kw @ u), c) = None"
proof -
  note w = send_word[OF kw]
  define t where "t = drop (i + 4) (pre @ kw)"
  have lt: "i + 4 < length (pre @ kw)" using i w(1) by simp
  have "drop 4 (drop i (pre @ kw @ u)) = drop (4 + i) ((pre @ kw) @ u)"
    by (simp only: drop_drop append_assoc)
  also have "\<dots> = drop (i + 4) (pre @ kw) @ drop (i + 4 - length (pre @ kw)) u"
    by (simp only: drop_append add.commute)
  also have "i + 4 - length (pre @ kw) = 0" using lt by simp
  finally have "drop 4 (drop i (pre @ kw @ u)) = t @ u" by (simp only: t_def drop0)
  moreover have "length ''send'' = 4" by simp
  ultimately have d: "drop (length ''send'') (drop i (pre @ kw @ u)) = t @ u" by (simp only:)
  have t1: "t \<noteq> []" using lt unfolding t_def by (simp del: drop_append length_append)
  have t2: "list_all (\<lambda>x. \<not> isDigit x) t"
    unfolding t_def by (rule no_digit_drop) (use pre w(2) in simp)
  have "last t = last (pre @ kw)"
    unfolding t_def by (rule last_drop) (use i w(1) in simp)
  then have t3: "\<not> isSpace (last t)" using w(3,4) by simp
  show ?thesis
    unfolding SEND_tail_def seqs.simps rmatch_Seq
    apply (rule rmatch_Lit_then_None)
    apply (simp only: d)
    apply (rule spaces_then_digit_None[OF t1 t2 t3])
    done
qed

lemma exec_from_skip:
  assumes "\<And>i. i < length pre \<Longrightarrow>
             rmatch icase re (\<lambda>(p', s', c'). Some c') (p + i, drop i (pre @ s), []) = None"
  shows "exec_from icase re p (pre @ s) = exec_from icase re (p + length pre) s"
  using assms
proof (induction pre arbitrary: p)
  case Nil
  show ?case by simp
next
  case (Cons x xs)
  have "rmatch icase re (\<lambda>(p', s', c'). Some c') (p, (x # xs) @ s, []) = None"
    using Cons.prems[of 0] by simp
  then have "exec_from icase re p ((x # xs) @ s) = exec_from icase re (Suc p) (xs @ s)" by simp
  also have "\<dots> = exec_from icase re (Suc p + length xs) s"
  proof (rule Cons.IH)
    fix i assume "i < length xs"
    then show "rmatch icase re (\<lambda>(p', s', c'). Some c') (Suc p + i, drop i (xs @ s), []) = None"
      using Cons.prems[of "Suc i"] by simp
  qed
  finally show ?case by simp
qed

lemma send_tail_match:
  assumes kw: "toUpperCase kw = ''SEND''" and kt: "toUpperCase kt = ''TO''"
    and w1: "w1 \<noteq> []" "list_all isSpace w1" and w2: "w2 \<noteq> []" "list_all isSpace w2"
    and w3: "w3 \<noteq> []" "list_all isSpace w3" and w4: "w4 \<noteq> []" "list_all isSpace w4"
    and am: "isDecimal amount"
    and tk: "token \<noteq> []" "list_all isAlpha token"
    and rc: "g \<noteq> []" "\<not> isSpace (hd g)" "list_all (\<lambda>c. \<not> isLineTerminator c) g"
    and rest: "rest = [] \<or> isLineTerminator (hd rest)"
  shows "rmatch True SEND_tail (\<lambda>(p', s', c'). Some c')
           (p, kw @ w1 @ amount @ w2 @ token @ w3 @ kt @ w4 @ g @ rest, [])
           = Some [(3, g), (2, token), (1, amount)]"
proof -
  let ?K9 = "rmatch True (Grp 3 (plus AnyChar)) (\<lambda>(p', s', c'). Some c')
               :: mstate \<Rightarrow> (nat \<times> string) list option"
  let ?K8 = "rmatch True (plus Space) ?K9"
  let ?K7 = "rmatch True (Lit ''to'') ?K8"
  let ?K6 = "rmatch True (plus Space) ?K7"
  let ?K5 = "rmatch True (Grp 2 (plus Alpha)) ?K6"
  let ?K4 = "rmatch True (plus Space) ?K5"
  let ?K3 = "rmatch True (Grp 1 (Seq (plus Digit) (Opt (Seq (Lit ''.'') (plus Digit))))) ?K4"
  let ?K2 = "rmatch True (plus Space) ?K3"
  let ?K1 = "rmatch True (Lit ''send'') ?K2"
  let ?r = "g @ rest"
  have hr: "?r \<noteq> []" "hd ?r = hd g" using rc(1) by simp_all
  have h3: "isSpace (hd w3)" using w3 by (auto simp: list_all_iff)
  have h2: "isSpace (hd w2)" using w2 by (auto simp: list_all_iff)
  have e9: "?K9 (p, ?r, c) = Some ((3, g) # c)" for p c
    by (rule rmatch_GrpI, rule rmatch_plus) (use rc rest in \<open>simp_all add: list_all_iff\<close>)
  have e8: "?K8 (p, w4 @ ?r, c) = Some ((3, g) # c)" for p c
    by (rule rmatch_plus) (use w4 rc hr e9 in \<open>simp_all del: rmatch.simps\<close>)
  have "?K7 (p, kt @ w4 @ ?r, c) = ?K8 (p + length ''to'', w4 @ ?r, c)" for p c
    by (rule rmatch_Lit, rule lit_eq_upper) (use kt in \<open>simp only: toUpperCase_def upper_to\<close>)
  then have e7: "?K7 (p, kt @ w4 @ ?r, c) = Some ((3, g) # c)" for p c
    using e8 by simp
  have hk: "kt \<noteq> []" "\<not> isSpace (hd kt)" "kw \<noteq> []"
    using kt kw by (auto simp: toUpperCase_def upperChar_def isSpace_def isLower_def code_def
        split: if_splits)
  have e6: "?K6 (p, w3 @ kt @ w4 @ ?r, c) = Some ((3, g) # c)" for p c
    by (rule rmatch_plus) (use w3 hk e7 in \<open>simp_all del: rmatch.simps\<close>)
  have e5: "?K5 (p, token @ w3 @ kt @ w4 @ ?r, c) = Some ((3, g) # (2, token) # c)" for p c
    by (rule rmatch_GrpI, rule rmatch_plus)
      (use tk w3 h3 e6 in \<open>simp_all del: rmatch.simps add: space_not_alpha\<close>)
  have e4: "?K4 (p, w2 @ token @ w3 @ kt @ w4 @ ?r, c) = Some ((3, g) # (2, token) # c)" for p c
    by (rule rmatch_plus)
      (use w2 tk e5 in \<open>auto simp del: rmatch.simps simp add: list_all_iff dest: space_not_alpha\<close>)
  have e3: "?K3 (p, amount @ w2 @ token @ w3 @ kt @ w4 @ ?r, c)
              = Some ((3, g) # (2, token) # (1, amount) # c)" for p c
    by (rule amount_group) (use am w2 h2 e4 in \<open>simp_all del: rmatch.simps\<close>)
  have ha: "amount \<noteq> []" "\<not> isSpace (hd amount)"
    using am by (auto simp: isDecimal_def Let_def takeWhile_eq_Nil_iff dest: space_not_digit)
  have e2: "?K2 (p, w1 @ amount @ w2 @ token @ w3 @ kt @ w4 @ ?r, c)
              = Some ((3, g) # (2, token) # (1, amount) # c)" for p c
    by (rule rmatch_plus) (use w1 ha e3 in \<open>simp_all del: rmatch.simps\<close>)
  have "?K1 (p, kw @ w1 @ amount @ w2 @ token @ w3 @ kt @ w4 @ ?r, c)
          = ?K2 (p + length ''send'', w1 @ amount @ w2 @ token @ w3 @ kt @ w4 @ ?r, c)" for p c
    by (rule rmatch_Lit, rule lit_eq_upper) (use kw in \<open>simp only: toUpperCase_def upper_send\<close>)
  then have e1: "?K1 (p, kw @ w1 @ amount @ w2 @ token @ w3 @ kt @ w4 @ ?r, c)
          = Some ((3, g) # (2, token) # (1, amount) # c)" for p c
    using e2 by simp
  show ?thesis
    unfolding SEND_tail_def seqs.simps rmatch_Seq
    using e1[of p "[]"] by simp
qed

lemma send_tail_found:
  assumes pre: "list_all (\<lambda>x. \<not> isDigit x) pre"
    and kw: "toUpperCase kw = ''SEND''" and kt: "toUpperCase kt = ''TO''"
    and w1: "w1 \<noteq> []" "list_all isSpace w1" and w2: "w2 \<noteq> []" "list_all isSpace w2"
    and w3: "w3 \<noteq> []" "list_all isSpace w3" and w4: "w4 \<noteq> []" "list_all isSpace w4"
    and am: "isDecimal amount"
    and tk: "token \<noteq> []" "list_all isAlpha token"
    and rc: "g \<noteq> []" "\<not> isSpace (hd g)" "list_all (\<lambda>c. \<not> isLineTerminator c) g"
    and rest: "rest = [] \<or> isLineTerminator (hd rest)"
  shows "str_match True SEND_tail (pre @ kw @ w1 @ amount @ w2 @ token @ w3 @ kt @ w4 @ g @ rest)
           = Some [(3, g), (2, token), (1, amount)]"
proof -
  let ?body = "kw @ w1 @ amount @ w2 @ token @ w3 @ kt @ w4 @ g @ rest"
  have "exec_from True SEND_tail 0 (pre @ ?body) = exec_from True SEND_tail (0 + length pre) ?body"
    by (rule exec_from_skip) (use SEND_tail_prefix_None[OF pre kw] in simp)
  also have "\<dots> = Some [(3, g), (2, token), (1, amount)]"
    by (rule exec_from_hit, rule send_tail_match) (use assms in simp_all)
  finally show ?thesis by (simp add: str_match_def)
qed

lemma app_parse_shape:
  assumes pre: "list_all (\<lambda>x. \<not> isDigit x) pre"
    and kw: "toUpperCase kw = ''SEND''" and kt: "toUpperCase kt = ''TO''"
    and w1: "w1 \<noteq> []" "list_all isSpace w1" and w2: "w2 \<noteq> []" "list_all isSpace w2"
    and w3: "w3 \<noteq> []" "list_all isSpace w3" and w4: "w4 \<noteq> []" "list_all isSpace w4"
    and am: "isDecimal amount"
    and tk: "token \<noteq> []" "list_all isAlpha token"
    and rc: "g \<noteq> []" "\<not> isSpace (hd g)" "list_all (\<lambda>c. \<not> isLineTerminator c) g"
    and rest: "rest = [] \<or> isLineTerminator (hd rest)"
  shows "app_parseCommand (pre @ kw @ w1 @ amount @ w2 @ token @ w3 @ kt @ w4 @ g @ rest) =
           Inr (Some \<lparr>sr_amount = amount,
                      sr_token = (if toUpperCase token = ''MYTOKEN'' \<or> toUpperCase token = ''MY-TOKEN''
                                     \<or> toUpperCase token = ''MY_TOKEN''
                                  then ''MTK'' else toUpperCase token),
                      sr_recipient = toLowerCase (trim g)\<rparr>)"
  unfolding app_parseCommand_def send_tail_found[OF assms]
  by (simp add: group_text_def grp_def bind_err_def Let_def)

text \<open>
  Claim C4, amended. The handler of the command execution entry point reads the text
  with its own send pattern only and takes the leftmost occurrence of the pattern in
  the text; the helper never throws, since the three groups take part in every match.
  The empty text is answered \<^verbatim>\<open>Command is required\<close>. A text in which the pattern
  does not occur, so every text without a digit, is answered with the invalid-command
  response and its usage suggestion, the state of the service unchanged. A text in
  which the pattern occurs is a send request, with the groups of the leftmost
  occurrence as amount, token and recipient; so is every text made of a part without
  digits, the word send in any letter case, a decimal number, an alphabetic token, the
  word to and a recipient that starts with a character other than white space and runs
  to the end of its line, the parts separated by white space. For a send request the
  recipient, trimmed and lower-cased, is resolved with \<open>findByName\<close>; a missing contact
  is answered 404 with the suggestion to add the contact first; for a contact found,
  \<open>sendTokens\<close> is called with the token (in upper case, \<^verbatim>\<open>MTK\<close> for its aliases),
  the contact's address and the amount as written, and its result is answered 200 and
  its failure 500. Every text that \<open>parseCommand\<close> reads as a \<open>CHECK_BALANCE\<close> or a
  \<open>LIST_CONTACTS\<close> intent is answered with the invalid-command response: the handler
  has no branch for balance queries or directory calls.
\<close>

theorem execute_dispatch:
  "(\<exists>r. app_parseCommand command = Inr r)
   \<and> (command = [] \<longrightarrow> execute e st dir command = (command_required, st))
   \<and> (command \<noteq> [] \<and> str_match True SEND_tail command = None \<longrightarrow>
        execute e st dir command = (invalid_command, st))
   \<and> (command \<noteq> [] \<and> list_all (\<lambda>x. \<not> isDigit x) command \<longrightarrow>
        execute e st dir command = (invalid_command, st))
   \<and> (\<forall>m. str_match True SEND_tail command = Some m \<longrightarrow>
        (\<exists>a t r. grp m 1 = Some a \<and> grp m 2 = Some t \<and> grp m 3 = Some r))
   \<and> (command \<noteq> []
        \<and> ((\<exists>m. str_match True SEND_tail command = Some m
                  \<and> grp m 1 = Some amount \<and> grp m 2 = Some token \<and> grp m 3 = Some g)
             \<or> (command = pre @ kw @ w1 @ amount @ w2 @ token @ w3 @ kt @ w4 @ g @ rest
                 \<and> list_all (\<lambda>x. \<not> isDigit x) pre
                 \<and> toUpperCase kw = ''SEND'' \<and> toUpperCase kt = ''TO''
                 \<and> w1 \<noteq> [] \<and> list_all isSpace w1 \<and> w2 \<noteq> [] \<and> list_all isSpace w2
                 \<and> w3 \<noteq> [] \<and> list_all isSpace w3 \<and> w4 \<noteq> [] \<and> list_all isSpace w4
                 \<and> isDecimal amount \<and> token \<noteq> [] \<and> list_all isAlpha token
                 \<and> g \<noteq> [] \<and> \<not> isSpace (hd g) \<and> list_all (\<lambda>c. \<not> isLineTerminator c) g
                 \<and> (rest = [] \<or> isLineTerminator (hd rest))))
        \<and> recipient = toLowerCase (trim g)
        \<and> symbol = (if toUpperCase token = ''MYTOKEN'' \<or> toUpperCase token = ''MY-TOKEN''
                         \<or> toUpperCase token = ''MY_TOKEN''
                      then ''MTK'' else toUpperCase token) \<longrightarrow>
        execute e st dir command =
          (case findByName dir recipient of
             None \<Rightarrow>
               (\<lparr>status = 404,
                 json = ErrorBody (''Contact '' @ dquote @ recipient @ dquote @ '' not found'')
                          (Some (''Make sure you'' @ [CHR 0x27] @ ''ve added '' @ recipient @
                                 '' to your contacts first''))\<rparr>, st)
           | Some contact \<Rightarrow>
               (case sendTokens e st symbol (address contact) amount of
                  (Inl err, st1) \<Rightarrow>
                    (\<lparr>status = 500, json = ErrorBody (message err) None\<rparr>, st1)
                | (Inr transaction, st1) \<Rightarrow>
                    (\<lparr>status = 200,
                      json = SuccessBody (''Successfully sent '' @ amount @ '' '' @ symbol @
                                          '' to '' @ recipient) transaction\<rparr>, st1))))
   \<and> (\<forall>t. parseCommand command = Inr (Some (CHECK_BALANCE t))
          \<or> parseCommand command = Inr (Some LIST_CONTACTS) \<longrightarrow>
        execute e st dir command = (invalid_command, st))"
proof (intro conjI impI allI)
  show "\<exists>r. app_parseCommand command = Inr r"
  proof (cases "str_match True SEND_tail command")
    case None
    then show ?thesis by (simp add: app_parseCommand_def)
  next
    case (Some m)
    then show ?thesis
      using group_text_defined[OF Some SEND_captures(4)] group_text_defined[OF Some SEND_captures(5)]
        group_text_defined[OF Some SEND_captures(6)]
      by (auto simp: app_parseCommand_def bind_err_def Let_def)
  qed
next
  assume "command = []"
  then show "execute e st dir command = (command_required, st)"
    by (simp add: execute_def command_required_def)
next
  assume "command \<noteq> [] \<and> str_match True SEND_tail command = None"
  then show "execute e st dir command = (invalid_command, st)"
    by (simp add: execute_def app_parseCommand_def invalid_command_def)
next
  assume "command \<noteq> [] \<and> list_all (\<lambda>x. \<not> isDigit x) command"
  then show "execute e st dir command = (invalid_command, st)"
    using app_parse_no_digit[of command] by (simp add: execute_def invalid_command_def)
next
  fix m assume m: "str_match True SEND_tail command = Some m"
  show "\<exists>a t r. grp m 1 = Some a \<and> grp m 2 = Some t \<and> grp m 3 = Some r"
    using group_text_defined[OF m SEND_captures(4)] group_text_defined[OF m SEND_captures(5)]
      group_text_defined[OF m SEND_captures(6)]
    by (auto simp: group_text_def split: option.splits)
next
  assume a: "command \<noteq> []
        \<and> ((\<exists>m. str_match True SEND_tail command = Some m
                  \<and> grp m 1 = Some amount \<and> grp m 2 = Some token \<and> grp m 3 = Some g)
             \<or> (command = pre @ kw @ w1 @ amount @ w2 @ token @ w3 @ kt @ w4 @ g @ rest
                 \<and> list_all (\<lambda>x. \<not> isDigit x) pre
                 \<and> toUpperCase kw = ''SEND'' \<and> toUpperCase kt = ''TO''
                 \<and> w1 \<noteq> [] \<and> list_all isSpace w1 \<and> w2 \<noteq> [] \<and> list_all isSpace w2
                 \<and> w3 \<noteq> [] \<and> list_all isSpace w3 \<and> w4 \<noteq> [] \<and> list_all isSpace w4
                 \<and> isDecimal amount \<and> token \<noteq> [] \<and> list_all isAlpha token
                 \<and> g \<noteq> [] \<and> \<not> isSpace (hd g) \<and> list_all (\<lambda>c. \<not> isLineTerminator c) g
                 \<and> (rest = [] \<or> isLineTerminator (hd rest))))
        \<and> recipient = toLowerCase (trim g)
        \<and> symbol = (if toUpperCase token = ''MYTOKEN'' \<or> toUpperCase token = ''MY-TOKEN''
                         \<or> toUpperCase token = ''MY_TOKEN''
                      then ''MTK'' else toUpperCase token)"
  then have ne: "command \<noteq> []" by simp
  from a have "(\<exists>m. str_match True SEND_tail command = Some m
                  \<and> grp m 1 = Some amount \<and> grp m 2 = Some token \<and> grp m 3 = Some g)
             \<or> (command = pre @ kw @ w1 @ amount @ w2 @ token @ w3 @ kt @ w4 @ g @ rest
                 \<and> list_all (\<lambda>x. \<not> isDigit x) pre
                 \<and> toUpperCase kw = ''SEND'' \<and> toUpperCase kt = ''TO''
                 \<and> w1 \<noteq> [] \<and> list_all isSpace w1 \<and> w2 \<noteq> [] \<and> list_all isSpace w2
                 \<and> w3 \<noteq> [] \<and> list_all isSpace w3 \<and> w4 \<noteq> [] \<and> list_all isSpace w4
                 \<and> isDecimal amount \<and> token \<noteq> [] \<and> list_all isAlpha token
                 \<and> g \<noteq> [] \<and> \<not> isSpace (hd g) \<and> list_all (\<lambda>c. \<not> isLineTerminator c) g
                 \<and> (rest = [] \<or> isLineTerminator (hd rest)))"
    by (rule conjunct2[THEN conjunct1])
  then have "\<exists>m. str_match True SEND_tail command = Some m
                  \<and> grp m 1 = Some amount \<and> grp m 2 = Some token \<and> grp m 3 = Some g"
  proof (rule disjE)
    assume "\<exists>m. str_match True SEND_tail command = Some m
                  \<and> grp m 1 = Some amount \<and> grp m 2 = Some token \<and> grp m 3 = Some g"
    then show ?thesis .
  next
    assume "command = pre @ kw @ w1 @ amount @ w2 @ token @ w3 @ kt @ w4 @ g @ rest
                 \<and> list_all (\<lambda>x. \<not> isDigit x) pre
                 \<and> toUpperCase kw = ''SEND'' \<and> toUpperCase kt = ''TO''
                 \<and> w1 \<noteq> [] \<and> list_all isSpace w1 \<and> w2 \<noteq> [] \<and> list_all isSpace w2
                 \<and> w3 \<noteq> [] \<and> list_all isSpace w3 \<and> w4 \<noteq> [] \<and> list_all isSpace w4
                 \<and> isDecimal amount \<and> token \<noteq> [] \<and> list_all isAlpha token
                 \<and> g \<noteq> [] \<and> \<not> isSpace (hd g) \<and> list_all (\<lambda>c. \<not> isLineTerminator c) g
                 \<and> (rest = [] \<or> isLineTerminator (hd rest))"
    then have "str_match True SEND_tail command = Some [(3, g), (2, token), (1, amount)]"
      using send_tail_found[of pre kw kt w1 w2 w3 w4 amount token g rest] by simp
    then show ?thesis by (simp add: grp_def)
  qed
  then have p: "app_parseCommand command =
                  Inr (Some \<lparr>sr_amount = amount, sr_token = symbol, sr_recipient = recipient\<rparr>)"
    using a by (auto simp: app_parseCommand_def group_text_def bind_err_def Let_def)
  show "execute e st dir command =
          (case findByName dir recipient of
             None \<Rightarrow>
               (\<lparr>status = 404,
                 json = ErrorBody (''Contact '' @ dquote @ recipient @ dquote @ '' not found'')
                          (Some (''Make sure you'' @ [CHR 0x27] @ ''ve added '' @ recipient @
                                 '' to your contacts first''))\<rparr>, st)
           | Some contact \<Rightarrow>
               (case sendTokens e st symbol (address contact) amount of
                  (Inl err, st1) \<Rightarrow>
                    (\<lparr>status = 500, json = ErrorBody (message err) None\<rparr>, st1)
                | (Inr transaction, st1) \<Rightarrow>
                    (\<lparr>status = 200,
                      json = SuccessBody (''Successfully sent '' @ amount @ '' '' @ symbol @
                                          '' to '' @ recipient) transaction\<rparr>, st1)))"
    using ne p by (simp add: execute_def split: option.splits prod.splits sum.splits)
next
  fix t
  assume "parseCommand command = Inr (Some (CHECK_BALANCE t))
          \<or> parseCommand command = Inr (Some LIST_CONTACTS)"
  then have "command \<noteq> []" "app_parseCommand command = Inr None"
    using balance_or_list_no_digit[of command t] app_parse_no_digit[of command] by blast+
  then show "execute e st dir command = (invalid_command, st)"
    by (simp add: execute_def invalid_command_def)
qed

lemma app_parse_examples:
  "app_parseCommand ''check my balance'' = Inr None"
  "app_parseCommand ''list contacts'' = Inr None"
  "app_parseCommand ''add contact bob 0x0123456789abcdef0123456789abcdef01234567'' = Inr None"
  by code_simp+

lemma parse_examples:
  "parseCommand ''check my balance'' = Inr (Some (CHECK_BALANCE ''ALL''))"
  "parseCommand ''list contacts'' = Inr (Some LIST_CONTACTS)"
  "parseCommand ''add contact bob 0x0123456789abcdef0123456789abcdef01234567'' =
     Inr (Some (ADD_CONTACT ''bob'' ''0x0123456789abcdef0123456789abcdef01234567''))"
  by code_simp+

text \<open>
  Claim C4 as stated fails on a balance command, a list command and an add-contact
  command: each is read by \<open>parseCommand\<close> as its intent, and the handler answers
  each with the invalid-command response, the state of the service unchanged.
\<close>

theorem execute_not_dispatched_counterexample:
  "parseCommand ''check my balance'' = Inr (Some (CHECK_BALANCE ''ALL''))
   \<and> execute test_env init_state \<lparr>docs = [alice_doc], next_id = 1\<rparr> ''check my balance'' =
       (invalid_command, init_state)
   \<and> parseCommand ''list contacts'' = Inr (Some LIST_CONTACTS)
   \<and> execute test_env init_state \<lparr>docs = [alice_doc], next_id = 1\<rparr> ''list contacts'' =
       (invalid_command, init_state)
   \<and> parseCommand ''add contact bob 0x0123456789abcdef0123456789abcdef01234567'' =
       Inr (Some (ADD_CONTACT ''bob'' ''0x0123456789abcdef0123456789abcdef01234567''))
   \<and> execute test_env init_state \<lparr>docs = [alice_doc], next_id = 1\<rparr>
         ''add contact bob 0x0123456789abcdef0123456789abcdef01234567'' =
       (invalid_command, init_state)"
  using app_parse_examples(1-3) parse_examples
  by (simp add: execute_def invalid_command_def)


lemma send_usdc:
  "sendTokens test_env init_state ''USDC'' test_address ''5'' =
     (Inr usdc_transfer, init_state\<lparr>calls := usdc_calls\<rparr>)"
proof -
  have a: "getTokenAddress test_env ''USDC'' = Some (Own ''0x1c7D4B196Cb0C7B01d743Fbc6116a902379C7238'')"
    by (simp add: getTokenAddress_def obj_get_def test_env_def TOKEN_ADDRESSES_def)
  have d: "getTokenDecimals test_env init_state ''USDC'' = (Inr (Own 6), init_state)"
    by (simp add: getTokenDecimals_def cached_decimals_def obj_get_def init_state_def
        TOKEN_DECIMALS_init_def)
  have p: "parseUnits test_env ''5'' (Own 6) = Inr 5000000"
    by (simp add: test_env_def parseFixed_def digits_value_def isDigit_def code_def Let_def)
  have x: "erc20_transfer test_env (Own a) t v = Inr 1"
    "tx_wait test_env tx = Inr \<lparr>r_transactionHash = ''0xabc'', r_blockNumber = 100\<rparr>" for a t v tx
    by (simp_all add: test_env_def)
  have "sendTokens test_env init_state ''USDC'' test_address ''5'' =
          catch_send ''USDC'' (sendTokens_try test_env init_state ''USDC''
             (Own ''0x1c7D4B196Cb0C7B01d743Fbc6116a902379C7238'') test_address ''5'' 5000000)"
    using test_isAddress a d p by (simp add: sendTokens_def)
  then show ?thesis
    using test_reads x
    by (simp add: sendTokens_try_def catch_send_def Let_def log_call_def usdc_transfer_def
        usdc_calls_def init_state_def)
qed

lemma find_examples:
  "findByName \<lparr>docs = [alice_doc], next_id = 1\<rparr> ''alice!'' = Some alice_doc"
  "findByName \<lparr>docs = [alice_doc], next_id = 1\<rparr> ''alice'' = Some alice_doc"
  "findByName \<lparr>docs = [alice_doc], next_id = 1\<rparr> ''carol'' = None"
  "address alice_doc = test_address"
  by code_simp+

theorem execute_dispatch_witness:
  "execute test_env init_state \<lparr>docs = [alice_doc], next_id = 1\<rparr>
       ''please send 5 USDC to Alice!'' =
     (\<lparr>status = 200, json = SuccessBody ''Successfully sent 5 USDC to alice!'' usdc_transfer\<rparr>,
      init_state\<lparr>calls := usdc_calls\<rparr>)
   \<and> execute test_env init_state \<lparr>docs = [alice_doc], next_id = 1\<rparr>
       (''Send 5 usdc to Carol'' @ [CHR 0x0A] @ ''thanks'') =
     (\<lparr>status = 404,
       json = ErrorBody (''Contact '' @ dquote @ ''carol'' @ dquote @ '' not found'')
                (Some (''Make sure you'' @ [CHR 0x27] @ ''ve added carol to your contacts first''))\<rparr>,
      init_state)
   \<and> execute test_env init_state \<lparr>docs = [alice_doc], next_id = 1\<rparr>
       ''at 9 send 5 USDC to alice'' =
     (\<lparr>status = 200, json = SuccessBody ''Successfully sent 5 USDC to alice'' usdc_transfer\<rparr>,
      init_state\<lparr>calls := usdc_calls\<rparr>)
   \<and> execute test_env init_state \<lparr>docs = [alice_doc], next_id = 1\<rparr> ''send money to Alice'' =
     (invalid_command, init_state)
   \<and> execute test_env init_state \<lparr>docs = [alice_doc], next_id = 1\<rparr> ''check my balance'' =
     (invalid_command, init_state)
   \<and> execute test_env init_state \<lparr>docs = [alice_doc], next_id = 1\<rparr> [] =
     (command_required, init_state)"
proof -
  let ?dir = "\<lparr>docs = [alice_doc], next_id = 1\<rparr>"
  have sp: "'' '' \<noteq> []" "list_all isSpace '' ''" by code_simp+
  have wd: "toUpperCase ''send'' = ''SEND''" "toUpperCase ''Send'' = ''SEND''"
    "toUpperCase ''to'' = ''TO''" "isDecimal ''5''"
    "toUpperCase ''USDC'' = ''USDC''" "toUpperCase ''usdc'' = ''USDC''"
    by code_simp+
  have sa: "''please send 5 USDC to Alice!'' =
              ''please '' @ ''send'' @ '' '' @ ''5'' @ '' '' @ ''USDC'' @ '' '' @ ''to'' @ '' '' @
              ''Alice!'' @ []
        \<and> list_all (\<lambda>x. \<not> isDigit x) ''please ''
        \<and> toUpperCase ''send'' = ''SEND'' \<and> toUpperCase ''to'' = ''TO''
        \<and> '' '' \<noteq> [] \<and> list_all isSpace '' '' \<and> '' '' \<noteq> [] \<and> list_all isSpace '' ''
        \<and> '' '' \<noteq> [] \<and> list_all isSpace '' '' \<and> '' '' \<noteq> [] \<and> list_all isSpace '' ''
        \<and> isDecimal ''5'' \<and> ''USDC'' \<noteq> [] \<and> list_all isAlpha ''USDC''
        \<and> ''Alice!'' \<noteq> [] \<and> \<not> isSpace (hd ''Alice!'')
        \<and> list_all (\<lambda>c. \<not> isLineTerminator c) ''Alice!''
        \<and> ([] = [] \<or> isLineTerminator (hd []))"
    by (intro conjI sp wd) (simp, code_simp+)
  have ha: "''please send 5 USDC to Alice!'' \<noteq> []
        \<and> ((\<exists>m. str_match True SEND_tail ''please send 5 USDC to Alice!'' = Some m
                  \<and> grp m 1 = Some ''5'' \<and> grp m 2 = Some ''USDC'' \<and> grp m 3 = Some ''Alice!'')
             \<or> (''please send 5 USDC to Alice!'' =
              ''please '' @ ''send'' @ '' '' @ ''5'' @ '' '' @ ''USDC'' @ '' '' @ ''to'' @ '' '' @
              ''Alice!'' @ []
        \<and> list_all (\<lambda>x. \<not> isDigit x) ''please ''
        \<and> toUpperCase ''send'' = ''SEND'' \<and> toUpperCase ''to'' = ''TO''
        \<and> '' '' \<noteq> [] \<and> list_all isSpace '' '' \<and> '' '' \<noteq> [] \<and> list_all isSpace '' ''
        \<and> '' '' \<noteq> [] \<and> list_all isSpace '' '' \<and> '' '' \<noteq> [] \<and> list_all isSpace '' ''
        \<and> isDecimal ''5'' \<and> ''USDC'' \<noteq> [] \<and> list_all isAlpha ''USDC''
        \<and> ''Alice!'' \<noteq> [] \<and> \<not> isSpace (hd ''Alice!'')
        \<and> list_all (\<lambda>c. \<not> isLineTerminator c) ''Alice!''
        \<and> ([] = [] \<or> isLineTerminator (hd []))))
        \<and> ''alice!'' = toLowerCase (trim ''Alice!'')
        \<and> ''USDC'' = (if toUpperCase ''USDC'' = ''MYTOKEN'' \<or> toUpperCase ''USDC'' = ''MY-TOKEN''
                         \<or> toUpperCase ''USDC'' = ''MY_TOKEN''
                      then ''MTK'' else toUpperCase ''USDC'')"
  proof (intro conjI)
    show "''please send 5 USDC to Alice!'' \<noteq> []" by simp
    show "''alice!'' = toLowerCase (trim ''Alice!'')" by code_simp
    show "''USDC'' = (if toUpperCase ''USDC'' = ''MYTOKEN'' \<or> toUpperCase ''USDC'' = ''MY-TOKEN''
                         \<or> toUpperCase ''USDC'' = ''MY_TOKEN''
                      then ''MTK'' else toUpperCase ''USDC'')" by code_simp
  qed (rule disjI2, rule sa)
  have a: "execute test_env init_state ?dir ''please send 5 USDC to Alice!'' =
     (\<lparr>status = 200, json = SuccessBody ''Successfully sent 5 USDC to alice!'' usdc_transfer\<rparr>,
      init_state\<lparr>calls := usdc_calls\<rparr>)"
    using execute_dispatch[where e = test_env and st = init_state and dir = ?dir
        and command = "''please send 5 USDC to Alice!''" and pre = "''please ''"
        and kw = "''send''" and ?w1.0 = "'' ''" and amount = "''5''" and ?w2.0 = "'' ''"
        and token = "''USDC''" and ?w3.0 = "'' ''" and kt = "''to''" and ?w4.0 = "'' ''"
        and g = "''Alice!''" and rest = "[]" and recipient = "''alice!''"
        and symbol = "''USDC''",
        THEN conjunct2, THEN conjunct2, THEN conjunct2, THEN conjunct2, THEN conjunct2,
        THEN conjunct1, THEN mp, OF ha]
      find_examples send_usdc
    by simp
  have sb: "''Send 5 usdc to Carol'' @ [CHR 0x0A] @ ''thanks'' =
              [] @ ''Send'' @ '' '' @ ''5'' @ '' '' @ ''usdc'' @ '' '' @ ''to'' @ '' '' @
              ''Carol'' @ ([CHR 0x0A] @ ''thanks'')
        \<and> list_all (\<lambda>x. \<not> isDigit x) []
        \<and> toUpperCase ''Send'' = ''SEND'' \<and> toUpperCase ''to'' = ''TO''
        \<and> '' '' \<noteq> [] \<and> list_all isSpace '' '' \<and> '' '' \<noteq> [] \<and> list_all isSpace '' ''
        \<and> '' '' \<noteq> [] \<and> list_all isSpace '' '' \<and> '' '' \<noteq> [] \<and> list_all isSpace '' ''
        \<and> isDecimal ''5'' \<and> ''usdc'' \<noteq> [] \<and> list_all isAlpha ''usdc''
        \<and> ''Carol'' \<noteq> [] \<and> \<not> isSpace (hd ''Carol'')
        \<and> list_all (\<lambda>c. \<not> isLineTerminator c) ''Carol''
        \<and> ([CHR 0x0A] @ ''thanks'' = [] \<or> isLineTerminator (hd ([CHR 0x0A] @ ''thanks'')))"
    by (intro conjI sp wd) (simp, code_simp+)
  have hb: "''Send 5 usdc to Carol'' @ [CHR 0x0A] @ ''thanks'' \<noteq> []
        \<and> ((\<exists>m. str_match True SEND_tail (''Send 5 usdc to Carol'' @ [CHR 0x0A] @ ''thanks'') = Some m
                  \<and> grp m 1 = Some ''5'' \<and> grp m 2 = Some ''usdc'' \<and> grp m 3 = Some ''Carol'')
             \<or> (''Send 5 usdc to Carol'' @ [CHR 0x0A] @ ''thanks'' =
              [] @ ''Send'' @ '' '' @ ''5'' @ '' '' @ ''usdc'' @ '' '' @ ''to'' @ '' '' @
              ''Carol'' @ ([CHR 0x0A] @ ''thanks'')
        \<and> list_all (\<lambda>x. \<not> isDigit x) []
        \<and> toUpperCase ''Send'' = ''SEND'' \<and> toUpperCase ''to'' = ''TO''
        \<and> '' '' \<noteq> [] \<and> list_all isSpace '' '' \<and> '' '' \<noteq> [] \<and> list_all isSpace '' ''
        \<and> '' '' \<noteq> [] \<and> list_all isSpace '' '' \<and> '' '' \<noteq> [] \<and> list_all isSpace '' ''
        \<and> isDecimal ''5'' \<and> ''usdc'' \<noteq> [] \<and> list_all isAlpha ''usdc''
        \<and> ''Carol'' \<noteq> [] \<and> \<not> isSpace (hd ''Carol'')
        \<and> list_all (\<lambda>c. \<not> isLineTerminator c) ''Carol''
        \<and> ([CHR 0x0A] @ ''thanks'' = [] \<or> isLineTerminator (hd ([CHR 0x0A] @ ''thanks'')))))
        \<and> ''carol'' = toLowerCase (trim ''Carol'')
        \<and> ''USDC'' = (if toUpperCase ''usdc'' = ''MYTOKEN'' \<or> toUpperCase ''usdc'' = ''MY-TOKEN''
                         \<or> toUpperCase ''usdc'' = ''MY_TOKEN''
                      then ''MTK'' else toUpperCase ''usdc'')"
  proof (intro conjI)
    show "''Send 5 usdc to Carol'' @ [CHR 0x0A] @ ''thanks'' \<noteq> []" by simp
    show "''carol'' = toLowerCase (trim ''Carol'')" by code_simp
    show "''USDC'' = (if toUpperCase ''usdc'' = ''MYTOKEN'' \<or> toUpperCase ''usdc'' = ''MY-TOKEN''
                         \<or> toUpperCase ''usdc'' = ''MY_TOKEN''
                      then ''MTK'' else toUpperCase ''usdc'')" by code_simp
  qed (rule disjI2, rule sb)
  have b: "execute test_env init_state ?dir (''Send 5 usdc to Carol'' @ [CHR 0x0A] @ ''thanks'') =
     (\<lparr>status = 404,
       json = ErrorBody (''Contact '' @ dquote @ ''carol'' @ dquote @ '' not found'')
                (Some (''Make sure you'' @ [CHR 0x27] @ ''ve added carol to your contacts first''))\<rparr>,
      init_state)"
    using execute_dispatch[where e = test_env and st = init_state and dir = ?dir
        and command = "''Send 5 usdc to Carol'' @ [CHR 0x0A] @ ''thanks''" and pre = "[]"
        and kw = "''Send''" and ?w1.0 = "'' ''" and amount = "''5''" and ?w2.0 = "'' ''"
        and token = "''usdc''" and ?w3.0 = "'' ''" and kt = "''to''" and ?w4.0 = "'' ''"
        and g = "''Carol''" and rest = "[CHR 0x0A] @ ''thanks''" and recipient = "''carol''"
        and symbol = "''USDC''",
        THEN conjunct2, THEN conjunct2, THEN conjunct2, THEN conjunct2, THEN conjunct2,
        THEN conjunct1, THEN mp, OF hb]
      find_examples
    by simp
  have sm: "str_match True SEND_tail ''at 9 send 5 USDC to alice'' =
              Some [(3, ''alice''), (2, ''USDC''), (1, ''5'')]"
    by code_simp
  have hg: "''at 9 send 5 USDC to alice'' \<noteq> []
        \<and> ((\<exists>m. str_match True SEND_tail ''at 9 send 5 USDC to alice'' = Some m
                  \<and> grp m 1 = Some ''5'' \<and> grp m 2 = Some ''USDC'' \<and> grp m 3 = Some ''alice'')
             \<or> (''at 9 send 5 USDC to alice'' =
                   ''at 9 '' @ ''send'' @ '' '' @ ''5'' @ '' '' @ ''USDC'' @ '' '' @ ''to'' @ '' '' @
                   ''alice'' @ []
                 \<and> list_all (\<lambda>x. \<not> isDigit x) ''at 9 ''
                 \<and> toUpperCase ''send'' = ''SEND'' \<and> toUpperCase ''to'' = ''TO''
                 \<and> '' '' \<noteq> [] \<and> list_all isSpace '' '' \<and> '' '' \<noteq> [] \<and> list_all isSpace '' ''
                 \<and> '' '' \<noteq> [] \<and> list_all isSpace '' '' \<and> '' '' \<noteq> [] \<and> list_all isSpace '' ''
                 \<and> isDecimal ''5'' \<and> ''USDC'' \<noteq> [] \<and> list_all isAlpha ''USDC''
                 \<and> ''alice'' \<noteq> [] \<and> \<not> isSpace (hd ''alice'')
                 \<and> list_all (\<lambda>c. \<not> isLineTerminator c) ''alice''
                 \<and> ([] = [] \<or> isLineTerminator (hd []))))
        \<and> ''alice'' = toLowerCase (trim ''alice'')
        \<and> ''USDC'' = (if toUpperCase ''USDC'' = ''MYTOKEN'' \<or> toUpperCase ''USDC'' = ''MY-TOKEN''
                         \<or> toUpperCase ''USDC'' = ''MY_TOKEN''
                      then ''MTK'' else toUpperCase ''USDC'')"
  proof (intro conjI)
    show "''at 9 send 5 USDC to alice'' \<noteq> []" by simp
    show "''alice'' = toLowerCase (trim ''alice'')" by code_simp
    show "''USDC'' = (if toUpperCase ''USDC'' = ''MYTOKEN'' \<or> toUpperCase ''USDC'' = ''MY-TOKEN''
                         \<or> toUpperCase ''USDC'' = ''MY_TOKEN''
                      then ''MTK'' else toUpperCase ''USDC'')" by code_simp
  qed (rule disjI1, simp add: sm grp_def)
  have g: "execute test_env init_state ?dir ''at 9 send 5 USDC to alice'' =
     (\<lparr>status = 200, json = SuccessBody ''Successfully sent 5 USDC to alice'' usdc_transfer\<rparr>,
      init_state\<lparr>calls := usdc_calls\<rparr>)"
    using execute_dispatch[where e = test_env and st = init_state and dir = ?dir
        and command = "''at 9 send 5 USDC to alice''" and pre = "''at 9 ''"
        and kw = "''send''" and ?w1.0 = "'' ''" and amount = "''5''" and ?w2.0 = "'' ''"
        and token = "''USDC''" and ?w3.0 = "'' ''" and kt = "''to''" and ?w4.0 = "'' ''"
        and g = "''alice''" and rest = "[]" and recipient = "''alice''"
        and symbol = "''USDC''",
        THEN conjunct2, THEN conjunct2, THEN conjunct2, THEN conjunct2, THEN conjunct2,
        THEN conjunct1, THEN mp, OF hg]
      find_examples send_usdc
    by simp
  have hm: "''send money to Alice'' \<noteq> [] \<and> list_all (\<lambda>x. \<not> isDigit x) ''send money to Alice''"
    by code_simp
  have m: "execute test_env init_state ?dir ''send money to Alice'' = (invalid_command, init_state)"
    using execute_dispatch[where e = test_env and st = init_state and dir = ?dir
        and command = "''send money to Alice''",
        THEN conjunct2, THEN conjunct2, THEN conjunct2, THEN conjunct1, THEN mp, OF hm] .
  have c: "execute test_env init_state ?dir ''check my balance'' = (invalid_command, init_state)"
    using execute_dispatch[where e = test_env and st = init_state and dir = ?dir
        and command = "''check my balance''", THEN conjunct2, THEN conjunct2, THEN conjunct2,
        THEN conjunct2, THEN conjunct2, THEN conjunct2, rule_format, of "''ALL''"]
      parse_examples(1)
    by simp
  have e: "execute test_env init_state ?dir [] = (command_required, init_state)"
    using execute_dispatch[where e = test_env and st = init_state and dir = ?dir
        and command = "[]", THEN conjunct2, THEN conjunct1] by simp
  show ?thesis using a b g m c e by (intro conjI)
qed

end
